theory Spec2Isabelle
  imports Main "HOL-Library.Sublist"
begin

text \<open>
  A shallow embedding of the Living Voices dataset tools: the fixed-window segmenter of
  the prose pipeline, the record-to-document mapper and the structure-aware segmenter of
  the poem pipeline, the dataset validator and the streaming extractor. Each source
  function is a function of the same name here, without the leading underscore; state that the source keeps in object
  attributes is passed and returned, exceptions are left injections of a sum, and a loop
  that may run forever returns an option.
\<close>

section \<open>Python strings and lists\<close>

text \<open>
  A Python \<open>str\<close> is a sequence of Unicode code points, so \<open>len\<close> counts code points.
  It is modelled as a list of natural numbers; an ASCII literal of the source is written
  \<open>lit ''...''\<close>.
\<close>

type_synonym pystr = "nat list"

definition lit :: "string \<Rightarrow> pystr" where
  "lit s = map of_char s"

text \<open>
  The code points for which \<open>str.isspace()\<close> holds; \<open>str.split()\<close> without an
  argument splits on runs of them.
\<close>

definition is_space :: "nat \<Rightarrow> bool" where
  "is_space c \<longleftrightarrow>
     (9 \<le> c \<and> c \<le> 13) \<or> (28 \<le> c \<and> c \<le> 32) \<or> c = 133 \<or> c = 160 \<or> c = 5760 \<or>
     (8192 \<le> c \<and> c \<le> 8202) \<or> c = 8232 \<or> c = 8233 \<or> c = 8239 \<or> c = 8287 \<or> c = 12288"

text \<open>
  \<open>s.split()\<close>: the maximal runs of non-whitespace code points, in order.
  The first argument of \<open>split_ws\<close> is the word read so far.
\<close>

fun split_ws :: "pystr \<Rightarrow> pystr \<Rightarrow> pystr list" where
  "split_ws cur [] = (if cur = [] then [] else [cur])"
| "split_ws cur (c # cs) =
     (if is_space c then (if cur = [] then split_ws [] cs else cur # split_ws [] cs)
      else split_ws (cur @ [c]) cs)"

definition py_split :: "pystr \<Rightarrow> pystr list" where
  "py_split s = split_ws [] s"

text \<open>\<open>sep.join(parts)\<close>.\<close>

fun py_join :: "pystr \<Rightarrow> pystr list \<Rightarrow> pystr" where
  "py_join sep [] = []"
| "py_join sep [x] = x"
| "py_join sep (x # y # ys) = x @ sep @ py_join sep (y # ys)"

text \<open>
  \<open>xs[i:j]\<close> for integers \<open>i\<close>, \<open>j\<close>: a negative index counts from the end, and
  both indices are clamped to the list.
\<close>

definition slice_index :: "int \<Rightarrow> int \<Rightarrow> nat" where
  "slice_index n k = nat (if k < 0 then max (k + n) 0 else min k n)"

definition py_slice :: "'a list \<Rightarrow> int \<Rightarrow> int \<Rightarrow> 'a list" where
  "py_slice xs i j =
     (let n = int (length xs); s = slice_index n i; e = slice_index n j
      in take (e - s) (drop s xs))"

text \<open>\<open>str(n)\<close> for a non-negative integer: its decimal digits.\<close>

fun str_nat :: "nat \<Rightarrow> pystr" where
  "str_nat n = (if n < 10 then [48 + n] else str_nat (n div 10) @ [48 + n mod 10])"

declare str_nat.simps [simp del]

section \<open>Fixed-window segmentation (queen\_elizabeth\_ii/process\_data.py)\<close>

record qe_source =
  url :: pystr
  wikipedia_page :: pystr
  collected :: pystr
  processed :: pystr

record qe_content =
  full_text :: pystr
  summary :: pystr
  word_count :: nat
  char_count :: nat

record qe_metadata =
  persona :: pystr
  time_period :: pystr
  content_category :: pystr
  language :: pystr
  formality :: pystr

text \<open>The structured document built by \<open>_structure_document\<close>.\<close>

record qe_document =
  doc_id :: pystr
  doc_type :: pystr
  doc_title :: pystr
  doc_source :: qe_source
  doc_content :: qe_content
  doc_metadata :: qe_metadata

text \<open>The chunk dictionary built in \<open>_chunk_document\<close>.\<close>

record qe_chunk =
  chunk_id :: pystr
  document_id :: pystr
  document_title :: pystr
  chunk_index :: nat
  chunk_content :: pystr
  chunk_word_count :: nat
  chunk_metadata :: qe_metadata
  chunk_source :: qe_source

text \<open>
  One pass through the body of the \<open>while\<close> loop of \<open>_chunk_document\<close> up to
  \<open>chunks.append(chunk)\<close>: the window \<open>words[start:end]\<close> with
  \<open>end = min(start + chunk_size, len(words))\<close>, joined by single spaces.
\<close>

definition make_chunk :: "qe_document \<Rightarrow> int \<Rightarrow> pystr list \<Rightarrow> int \<Rightarrow> nat \<Rightarrow> qe_chunk" where
  "make_chunk document chunk_size words start cid =
     (let stop = min (start + chunk_size) (int (length words));
          chunk_text = py_join (lit '' '') (py_slice words start stop)
      in \<lparr> chunk_id = doc_id document @ lit ''_chunk_'' @ str_nat cid,
           document_id = doc_id document,
           document_title = doc_title document,
           chunk_index = cid,
           chunk_content = chunk_text,
           chunk_word_count = length (py_split chunk_text),
           chunk_metadata = doc_metadata document,
           chunk_source = doc_source document \<rparr>)"

text \<open>
  The \<open>while start < len(words)\<close> loop. The loop may run forever, so the result is
  optional: \<open>None\<close> stands for a call that does not return.
\<close>

partial_function (option) chunk_loop ::
  "qe_document \<Rightarrow> int \<Rightarrow> int \<Rightarrow> pystr list \<Rightarrow> qe_chunk list \<Rightarrow> int \<Rightarrow> nat \<Rightarrow> qe_chunk list option"
where
  "chunk_loop document chunk_size overlap words chunks start cid =
     (if start < int (length words) then
        (if start + (chunk_size - overlap) \<ge> int (length words)
         then Some (chunks @ [make_chunk document chunk_size words start cid])
         else chunk_loop document chunk_size overlap words
                (chunks @ [make_chunk document chunk_size words start cid])
                (start + (chunk_size - overlap)) (cid + 1))
      else Some chunks)"

definition chunk_document :: "qe_document \<Rightarrow> int \<Rightarrow> int \<Rightarrow> qe_chunk list option" where
  "chunk_document document chunk_size overlap =
     chunk_loop document chunk_size overlap
       (py_split (full_text (doc_content document))) [] 0 0"

text \<open>
  \<open>_create_chunks\<close>: the biography first, then each article in order, every document
  with \<open>chunk_size = 500\<close> and \<open>overlap = 100\<close>.
\<close>

fun chunk_articles :: "qe_document list \<Rightarrow> qe_chunk list \<Rightarrow> qe_chunk list option" where
  "chunk_articles [] chunks = Some chunks"
| "chunk_articles (article # articles) chunks =
     (case chunk_document article 500 100 of
        None \<Rightarrow> None
      | Some article_chunks \<Rightarrow> chunk_articles articles (chunks @ article_chunks))"

definition create_chunks :: "qe_document \<Rightarrow> qe_document list \<Rightarrow> qe_chunk list option" where
  "create_chunks biography articles =
     (case chunk_document biography 500 100 of
        None \<Rightarrow> None
      | Some bio_chunks \<Rightarrow> chunk_articles articles bio_chunks)"


subsection \<open>Auxiliary notions for the proofs about the segmenter\<close>

text \<open>A word as \<open>split\<close> returns it: non-empty and free of whitespace.\<close>

definition valid_word :: "pystr \<Rightarrow> bool" where
  "valid_word w \<longleftrightarrow> w \<noteq> [] \<and> (\<forall>c\<in>set w. \<not> is_space c)"

text \<open>
  The number of passes through the loop body from \<open>start\<close> over \<open>n\<close> words with a
  positive stride \<open>s\<close>.
\<close>

definition iters :: "int \<Rightarrow> int \<Rightarrow> int \<Rightarrow> nat" where
  "iters n start s = (if start < n then nat ((n - start + s - 1) div s) else 0)"

text \<open>
  The words of a document, and the list of chunks the loop builds for window size 500
  and overlap 100, in closed form.
\<close>

abbreviation doc_words :: "qe_document \<Rightarrow> pystr list" where
  "doc_words d \<equiv> py_split (full_text (doc_content d))"

definition windows :: "qe_document \<Rightarrow> qe_chunk list" where
  "windows d = map (\<lambda>j. make_chunk d 500 (doc_words d) (int (j * 400)) j)
                 [0..<(length (doc_words d) + 399) div 400]"

text \<open>Example documents: a prose document with a given text, and a text of \<open>n\<close> words.\<close>

definition prose_document :: "pystr \<Rightarrow> pystr \<Rightarrow> qe_document" where
  "prose_document title text =
     \<lparr> doc_id = lit ''qe2_'' @ title,
       doc_type = lit ''biography'',
       doc_title = title,
       doc_source = \<lparr> url = [], wikipedia_page = title, collected = [], processed = [] \<rparr>,
       doc_content = \<lparr> full_text = text, summary = [],
                       word_count = length (py_split text), char_count = length text \<rparr>,
       doc_metadata = \<lparr> persona = lit ''Queen Elizabeth II'', time_period = lit ''1952-2022'',
                        content_category = lit ''general'', language = lit ''English'',
                        formality = lit ''Formal'' \<rparr> \<rparr>"

definition repeated_words :: "nat \<Rightarrow> pystr" where
  "repeated_words n = py_join (lit '' '') (replicate n (lit ''w''))"


subsection \<open>\<open>_structure_document\<close> and \<open>_generate_doc_id\<close>\<close>

text \<open>
  A cleaned document as \<open>_structure_document\<close> receives it: a dictionary in which each
  of the keys read may be missing.
\<close>

record raw_document =
  raw_title :: "pystr option"
  raw_url :: "pystr option"
  raw_content :: "pystr option"
  raw_summary :: "pystr option"
  raw_collection_timestamp :: "pystr option"

text \<open>\<open>document.get(key, default)\<close>.\<close>

definition get_or :: "pystr option \<Rightarrow> pystr \<Rightarrow> pystr" where
  "get_or field dflt = (case field of None \<Rightarrow> dflt | Some s \<Rightarrow> s)"

text \<open>\<open>needle in hay\<close> on strings.\<close>

fun contains :: "pystr \<Rightarrow> pystr \<Rightarrow> bool" where
  "contains [] needle = (needle = [])"
| "contains (c # cs) needle = (prefix needle (c # cs) \<or> contains cs needle)"

text \<open>
  \<open>re.sub(r'[\s_]+', '_', s)\<close>: every maximal run of whitespace and underscores becomes
  one underscore. The flag tells whether the previous code point belonged to such a run.
\<close>

fun collapse_runs :: "bool \<Rightarrow> pystr \<Rightarrow> pystr" where
  "collapse_runs in_run [] = []"
| "collapse_runs in_run (c # cs) =
     (if is_space c \<or> c = 95
      then (if in_run then collapse_runs True cs else 95 # collapse_runs True cs)
      else c # collapse_runs False cs)"

text \<open>
  \<open>_generate_doc_id\<close>. \<open>str.lower\<close> and the class \<open>\w\<close> of the regular expression
  follow the Unicode tables of the Python runtime; they are the parameters \<open>lower\<close> and
  \<open>word_char\<close>. \<open>re.sub(r'[^\w\s-]', '', s)\<close> keeps the word characters, the whitespace
  and the hyphen (code point 45).
\<close>

definition generate_doc_id ::
  "(pystr \<Rightarrow> pystr) \<Rightarrow> (nat \<Rightarrow> bool) \<Rightarrow> raw_document \<Rightarrow> pystr" where
  "generate_doc_id lower word_char document =
     (let title = get_or (raw_title document) (lit ''unknown'');
          kept = filter (\<lambda>c. word_char c \<or> is_space c \<or> c = 45) (lower title)
      in lit ''qe2_'' @ collapse_runs False kept)"

definition determine_time_period :: "(pystr \<Rightarrow> pystr) \<Rightarrow> raw_document \<Rightarrow> pystr" where
  "determine_time_period lower document =
     (let title = lower (get_or (raw_title document) [])
      in if contains title (lit ''silver jubilee'') \<or> contains title (lit ''1977'') then lit ''1970s''
         else if contains title (lit ''golden jubilee'') \<or> contains title (lit ''2002'') then lit ''2000s''
         else if contains title (lit ''diamond jubilee'') \<or> contains title (lit ''2012'') then lit ''2010s''
         else if contains title (lit ''platinum jubilee'') \<or> contains title (lit ''2022'') then lit ''2020s''
         else if contains title (lit ''coronation'') \<or> contains title (lit ''1952'')
                 \<or> contains title (lit ''1953'') then lit ''1950s''
         else if contains title (lit ''death'') \<or> contains title (lit ''funeral'') then lit ''2020s''
         else if contains title (lit ''george vi'') then lit ''1930s-1950s''
         else if contains title (lit ''churchill'') then lit ''1940s-1960s''
         else if contains title (lit ''annus horribilis'') \<or> contains title (lit ''1992'') then lit ''1990s''
         else lit ''1952-2022'')"

definition categorize_content :: "(pystr \<Rightarrow> pystr) \<Rightarrow> raw_document \<Rightarrow> pystr" where
  "categorize_content lower document =
     (let title = lower (get_or (raw_title document) [])
      in if contains title (lit ''elizabeth ii'') \<and> \<not> contains title (lit ''death'') then lit ''biography''
         else if contains title (lit ''jubilee'') then lit ''celebration''
         else if contains title (lit ''coronation'') then lit ''ceremony''
         else if contains title (lit ''death'') \<or> contains title (lit ''funeral'') then lit ''historical_event''
         else if contains title (lit ''family'') \<or> contains title (lit ''philip'')
                 \<or> contains title (lit ''george vi'') then lit ''family''
         else if contains title (lit ''christmas'') then lit ''tradition''
         else if contains title (lit ''commonwealth'') then lit ''political''
         else if contains title (lit ''jewels'') \<or> contains title (lit ''flag'')
                 \<or> contains title (lit ''residences'') then lit ''royal_symbols''
         else if contains title (lit ''churchill'') then lit ''political_figures''
         else lit ''general'')"

text \<open>
  \<open>_structure_document\<close>; \<open>now\<close> is the reading of the clock that goes into
  \<open>source.processed\<close>.
\<close>

definition structure_document ::
  "(pystr \<Rightarrow> pystr) \<Rightarrow> (nat \<Rightarrow> bool) \<Rightarrow> pystr \<Rightarrow> raw_document \<Rightarrow> pystr \<Rightarrow> qe_document" where
  "structure_document lower word_char now document dtype =
     \<lparr> doc_id = generate_doc_id lower word_char document,
       doc_type = dtype,
       doc_title = get_or (raw_title document) (lit ''Unknown''),
       doc_source = \<lparr> url = get_or (raw_url document) [],
                      wikipedia_page = get_or (raw_title document) [],
                      collected = get_or (raw_collection_timestamp document) [],
                      processed = now \<rparr>,
       doc_content = \<lparr> full_text = get_or (raw_content document) [],
                       summary = get_or (raw_summary document) [],
                       word_count = length (py_split (get_or (raw_content document) [])),
                       char_count = length (get_or (raw_content document) []) \<rparr>,
       doc_metadata = \<lparr> persona = lit ''Queen Elizabeth II'',
                        time_period = determine_time_period lower document,
                        content_category = categorize_content lower document,
                        language = lit ''English'',
                        formality = lit ''Formal'' \<rparr> \<rparr>"

text \<open>
  Steps 3 and 4 of \<open>process_all\<close>: the biography and the articles are structured, then
  chunked. Every call of \<open>_structure_document\<close> reads the clock; \<open>clock i\<close> is the
  reading at call number \<open>i\<close> of the run, so the biography gets \<open>clock 0\<close> and the
  article at position \<open>i\<close> gets \<open>clock (i + 1)\<close>.
\<close>

fun structure_articles ::
  "(pystr \<Rightarrow> pystr) \<Rightarrow> (nat \<Rightarrow> bool) \<Rightarrow> (nat \<Rightarrow> pystr) \<Rightarrow> nat \<Rightarrow> raw_document list \<Rightarrow>
   qe_document list" where
  "structure_articles lower word_char clock i [] = []"
| "structure_articles lower word_char clock i (article # articles) =
     structure_document lower word_char (clock i) article (lit ''related_article'')
       # structure_articles lower word_char clock (i + 1) articles"

definition structure_and_chunk ::
  "(pystr \<Rightarrow> pystr) \<Rightarrow> (nat \<Rightarrow> bool) \<Rightarrow> (nat \<Rightarrow> pystr) \<Rightarrow> raw_document \<Rightarrow> raw_document list \<Rightarrow>
   qe_document list \<times> qe_chunk list option" where
  "structure_and_chunk lower word_char clock biography articles =
     (let biography_structured =
            structure_document lower word_char (clock 0) biography (lit ''biography'');
          articles_structured = structure_articles lower word_char clock 1 articles
      in (biography_structured # articles_structured,
          create_chunks biography_structured articles_structured))"

text \<open>
  \<open>str.lower\<close> and \<open>\w\<close> on ASCII: the letters \<open>A\<close> to \<open>Z\<close> become \<open>a\<close> to \<open>z\<close>, and
  the word characters are the letters, the digits and the underscore. On strings of ASCII
  code points they are what Python computes.
\<close>

definition ascii_lower :: "pystr \<Rightarrow> pystr" where
  "ascii_lower s = map (\<lambda>c. if 65 \<le> c \<and> c \<le> 90 then c + 32 else c) s"

definition ascii_word_char :: "nat \<Rightarrow> bool" where
  "ascii_word_char c \<longleftrightarrow> (48 \<le> c \<and> c \<le> 57) \<or> (65 \<le> c \<and> c \<le> 90) \<or> (97 \<le> c \<and> c \<le> 122) \<or> c = 95"

text \<open>An example article as the collector stores it.\<close>

definition wikipedia_article :: "string \<Rightarrow> string \<Rightarrow> raw_document" where
  "wikipedia_article t text =
     \<lparr> raw_title = Some (lit t), raw_url = Some (lit ''https://en.wikipedia.org/wiki/'' @ lit t),
       raw_content = Some (lit text), raw_summary = Some [],
       raw_collection_timestamp = Some (lit ''2024-10-04T09:00:00'') \<rparr>"


section \<open>Record-to-document mapping and structure-aware segmentation (du\_fu/process\_for\_rag.py)\<close>

text \<open>
  The entries of \<open>dufu_poems_full.json\<close> as the extractor writes them, with the fields
  that \<open>process_for_rag.py\<close> reads. Every field is a string, or a list of strings or of
  entries; a string is false in a condition exactly when it is empty, and so is a list.
\<close>

record allusion =
  allusion_id :: pystr
  sentence_index :: pystr
  allusion_text :: pystr

record annotation =
  ann_index :: pystr
  ann_content :: pystr

record poem =
  poem_id :: pystr
  author_id :: pystr
  title :: pystr
  lines :: "pystr list"
  creation_date :: pystr
  place_code :: pystr
  poem_type :: pystr
  poem_type_detail :: pystr
  rhyme_category :: pystr
  allusions :: "allusion list"
  text_annotations :: "annotation list"

text \<open>The structured document of \<open>_create_structured_documents\<close>.\<close>

record df_source =
  src_database :: pystr
  src_author :: pystr
  src_author_id :: pystr
  src_poem_id :: pystr
  src_collected :: pystr
  src_processed :: pystr

record df_content =
  df_full_text :: pystr
  df_poem_lines :: "pystr list"
  df_line_count :: nat
  df_char_count :: nat

record df_metadata =
  md_persona :: pystr
  md_time_period :: pystr
  md_place :: pystr
  md_poem_type :: pystr
  md_poem_type_detail :: pystr
  md_rhyme_category :: pystr
  md_has_allusions :: bool
  md_allusion_count :: nat
  md_has_annotations :: bool
  md_annotation_count :: nat
  md_language :: pystr
  md_formality :: pystr
  md_content_category :: pystr

record df_document =
  df_id :: pystr
  df_type :: pystr
  df_title :: pystr
  df_source :: df_source
  df_content :: df_content
  df_metadata :: df_metadata

text \<open>
  The training chunk of \<open>_generate_training_chunks\<close>. The three kinds of chunk carry
  different metadata keys; a key that a chunk does not have is \<open>None\<close>.
\<close>

record df_chunk_metadata =
  cm_persona :: pystr
  cm_time_period :: pystr
  cm_poem_title :: pystr
  cm_poem_type :: pystr
  cm_language :: pystr
  cm_has_allusions :: "bool option"
  cm_has_annotations :: "bool option"
  cm_allusion_count :: "nat option"
  cm_annotation_count :: "nat option"

record df_chunk =
  tc_chunk_id :: pystr
  tc_source_document_id :: pystr
  tc_chunk_type :: pystr
  tc_content :: pystr
  tc_char_count :: nat
  tc_metadata :: df_chunk_metadata

text \<open>The line feed, and \<open>x or "default"\<close> on strings.\<close>

definition nl :: pystr where
  "nl = [10]"

definition or_else :: "pystr \<Rightarrow> pystr \<Rightarrow> pystr" where
  "or_else x dflt = (if x \<noteq> [] then x else dflt)"

text \<open>The name \<open>U+675C U+752B\<close> of the author, as the source writes it.\<close>

definition du_fu_name :: pystr where
  "du_fu_name = [26460, 29995]"

subsection \<open>\<open>_create_structured_documents\<close>\<close>

text \<open>
  The \<open>for\<close> loops that append one line per allusion or annotation with a non-empty
  text, as folds over the list being built.
\<close>

definition append_allusions :: "pystr \<Rightarrow> pystr list \<Rightarrow> allusion list \<Rightarrow> pystr list" where
  "append_allusions indent parts als =
     foldl (\<lambda>ps a. if allusion_text a \<noteq> [] then ps @ [indent @ allusion_text a] else ps) parts als"

definition append_annotations :: "pystr \<Rightarrow> pystr list \<Rightarrow> annotation list \<Rightarrow> pystr list" where
  "append_annotations indent parts anns =
     foldl (\<lambda>ps a. if ann_content a \<noteq> [] then ps @ [indent @ ann_content a] else ps) parts anns"

definition creation_info :: "poem \<Rightarrow> pystr list" where
  "creation_info p =
     (if creation_date p \<noteq> [] then [lit ''Date: '' @ creation_date p] else []) @
     (if place_code p \<noteq> [] then [lit ''Place: '' @ place_code p] else [])"

definition lit_info :: "poem \<Rightarrow> pystr list" where
  "lit_info p =
     (if poem_type p \<noteq> [] then [lit ''Type: '' @ poem_type p] else []) @
     (if rhyme_category p \<noteq> [] then [lit ''Rhyme: '' @ rhyme_category p] else [])"

definition full_text_parts :: "poem \<Rightarrow> pystr list" where
  "full_text_parts p =
     (let parts1 = (if title p \<noteq> [] then [lit ''Title: '' @ title p, []] else []);
          parts2 = (if lines p \<noteq> [] then parts1 @ [lit ''Poem:''] @ lines p @ [[]] else parts1);
          parts3 = (if creation_info p \<noteq> []
                    then parts2 @ [lit ''Creation Information:''] @ creation_info p @ [[]]
                    else parts2);
          parts4 = (if lit_info p \<noteq> []
                    then parts3 @ [lit ''Literary Characteristics:''] @ lit_info p @ [[]]
                    else parts3);
          parts5 = (if allusions p \<noteq> []
                    then append_allusions (lit ''  - '') (parts4 @ [lit ''Allusions:'']) (allusions p) @ [[]]
                    else parts4)
      in if text_annotations p \<noteq> []
         then append_annotations (lit ''  - '') (parts5 @ [lit ''Annotations:''])
                (take 5 (text_annotations p))
              @ (if length (text_annotations p) > 5
                 then [lit ''  ... and '' @ str_nat (length (text_annotations p) - 5) @ lit '' more'']
                 else [])
              @ [[]]
         else parts5)"

text \<open>
  The body of the loop for one poem. \<open>extraction_date\<close> is
  \<open>self.metadata['extraction_date']\<close> and \<open>now\<close> is what
  \<open>datetime.now().isoformat()\<close> returns when the poem is processed.
\<close>

definition create_document :: "pystr \<Rightarrow> pystr \<Rightarrow> poem \<Rightarrow> df_document" where
  "create_document extraction_date now p =
     \<lparr> df_id = lit ''dufu_'' @ poem_id p,
       df_type = lit ''poem'',
       df_title = or_else (title p) (lit ''Untitled''),
       df_source = \<lparr> src_database = lit ''CNKGraph.Writings.xml'',
                     src_author = du_fu_name,
                     src_author_id = author_id p,
                     src_poem_id = poem_id p,
                     src_collected = extraction_date,
                     src_processed = now \<rparr>,
       df_content = \<lparr> df_full_text = py_join nl (full_text_parts p),
                      df_poem_lines = lines p,
                      df_line_count = length (lines p),
                      df_char_count = sum_list (map length (lines p)) \<rparr>,
       df_metadata = \<lparr> md_persona = lit ''Du Fu ('' @ du_fu_name @ lit '')'',
                       md_time_period = or_else (creation_date p) (lit ''Unknown''),
                       md_place = or_else (place_code p) (lit ''Unknown''),
                       md_poem_type = or_else (poem_type p) (lit ''Unknown''),
                       md_poem_type_detail = or_else (poem_type_detail p) (lit ''Unknown''),
                       md_rhyme_category = or_else (rhyme_category p) (lit ''Unknown''),
                       md_has_allusions = (length (allusions p) > 0),
                       md_allusion_count = length (allusions p),
                       md_has_annotations = (length (text_annotations p) > 0),
                       md_annotation_count = length (text_annotations p),
                       md_language = lit ''Classical Chinese'',
                       md_formality = lit ''Formal'',
                       md_content_category = lit ''poetry'' \<rparr> \<rparr>"

text \<open>
  The loop over \<open>self.poems\<close>, appending to \<open>self.structured_documents\<close>. The clock is
  read once per poem: \<open>clock i\<close> is the reading while the poem at position \<open>i\<close> is
  processed.
\<close>

fun create_documents_from ::
  "pystr \<Rightarrow> (nat \<Rightarrow> pystr) \<Rightarrow> nat \<Rightarrow> poem list \<Rightarrow> df_document list \<Rightarrow> df_document list" where
  "create_documents_from extraction_date clock i [] docs = docs"
| "create_documents_from extraction_date clock i (p # ps) docs =
     create_documents_from extraction_date clock (Suc i) ps
       (docs @ [create_document extraction_date (clock i) p])"

definition create_structured_documents ::
  "pystr \<Rightarrow> (nat \<Rightarrow> pystr) \<Rightarrow> poem list \<Rightarrow> df_document list" where
  "create_structured_documents extraction_date clock poems =
     create_documents_from extraction_date clock 0 poems []"

subsection \<open>\<open>_generate_training_chunks\<close>\<close>

text \<open>The format \<open>{chunk_id:04d}\<close>: decimal digits, padded with zeros to four.\<close>

definition fmt_04d :: "nat \<Rightarrow> pystr" where
  "fmt_04d n = replicate (4 - length (str_nat n)) 48 @ str_nat n"

definition poem_content_parts :: "df_document \<Rightarrow> pystr list" where
  "poem_content_parts doc =
     (if df_title doc \<noteq> [] then [lit ''Poem Title: '' @ df_title doc] else []) @
     (if df_poem_lines (df_content doc) \<noteq> []
      then [nl @ lit ''Poem Text:''] @ df_poem_lines (df_content doc) else []) @
     (if md_time_period (df_metadata doc) \<noteq> lit ''Unknown''
      then [nl @ lit ''Creation Date: '' @ md_time_period (df_metadata doc)] else []) @
     (if md_place (df_metadata doc) \<noteq> lit ''Unknown''
      then [lit ''Location: '' @ md_place (df_metadata doc)] else []) @
     (if md_poem_type (df_metadata doc) \<noteq> lit ''Unknown''
      then [lit ''Poem Type: '' @ md_poem_type (df_metadata doc)] else [])"

definition chunk_metadata_base :: "df_document \<Rightarrow> df_chunk_metadata" where
  "chunk_metadata_base doc =
     \<lparr> cm_persona = md_persona (df_metadata doc),
       cm_time_period = md_time_period (df_metadata doc),
       cm_poem_title = df_title doc,
       cm_poem_type = md_poem_type (df_metadata doc),
       cm_language = md_language (df_metadata doc),
       cm_has_allusions = None, cm_has_annotations = None,
       cm_allusion_count = None, cm_annotation_count = None \<rparr>"

definition poem_content_chunk :: "df_document \<Rightarrow> nat \<Rightarrow> df_chunk" where
  "poem_content_chunk doc cid =
     (let chunk1_text = py_join nl (poem_content_parts doc)
      in \<lparr> tc_chunk_id = lit ''dufu_chunk_'' @ fmt_04d cid,
           tc_source_document_id = df_id doc,
           tc_chunk_type = lit ''poem_content'',
           tc_content = chunk1_text,
           tc_char_count = length chunk1_text,
           tc_metadata = (chunk_metadata_base doc)
             \<lparr> cm_has_allusions := Some (md_has_allusions (df_metadata doc)),
               cm_has_annotations := Some (md_has_annotations (df_metadata doc)) \<rparr> \<rparr>)"

definition allusion_parts :: "df_document \<Rightarrow> poem \<Rightarrow> pystr list" where
  "allusion_parts doc p =
     append_allusions (lit ''  '')
       ([lit ''Poem: '' @ df_title doc, []] @ [lit ''Literary Allusions and References:''])
       (allusions p)"

definition allusions_chunk :: "df_document \<Rightarrow> poem \<Rightarrow> nat \<Rightarrow> df_chunk" where
  "allusions_chunk doc p cid =
     (let chunk2_text = py_join nl (allusion_parts doc p)
      in \<lparr> tc_chunk_id = lit ''dufu_chunk_'' @ fmt_04d cid,
           tc_source_document_id = df_id doc,
           tc_chunk_type = lit ''allusions_context'',
           tc_content = chunk2_text,
           tc_char_count = length chunk2_text,
           tc_metadata = (chunk_metadata_base doc)
             \<lparr> cm_allusion_count := Some (length (allusions p)) \<rparr> \<rparr>)"

definition annotation_parts :: "df_document \<Rightarrow> poem \<Rightarrow> pystr list" where
  "annotation_parts doc p =
     (let ann_parts = append_annotations (lit ''  '')
            ([lit ''Poem: '' @ df_title doc, []] @ [lit ''Scholarly Annotations:''])
            (take 10 (text_annotations p))
      in if length (text_annotations p) > 10
         then ann_parts @ [nl @ lit ''... and '' @ str_nat (length (text_annotations p) - 10)
                              @ lit '' more annotations'']
         else ann_parts)"

definition annotations_chunk :: "df_document \<Rightarrow> poem \<Rightarrow> nat \<Rightarrow> df_chunk" where
  "annotations_chunk doc p cid =
     (let chunk3_text = py_join nl (annotation_parts doc p)
      in \<lparr> tc_chunk_id = lit ''dufu_chunk_'' @ fmt_04d cid,
           tc_source_document_id = df_id doc,
           tc_chunk_type = lit ''annotations_context'',
           tc_content = chunk3_text,
           tc_char_count = length chunk3_text,
           tc_metadata = (chunk_metadata_base doc)
             \<lparr> cm_annotation_count := Some (length (text_annotations p)) \<rparr> \<rparr>)"

text \<open>
  The body of the loop over \<open>self.structured_documents\<close>. The state is the counter
  \<open>chunk_id\<close> (here \<open>cid\<close>) and the list \<open>self.training_chunks\<close>. The poem of a
  document is looked up in \<open>self.poems\<close> by \<open>poem_id\<close>: \<open>next(...)\<close> takes the first
  poem with that id. A poem is a dictionary with keys, hence true in a condition.
\<close>

fun chunk_step :: "poem list \<Rightarrow> df_document \<Rightarrow> nat \<times> df_chunk list \<Rightarrow> nat \<times> df_chunk list" where
  "chunk_step poems doc (cid, training_chunks) =
     (let st1 = (cid + 1, training_chunks @ [poem_content_chunk doc cid]);
          found = find (\<lambda>p. poem_id p = src_poem_id (df_source doc)) poems;
          st2 = (case found of
                   Some p \<Rightarrow>
                     if allusions p \<noteq> [] \<and> length (allusions p) > 0
                     then (fst st1 + 1, snd st1 @ [allusions_chunk doc p (fst st1)])
                     else st1
                 | None \<Rightarrow> st1)
      in case found of
           Some p \<Rightarrow>
             if text_annotations p \<noteq> [] \<and> length (text_annotations p) > 0
             then (fst st2 + 1, snd st2 @ [annotations_chunk doc p (fst st2)])
             else st2
         | None \<Rightarrow> st2)"

definition generate_training_chunks :: "poem list \<Rightarrow> df_document list \<Rightarrow> df_chunk list" where
  "generate_training_chunks poems docs = snd (foldl (\<lambda>st doc. chunk_step poems doc st) (1, []) docs)"

text \<open>\<open>process_all\<close>, steps 1 and 2: the documents of the poems, then their chunks.\<close>

definition process_all :: "pystr \<Rightarrow> (nat \<Rightarrow> pystr) \<Rightarrow> poem list \<Rightarrow> df_document list \<times> df_chunk list" where
  "process_all extraction_date clock poems =
     (let docs = create_structured_documents extraction_date clock poems
      in (docs, generate_training_chunks poems docs))"


subsection \<open>Auxiliary notions for the proofs about the poem pipeline\<close>

text \<open>
  The chunks that one pass of the loop body appends for a document when the counter is
  \<open>cid\<close>, and the chunks appended for a list of documents.
\<close>

definition step_chunks :: "poem list \<Rightarrow> df_document \<Rightarrow> nat \<Rightarrow> df_chunk list" where
  "step_chunks poems doc cid = snd (chunk_step poems doc (cid, []))"

fun all_chunks :: "poem list \<Rightarrow> df_document list \<Rightarrow> nat \<Rightarrow> df_chunk list" where
  "all_chunks poems [] cid = []"
| "all_chunks poems (d # ds) cid =
     step_chunks poems d cid @ all_chunks poems ds (cid + length (step_chunks poems d cid))"

text \<open>A document with the reading of the clock blanked.\<close>

definition unstamp :: "df_document \<Rightarrow> df_document" where
  "unstamp d = d\<lparr> df_source := (df_source d)\<lparr> src_processed := [] \<rparr> \<rparr>"

text \<open>
  Example poems: one with a title, two lines, two allusions and six annotations; one with
  a single line and nothing else; one with eleven annotations. The date of the extraction
  and the clock of an example run.
\<close>

definition chun_wang :: poem where
  "chun_wang =
     \<lparr> poem_id = lit ''10001'', author_id = lit ''474'', title = [26149, 26395],
       lines = [[22283, 30772, 23665, 27827, 22312], [22478, 26149, 33609, 26408, 28145]],
       creation_date = lit ''757'', place_code = lit ''CA'',
       poem_type = lit ''WL'', poem_type_detail = [], rhyme_category = lit ''QIN'',
       allusions = [\<lparr> allusion_id = lit ''a1'', sentence_index = lit ''0'', allusion_text = lit ''guo po'' \<rparr>,
                    \<lparr> allusion_id = lit ''a2'', sentence_index = lit ''1'', allusion_text = lit ''cheng chun'' \<rparr>],
       text_annotations = map (\<lambda>s. \<lparr> ann_index = lit ''0'', ann_content = lit s \<rparr>)
                            [''n1'', ''n2'', ''n3'', ''n4'', ''n5'', ''n6''] \<rparr>"

definition jue_ju :: poem where
  "jue_ju =
     \<lparr> poem_id = lit ''10002'', author_id = lit ''474'', title = [],
       lines = [[20841, 20491, 40644, 40519]],
       creation_date = [], place_code = [],
       poem_type = [], poem_type_detail = [], rhyme_category = [],
       allusions = [], text_annotations = [] \<rparr>"

definition run_date :: pystr where
  "run_date = lit ''2025-10-04T09:00:00''"

definition run_clock :: "nat \<Rightarrow> pystr" where
  "run_clock i = lit ''2025-10-04T10:00:00''"

definition long_poem :: poem where
  "long_poem = chun_wang \<lparr> poem_id := lit ''10003'',
     text_annotations := map (\<lambda>s. \<lparr> ann_index = lit ''0'', ann_content = lit s \<rparr>)
        [''n1'', ''n2'', ''n3'', ''n4'', ''n5'', ''n6'', ''n7'', ''n8'', ''n9'', ''n10'', ''n11''] \<rparr>"

text \<open>A poem whose element had no \<open>Id\<close> attribute, with given allusions.\<close>

definition unnumbered_poem :: "allusion list \<Rightarrow> poem" where
  "unnumbered_poem als =
     \<lparr> poem_id = [], author_id = lit ''474'', title = [],
       lines = [[20841, 20491, 40644, 40519]],
       creation_date = [], place_code = [],
       poem_type = [], poem_type_detail = [], rhyme_category = [],
       allusions = als, text_annotations = [] \<rparr>"


subsection \<open>Auxiliary notions for the proofs about identifiers\<close>

text \<open>
  Three collected articles, two of them with the same title, as the file of related
  articles holds them after the additional articles have been collected twice; and the
  number that a string of decimal digits denotes.
\<close>

definition royal_biography :: raw_document where
  "royal_biography = wikipedia_article ''Elizabeth II'' ''Elizabeth II was Queen of the United Kingdom''"

definition churchill_article :: raw_document where
  "churchill_article = wikipedia_article ''Winston Churchill'' ''Sir Winston Churchill was a British statesman''"

definition churchill_again :: raw_document where
  "churchill_again = wikipedia_article ''Winston Churchill'' ''Churchill was Prime Minister twice''"

definition digits_value :: "pystr \<Rightarrow> nat" where
  "digits_value s = foldl (\<lambda>acc c. 10 * acc + (c - 48)) 0 s"


section \<open>The dataset validator (validation/validate\_dataset.py)\<close>

subsection \<open>JSON values as Python objects\<close>

text \<open>
  What \<open>json.load\<close> returns: \<open>None\<close>, a \<open>bool\<close>, an \<open>int\<close>, a \<open>str\<close>, a \<open>list\<close> or a
  \<open>dict\<close> with string keys, kept as the list of its items. Numbers with a fraction are
  not part of the model.
\<close>

datatype json =
    JNull
  | JBool bool
  | JInt int
  | JStr pystr
  | JList "json list"
  | JObj "(pystr \<times> json) list"

text \<open>The truth value of an object in a condition.\<close>

fun truthy :: "json \<Rightarrow> bool" where
  "truthy JNull = False"
| "truthy (JBool b) = b"
| "truthy (JInt i) = (i \<noteq> 0)"
| "truthy (JStr s) = (s \<noteq> [])"
| "truthy (JList xs) = (xs \<noteq> [])"
| "truthy (JObj kvs) = (kvs \<noteq> [])"

text \<open>\<open>d.get(k)\<close> on a dictionary, and \<open>x or y\<close>.\<close>

definition dict_get :: "(pystr \<times> json) list \<Rightarrow> pystr \<Rightarrow> json" where
  "dict_get kvs k = (case map_of kvs k of None \<Rightarrow> JNull | Some v \<Rightarrow> v)"

definition py_or :: "json \<Rightarrow> json \<Rightarrow> json" where
  "py_or x y = (if truthy x then x else y)"

text \<open>
  Membership in a \<open>set\<close>: a list or a dictionary cannot be hashed, and \<open>True\<close> and
  \<open>False\<close> are equal to \<open>1\<close> and \<open>0\<close>. A set of objects is kept as the list of the keys
  of its members.
\<close>

fun hashable :: "json \<Rightarrow> bool" where
  "hashable (JList xs) = False"
| "hashable (JObj kvs) = False"
| "hashable j = True"

fun hash_key :: "json \<Rightarrow> json" where
  "hash_key (JBool b) = JInt (if b then 1 else 0)"
| "hash_key j = j"

definition set_mem :: "json \<Rightarrow> json list \<Rightarrow> bool" where
  "set_mem x s \<longleftrightarrow> hash_key x \<in> set s"

definition set_add :: "json \<Rightarrow> json list \<Rightarrow> json list" where
  "set_add x s = List.insert (hash_key x) s"

datatype py_exception = TypeError | AttributeError | KeyError | OSError

subsection \<open>The validator object and the files of the directory\<close>

text \<open>
  The entries of \<open>self.issues\<close> and \<open>self.warnings\<close>. The source appends formatted
  messages; an entry here is the kind of message with the values it interpolates.
\<close>

datatype issue =
    RequiredFileMissing pystr
  | FailedToLoad pystr
  | MustContainList pystr
  | IsEmpty pystr
  | DocumentMissingField nat pystr
  | DuplicateDocumentId json
  | ChunkMissingId nat
  | DuplicateChunkId json
  | ChunkMissingSource nat

datatype warning =
    DocumentEmptyContent json
  | ChunkEmptyContent json
  | OrphanChunks nat

record validator =
  issues :: "issue list"
  warnings :: "warning list"
  self_documents :: "json option"
  self_chunks :: "json option"

text \<open>
  The report that \<open>_save_report\<close> writes (without its date and statistics), and a file
  of the processed directory: one that \<open>json.load\<close> reads, one that cannot be opened or
  parsed, or a report written by the validator.
\<close>

record report =
  rep_dataset_name :: pystr
  rep_passed :: bool
  rep_issues :: "issue list"
  rep_warnings :: "warning list"

datatype stored_file = Parsed json | Unreadable | Report report

text \<open>The files by directory and name; \<open>None\<close> where \<open>os.path.exists\<close> is false.\<close>

type_synonym filesystem = "pystr \<Rightarrow> pystr \<Rightarrow> stored_file option"

definition add_issue :: "issue \<Rightarrow> validator \<Rightarrow> validator" where
  "add_issue i v = v\<lparr> issues := issues v @ [i] \<rparr>"

definition add_warning :: "warning \<Rightarrow> validator \<Rightarrow> validator" where
  "add_warning w v = v\<lparr> warnings := warnings v @ [w] \<rparr>"

text \<open>\<open>__init__\<close>.\<close>

definition new_validator :: validator where
  "new_validator = \<lparr> issues = [], warnings = [], self_documents = None, self_chunks = None \<rparr>"

subsection \<open>\<open>_check_required_files\<close>\<close>

definition required_files :: "pystr list" where
  "required_files = [lit ''structured_documents.json'', lit ''training_chunks.json'',
                     lit ''dataset_metadata.json'']"

fun check_files_loop ::
  "(pystr \<Rightarrow> stored_file option) \<Rightarrow> pystr list \<Rightarrow> bool \<times> validator \<Rightarrow> bool \<times> validator" where
  "check_files_loop dir [] (all_exist, v) = (all_exist, v)"
| "check_files_loop dir (filename # rest) (all_exist, v) =
     (if dir filename \<noteq> None then check_files_loop dir rest (all_exist, v)
      else check_files_loop dir rest (False, add_issue (RequiredFileMissing filename) v))"

definition check_required_files :: "(pystr \<Rightarrow> stored_file option) \<Rightarrow> validator \<Rightarrow> bool \<times> validator" where
  "check_required_files dir v = check_files_loop dir required_files (True, v)"

subsection \<open>\<open>_validate_documents\<close>\<close>

definition required_fields :: "pystr list" where
  "required_fields = [lit ''id'', lit ''title'', lit ''type'', lit ''content'']"

text \<open>
  The body of the loop over the documents, for the document at position \<open>i\<close>; the state
  is the set \<open>doc_ids\<close> and the validator. A document that is not a dictionary has no
  method \<open>get\<close>, and \<open>field not in doc\<close> fails on an object that is not a container.
\<close>

definition check_document ::
  "nat \<Rightarrow> json \<Rightarrow> json list \<times> validator \<Rightarrow> py_exception + json list \<times> validator" where
  "check_document i doc st =
     (case doc of
        JObj kvs \<Rightarrow>
          (let doc_ids = fst st;
               v1 = foldl (\<lambda>v field. if map_of kvs field = None
                                       then add_issue (DocumentMissingField i field) v else v)
                      (snd st) required_fields;
               doc_id = dict_get kvs (lit ''id'')
           in if truthy doc_id \<and> \<not> hashable doc_id then Inl TypeError
              else
                (let st2 = (if truthy doc_id
                            then (set_add doc_id doc_ids,
                                  if set_mem doc_id doc_ids
                                  then add_issue (DuplicateDocumentId doc_id) v1 else v1)
                            else (doc_ids, v1))
                 in Inr (fst st2,
                         if \<not> truthy (dict_get kvs (lit ''content''))
                         then add_warning (DocumentEmptyContent doc_id) (snd st2)
                         else snd st2)))
      | JStr s \<Rightarrow> Inl AttributeError
      | JList xs \<Rightarrow> Inl AttributeError
      | _ \<Rightarrow> Inl TypeError)"

fun documents_loop ::
  "nat \<Rightarrow> json list \<Rightarrow> json list \<times> validator \<Rightarrow> py_exception + json list \<times> validator" where
  "documents_loop i [] st = Inr st"
| "documents_loop i (doc # rest) st =
     (case check_document i doc st of
        Inl e \<Rightarrow> Inl e
      | Inr st' \<Rightarrow> documents_loop (Suc i) rest st')"

definition validate_documents ::
  "(pystr \<Rightarrow> stored_file option) \<Rightarrow> validator \<Rightarrow> py_exception + bool \<times> validator" where
  "validate_documents dir v =
     (let name = lit ''structured_documents.json''
      in case dir name of
           None \<Rightarrow> Inr (False, add_issue (FailedToLoad name) v)
         | Some Unreadable \<Rightarrow> Inr (False, add_issue (FailedToLoad name) v)
         | Some (Report r) \<Rightarrow>
             Inr (False, add_issue (MustContainList name) v)
         | Some (Parsed j) \<Rightarrow>
             (let v1 = v\<lparr> self_documents := Some j \<rparr>
              in case j of
                   JList ds \<Rightarrow>
                     if ds = [] then Inr (False, add_issue (IsEmpty name) v1)
                     else (case documents_loop 0 ds ([], v1) of
                             Inl e \<Rightarrow> Inl e
                           | Inr st \<Rightarrow> Inr (issues (snd st) = [], snd st))
                 | _ \<Rightarrow> Inr (False, add_issue (MustContainList name) v1)))"

subsection \<open>\<open>_validate_chunks\<close>\<close>

definition check_chunk ::
  "nat \<Rightarrow> json \<Rightarrow> json list \<times> validator \<Rightarrow> py_exception + json list \<times> validator" where
  "check_chunk i chunk st =
     (case chunk of
        JObj kvs \<Rightarrow>
          (let chunk_ids = fst st;
               cid = py_or (dict_get kvs (lit ''id'')) (dict_get kvs (lit ''chunk_id''))
           in if truthy cid \<and> \<not> hashable cid then Inl TypeError
              else
                (let st1 = (if \<not> truthy cid
                            then (chunk_ids, add_issue (ChunkMissingId i) (snd st))
                            else (set_add cid chunk_ids,
                                  if set_mem cid chunk_ids
                                  then add_issue (DuplicateChunkId cid) (snd st) else snd st));
                     source_id = py_or (dict_get kvs (lit ''source_document_id''))
                                       (dict_get kvs (lit ''document_id''));
                     v2 = (if \<not> truthy source_id
                           then add_issue (ChunkMissingSource i) (snd st1) else snd st1)
                 in Inr (fst st1,
                         if \<not> truthy (dict_get kvs (lit ''content''))
                         then add_warning (ChunkEmptyContent cid) v2
                         else v2)))
      | _ \<Rightarrow> Inl AttributeError)"

fun chunks_loop ::
  "nat \<Rightarrow> json list \<Rightarrow> json list \<times> validator \<Rightarrow> py_exception + json list \<times> validator" where
  "chunks_loop i [] st = Inr st"
| "chunks_loop i (chunk # rest) st =
     (case check_chunk i chunk st of
        Inl e \<Rightarrow> Inl e
      | Inr st' \<Rightarrow> chunks_loop (Suc i) rest st')"

definition validate_chunks ::
  "(pystr \<Rightarrow> stored_file option) \<Rightarrow> validator \<Rightarrow> py_exception + bool \<times> validator" where
  "validate_chunks dir v =
     (let name = lit ''training_chunks.json''
      in case dir name of
           None \<Rightarrow> Inr (False, add_issue (FailedToLoad name) v)
         | Some Unreadable \<Rightarrow> Inr (False, add_issue (FailedToLoad name) v)
         | Some (Report r) \<Rightarrow>
             Inr (False, add_issue (MustContainList name) v)
         | Some (Parsed j) \<Rightarrow>
             (let v1 = v\<lparr> self_chunks := Some j \<rparr>
              in case j of
                   JList cs \<Rightarrow>
                     if cs = [] then Inr (False, add_issue (IsEmpty name) v1)
                     else (case chunks_loop 0 cs ([], v1) of
                             Inl e \<Rightarrow> Inl e
                           | Inr st \<Rightarrow> Inr (issues (snd st) = [], snd st))
                 | _ \<Rightarrow> Inr (False, add_issue (MustContainList name) v1)))"

subsection \<open>\<open>_cross_validate\<close>\<close>

text \<open>The set comprehension \<open>{doc['id'] for doc in self.documents}\<close>.\<close>

fun collect_doc_ids :: "json list \<Rightarrow> json list \<Rightarrow> py_exception + json list" where
  "collect_doc_ids [] doc_ids = Inr doc_ids"
| "collect_doc_ids (doc # rest) doc_ids =
     (case doc of
        JObj kvs \<Rightarrow>
          (case map_of kvs (lit ''id'') of
             None \<Rightarrow> Inl KeyError
           | Some d \<Rightarrow> if hashable d then collect_doc_ids rest (set_add d doc_ids)
                       else Inl TypeError)
      | _ \<Rightarrow> Inl TypeError)"

text \<open>The loop that collects the ids of the chunks whose document is not in the set.\<close>

fun orphans_loop :: "json list \<Rightarrow> json list \<Rightarrow> json list \<Rightarrow> py_exception + json list" where
  "orphans_loop doc_ids [] orphan_chunks = Inr orphan_chunks"
| "orphans_loop doc_ids (chunk # rest) orphan_chunks =
     (case chunk of
        JObj kvs \<Rightarrow>
          (let source_id = py_or (dict_get kvs (lit ''source_document_id''))
                                 (dict_get kvs (lit ''document_id''))
           in if \<not> truthy source_id then orphans_loop doc_ids rest orphan_chunks
              else if \<not> hashable source_id then Inl TypeError
              else if \<not> set_mem source_id doc_ids
              then orphans_loop doc_ids rest
                     (orphan_chunks @ [py_or (dict_get kvs (lit ''id'')) (dict_get kvs (lit ''chunk_id''))])
              else orphans_loop doc_ids rest orphan_chunks)
      | _ \<Rightarrow> Inl AttributeError)"

text \<open>
  Iterating over \<open>self.documents\<close> or \<open>self.chunks\<close>: the elements of a list. The method
  runs only after both have been loaded and found to be lists.
\<close>

fun elements :: "json option \<Rightarrow> py_exception + json list" where
  "elements (Some (JList xs)) = Inr xs"
| "elements other = Inl AttributeError"

definition cross_validate :: "validator \<Rightarrow> py_exception + validator" where
  "cross_validate v =
     (case elements (self_documents v) of
        Inl e \<Rightarrow> Inl e
      | Inr ds \<Rightarrow>
         (case collect_doc_ids ds [] of
            Inl e \<Rightarrow> Inl e
          | Inr doc_ids \<Rightarrow>
             (case elements (self_chunks v) of
                Inl e \<Rightarrow> Inl e
              | Inr cs \<Rightarrow>
                 (case orphans_loop doc_ids cs [] of
                    Inl e \<Rightarrow> Inl e
                  | Inr orphan_chunks \<Rightarrow>
                      Inr (if orphan_chunks \<noteq> []
                           then add_warning (OrphanChunks (length orphan_chunks)) v
                           else v)))))"

subsection \<open>\<open>_save_report\<close>, \<open>validate\<close> and \<open>main\<close>\<close>

definition report_name :: pystr where
  "report_name = lit ''validation_report.json''"

text \<open>
  \<open>_save_report\<close> opens \<open>validation_report.json\<close> in the processed directory for writing
  and dumps the report; \<open>writable\<close> tells whether the file can be opened.
\<close>

definition save_report ::
  "bool \<Rightarrow> pystr \<Rightarrow> pystr \<Rightarrow> filesystem \<Rightarrow> validator \<Rightarrow> py_exception + filesystem" where
  "save_report writable dataset_name processed_dir fs v =
     (if writable
      then Inr (fs (processed_dir := (fs processed_dir)
                  (report_name \<mapsto> Report \<lparr> rep_dataset_name = dataset_name,
                                             rep_passed = (length (issues v) = 0),
                                             rep_issues = issues v,
                                             rep_warnings = warnings v \<rparr>)))
      else Inl OSError)"

text \<open>
  \<open>validate\<close>. Step 5, \<open>_generate_statistics\<close>, reads the documents and chunks and
  assigns only \<open>self.stats\<close>; its token estimates are products with floating-point
  constants. It enters the model by its outcome alone: \<open>statistics\<close> maps the documents and
  chunks to the exception the step raises, if any. \<open>_print_summary\<close> only prints.
\<close>

definition validate ::
  "(json list \<Rightarrow> json list \<Rightarrow> py_exception option) \<Rightarrow> bool \<Rightarrow> pystr \<Rightarrow> pystr \<Rightarrow>
   filesystem \<Rightarrow> validator \<Rightarrow> py_exception + bool \<times> validator \<times> filesystem" where
  "validate statistics writable dataset_name processed_dir fs v =
     (let r1 = check_required_files (fs processed_dir) v
      in if \<not> fst r1 then Inr (False, snd r1, fs)
         else
           (case validate_documents (fs processed_dir) (snd r1) of
              Inl e \<Rightarrow> Inl e
            | Inr r2 \<Rightarrow>
               if \<not> fst r2 then Inr (False, snd r2, fs)
               else
                 (case validate_chunks (fs processed_dir) (snd r2) of
                    Inl e \<Rightarrow> Inl e
                  | Inr r3 \<Rightarrow>
                     if \<not> fst r3 then Inr (False, snd r3, fs)
                     else
                       (case cross_validate (snd r3) of
                          Inl e \<Rightarrow> Inl e
                        | Inr v4 \<Rightarrow>
                           (case elements (self_documents v4) of
                              Inl e \<Rightarrow> Inl e
                            | Inr ds \<Rightarrow>
                               (case elements (self_chunks v4) of
                                  Inl e \<Rightarrow> Inl e
                                | Inr cs \<Rightarrow>
                                   (case statistics ds cs of
                                      Some e \<Rightarrow> Inl e
                                    | None \<Rightarrow>
                                       (case save_report writable dataset_name processed_dir fs v4 of
                                          Inl e \<Rightarrow> Inl e
                                        | Inr fs' \<Rightarrow>
                                            Inr (length (issues v4) = 0, v4, fs')))))))))"

text \<open>
  \<open>main\<close>: the exit code of the process and the files it leaves. With fewer than two
  arguments after the script name it prints the usage and exits with 1; an exception that
  nothing catches ends the process with exit code 1 as well.
\<close>

definition main ::
  "(json list \<Rightarrow> json list \<Rightarrow> py_exception option) \<Rightarrow> bool \<Rightarrow> pystr list \<Rightarrow> filesystem \<Rightarrow>
   nat \<times> filesystem" where
  "main statistics writable argv fs =
     (if length argv < 3 then (1, fs)
      else
        (case validate statistics writable (argv ! 1) (argv ! 2) fs new_validator of
           Inl e \<Rightarrow> (1, fs)
         | Inr (success, v, fs') \<Rightarrow> (if success then 0 else 1, fs')))"


subsection \<open>Auxiliary notions for the proofs about the validator\<close>

text \<open>
  Two validator objects that differ at most in their warnings; the verdict and the issues
  of a run; and the relations between the results of two loops or two stages whose
  validators differ at most in their warnings.
\<close>

definition same_but_warnings :: "validator \<Rightarrow> validator \<Rightarrow> bool" where
  "same_but_warnings v v' \<longleftrightarrow>
     issues v = issues v' \<and> self_documents v = self_documents v' \<and> self_chunks v = self_chunks v'"

definition verdict_of :: "py_exception + bool \<times> validator \<times> filesystem \<Rightarrow> py_exception + bool \<times> issue list" where
  "verdict_of r = map_sum id (\<lambda>(ok, v, fs). (ok, issues v)) r"

abbreviation loop_rel :: "py_exception + json list \<times> validator \<Rightarrow> py_exception + json list \<times> validator \<Rightarrow> bool" where
  "loop_rel \<equiv> rel_sum (=) (rel_prod (=) same_but_warnings)"

abbreviation stage_rel :: "py_exception + bool \<times> validator \<Rightarrow> py_exception + bool \<times> validator \<Rightarrow> bool" where
  "stage_rel \<equiv> rel_sum (=) (rel_prod (=) same_but_warnings)"

text \<open>
  \<open>j.get(k)\<close> on an object that may be a dictionary, and the warnings that the loops
  over the documents and over the chunks append: one for every element whose content is
  missing or false, in order.
\<close>

definition obj_get :: "json \<Rightarrow> pystr \<Rightarrow> json" where
  "obj_get j k = (case j of JObj kvs \<Rightarrow> dict_get kvs k | _ \<Rightarrow> JNull)"

definition doc_warnings :: "json list \<Rightarrow> warning list" where
  "doc_warnings ds =
     map (\<lambda>d. DocumentEmptyContent (obj_get d (lit ''id'')))
       (filter (\<lambda>d. \<not> truthy (obj_get d (lit ''content''))) ds)"

definition chunk_warnings :: "json list \<Rightarrow> warning list" where
  "chunk_warnings cs =
     map (\<lambda>c. ChunkEmptyContent (py_or (obj_get c (lit ''id'')) (obj_get c (lit ''chunk_id''))))
       (filter (\<lambda>c. \<not> truthy (obj_get c (lit ''content''))) cs)"

text \<open>
  The verdict, issues and warnings of a run, and example data: a document, a chunk, a
  processed directory with the three required files, a statistics step that raises
  nothing, and a command line.
\<close>

definition outcome_of ::
  "py_exception + bool \<times> validator \<times> filesystem \<Rightarrow> py_exception + bool \<times> issue list \<times> warning list" where
  "outcome_of r = map_sum id (\<lambda>(ok, v, fs). (ok, issues v, warnings v)) r"

definition example_document :: "string \<Rightarrow> string \<Rightarrow> json" where
  "example_document ident text =
     JObj [(lit ''id'', JStr (lit ident)), (lit ''title'', JStr (lit ''Spring View'')),
           (lit ''type'', JStr (lit ''poem'')), (lit ''content'', JStr (lit text))]"

definition example_chunk :: "string \<Rightarrow> string \<Rightarrow> string \<Rightarrow> json" where
  "example_chunk ident source text =
     JObj [(lit ''chunk_id'', JStr (lit ident)), (lit ''source_document_id'', JStr (lit source)),
           (lit ''content'', JStr (lit text))]"

definition dataset_dir :: pystr where
  "dataset_dir = lit ''processed_data''"

definition dataset_fs :: "json list \<Rightarrow> json list \<Rightarrow> filesystem" where
  "dataset_fs ds cs =
     (\<lambda>d. if d = dataset_dir
          then [lit ''structured_documents.json'' \<mapsto> Parsed (JList ds),
                lit ''training_chunks.json'' \<mapsto> Parsed (JList cs),
                lit ''dataset_metadata.json'' \<mapsto> Parsed (JObj [])]
          else Map.empty)"

definition no_statistics_error :: "json list \<Rightarrow> json list \<Rightarrow> py_exception option" where
  "no_statistics_error ds cs = None"

definition validator_argv :: "pystr list" where
  "validator_argv = [lit ''validate_dataset.py'', lit ''Du Fu'', dataset_dir]"


section \<open>The streaming extractor (du\_fu/extract\_from\_xml.py)\<close>

text \<open>
  An element of the XML document: its tag, its attributes, its text and its children
  (the object \<open>xml.etree.ElementTree.Element\<close>). The tail of an element, the text
  between its end tag and the next tag, is left out: no function of the extractor reads
  it. The document is taken to be well-formed; on a document that is not, the parser
  raises \<open>ParseError\<close> at a point of the scan that depends on how it reads the file.
\<close>

datatype xml =
  Element (xml_tag: pystr) (xml_attrib: "(pystr \<times> pystr) list") (xml_text: "pystr option")
          (xml_children: "xml list")

text \<open>\<open>elem.get(key, default)\<close>, \<open>elem.find(tag)\<close>, \<open>elem.findall(tag)\<close> and \<open>elem.text or ''\<close>.\<close>

definition attr_get :: "xml \<Rightarrow> pystr \<Rightarrow> pystr \<Rightarrow> pystr" where
  "attr_get e k dflt = (case map_of (xml_attrib e) k of None \<Rightarrow> dflt | Some v \<Rightarrow> v)"

definition find_child :: "xml \<Rightarrow> pystr \<Rightarrow> xml option" where
  "find_child e t = find (\<lambda>c. xml_tag c = t) (xml_children e)"

definition findall :: "xml \<Rightarrow> pystr \<Rightarrow> xml list" where
  "findall e t = filter (\<lambda>c. xml_tag c = t) (xml_children e)"

definition text_or_empty :: "xml \<Rightarrow> pystr" where
  "text_or_empty e = (case xml_text e of None \<Rightarrow> [] | Some s \<Rightarrow> s)"

text \<open>The element and all elements below it, in document order; \<open>elem.iter(tag)\<close>.\<close>

fun subtree :: "xml \<Rightarrow> xml list" where
  "subtree (Element t a x cs) = Element t a x cs # concat (map subtree cs)"

definition iter_tag :: "xml \<Rightarrow> pystr \<Rightarrow> xml list" where
  "iter_tag e t = filter (\<lambda>c. xml_tag c = t) (subtree e)"

text \<open>
  \<open>elem.clear()\<close>: the element keeps its tag and loses its attributes, its text and its
  children.
\<close>

definition clear_element :: "xml \<Rightarrow> xml" where
  "clear_element e = Element (xml_tag e) [] None []"

subsection \<open>\<open>_extract_poem_data\<close>\<close>

text \<open>
  An entry of the lists that \<open>_extract_annotations\<close> returns, and the dictionary that
  \<open>_extract_poem_data\<close> returns: the fields of a \<open>poem\<close> that \<open>process_for_rag.py\<close> reads,
  followed by the other keys.
\<close>

record ns_annotation =
  ns_type :: pystr
  ns_index :: pystr
  ns_content :: pystr

record poem_data = poem +
  pd_author :: pystr
  pd_dynasty :: pystr
  pd_group_number :: pystr
  pd_rhyme_number :: pystr
  pd_final_rhyme :: pystr
  pd_has_title :: bool
  pd_title_annotations :: "ns_annotation list"
  pd_line_tones :: "pystr list"
  pd_line_rhymes :: "pystr list"
  pd_line_annotations :: "ns_annotation list list"
  pd_source_books :: "pystr list"
  pd_word_dict_annotations :: "annotation list"
  pd_char_dict_annotations :: "annotation list"
  pd_allusion_key_annotations :: "annotation list"
  pd_image_annotations :: "annotation list"
  pd_sentence_indices :: "int list list"

text \<open>\<open>_extract_annotations\<close>; the argument is the result of \<open>find('Ns')\<close>.\<close>

definition extract_annotations :: "xml option \<Rightarrow> ns_annotation list" where
  "extract_annotations ns_elem =
     (case ns_elem of
        None \<Rightarrow> []
      | Some ns \<Rightarrow>
          map (\<lambda>n. \<lparr> ns_type = attr_get n (lit ''T'') [], ns_index = attr_get n (lit ''I'') [],
                     ns_content = text_or_empty n \<rparr>)
            (findall ns (lit ''N'')))"

text \<open>
  \<open>_extract_annotations_by_type\<close> fills five lists in one pass over \<open>poem_elem.iter('N')\<close>;
  the list of one type holds the entries of the notes of that type, in document order.
\<close>

definition annotations_of_type :: "xml \<Rightarrow> pystr \<Rightarrow> annotation list" where
  "annotations_of_type poem_elem n_type =
     map (\<lambda>n. \<lparr> ann_index = attr_get n (lit ''I'') [], ann_content = text_or_empty n \<rparr>)
       (filter (\<lambda>n. attr_get n (lit ''T'') [] = n_type) (iter_tag poem_elem (lit ''N'')))"

text \<open>
  The errors of the extractor. \<open>int(s)\<close> raises \<open>ValueError\<close> when \<open>s\<close> is not the
  numeral of an integer.
\<close>

datatype extractor_error = FileNotFoundError | ValueError

text \<open>
  The sentence indices: \<open>[int(i.text) for i in si.findall('int') if i.text and
  i.text.isdigit()]\<close> for every \<open>SI\<close> below \<open>SIs\<close>. \<open>str.isdigit\<close> and \<open>int\<close> follow the
  Unicode tables of the Python runtime; they are the parameters \<open>py_isdigit\<close> and
  \<open>py_int\<close>, the latter with the value \<open>None\<close> where \<open>int\<close> raises \<open>ValueError\<close>. The
  conversions are made in order and the first that fails ends the extraction.
\<close>

fun convert_all :: "(pystr \<Rightarrow> int option) \<Rightarrow> pystr list \<Rightarrow> extractor_error + int list" where
  "convert_all py_int [] = Inr []"
| "convert_all py_int (s # ss) =
     (case py_int s of
        None \<Rightarrow> Inl ValueError
      | Some n \<Rightarrow>
          (case convert_all py_int ss of
             Inl e \<Rightarrow> Inl e
           | Inr ns \<Rightarrow> Inr (n # ns)))"

definition si_indices ::
  "(pystr \<Rightarrow> bool) \<Rightarrow> (pystr \<Rightarrow> int option) \<Rightarrow> xml \<Rightarrow> extractor_error + int list" where
  "si_indices py_isdigit py_int si =
     convert_all py_int
       (map text_or_empty
          (filter (\<lambda>i. text_or_empty i \<noteq> [] \<and> py_isdigit (text_or_empty i))
             (findall si (lit ''int''))))"

fun sentence_indices_loop ::
  "(pystr \<Rightarrow> bool) \<Rightarrow> (pystr \<Rightarrow> int option) \<Rightarrow> xml list \<Rightarrow> extractor_error + int list list" where
  "sentence_indices_loop py_isdigit py_int [] = Inr []"
| "sentence_indices_loop py_isdigit py_int (si # sis) =
     (case si_indices py_isdigit py_int si of
        Inl e \<Rightarrow> Inl e
      | Inr indices \<Rightarrow>
          (case sentence_indices_loop py_isdigit py_int sis of
             Inl e \<Rightarrow> Inl e
           | Inr rest \<Rightarrow> Inr (indices # rest)))"

definition sentence_indices_of ::
  "(pystr \<Rightarrow> bool) \<Rightarrow> (pystr \<Rightarrow> int option) \<Rightarrow> xml \<Rightarrow> extractor_error + int list list" where
  "sentence_indices_of py_isdigit py_int poem_elem =
     (case find_child poem_elem (lit ''SIs'') of
        None \<Rightarrow> Inr []
      | Some sis_elem \<Rightarrow> sentence_indices_loop py_isdigit py_int (findall sis_elem (lit ''SI'')))"

text \<open>
  \<open>_extract_poem_data\<close>. The sentence indices are the last key computed and the only
  step that can raise.
\<close>

definition extract_poem_data ::
  "(pystr \<Rightarrow> bool) \<Rightarrow> (pystr \<Rightarrow> int option) \<Rightarrow> xml \<Rightarrow> extractor_error + poem_data" where
  "extract_poem_data py_isdigit py_int poem_elem =
     (case sentence_indices_of py_isdigit py_int poem_elem of
        Inl e \<Rightarrow> Inl e
      | Inr sentence_indices \<Rightarrow>
          Inr \<lparr> poem_id = attr_get poem_elem (lit ''Id'') [],
                author_id = attr_get poem_elem (lit ''AId'') [],
                title = (case find_child poem_elem (lit ''Title'') of
                           Some title_elem \<Rightarrow> attr_get title_elem (lit ''C'') []
                         | None \<Rightarrow> []),
                lines = (case find_child poem_elem (lit ''Jus'') of
                           Some jus_elem \<Rightarrow>
                             map (\<lambda>ju. attr_get ju (lit ''C'') []) (findall jus_elem (lit ''Ju''))
                         | None \<Rightarrow> []),
                creation_date = attr_get poem_elem (lit ''AD'') [],
                place_code = attr_get poem_elem (lit ''AP'') [],
                poem_type = attr_get poem_elem (lit ''T'') [],
                poem_type_detail = attr_get poem_elem (lit ''TD'') [],
                rhyme_category = attr_get poem_elem (lit ''R'') [],
                allusions = (case find_child poem_elem (lit ''As'') of
                               Some as_elem \<Rightarrow>
                                 map (\<lambda>a. \<lparr> allusion_id = attr_get a (lit ''AI'') [],
                                           sentence_index = attr_get a (lit ''SI'') [],
                                           allusion_text = text_or_empty a \<rparr>)
                                   (findall as_elem (lit ''A''))
                             | None \<Rightarrow> []),
                text_annotations = annotations_of_type poem_elem (lit ''Text''),
                pd_author = attr_get poem_elem (lit ''AU'') [],
                pd_dynasty = attr_get poem_elem (lit ''D'') [],
                pd_group_number = attr_get poem_elem (lit ''G'') [],
                pd_rhyme_number = attr_get poem_elem (lit ''RA'') [],
                pd_final_rhyme = attr_get poem_elem (lit ''FR'') [],
                pd_has_title = (attr_get poem_elem (lit ''TS'') [] = lit ''true''),
                pd_title_annotations =
                  (case find_child poem_elem (lit ''Title'') of
                     Some title_elem \<Rightarrow> extract_annotations (find_child title_elem (lit ''Ns''))
                   | None \<Rightarrow> []),
                pd_line_tones =
                  (case find_child poem_elem (lit ''Jus'') of
                     Some jus_elem \<Rightarrow>
                       map (\<lambda>ju. attr_get ju (lit ''T'') []) (findall jus_elem (lit ''Ju''))
                   | None \<Rightarrow> []),
                pd_line_rhymes =
                  (case find_child poem_elem (lit ''Jus'') of
                     Some jus_elem \<Rightarrow>
                       map (\<lambda>ju. attr_get ju (lit ''R'') []) (findall jus_elem (lit ''Ju''))
                   | None \<Rightarrow> []),
                pd_line_annotations =
                  (case find_child poem_elem (lit ''Jus'') of
                     Some jus_elem \<Rightarrow>
                       map (\<lambda>ju. extract_annotations (find_child ju (lit ''Ns'')))
                         (findall jus_elem (lit ''Ju''))
                   | None \<Rightarrow> []),
                pd_source_books =
                  (case find_child poem_elem (lit ''Fs'') of
                     Some fs_elem \<Rightarrow>
                       filter (\<lambda>s. s \<noteq> []) (map text_or_empty (findall fs_elem (lit ''F'')))
                   | None \<Rightarrow> []),
                pd_word_dict_annotations = annotations_of_type poem_elem (lit ''WordDictInJson''),
                pd_char_dict_annotations = annotations_of_type poem_elem (lit ''CharDictInJson''),
                pd_allusion_key_annotations = annotations_of_type poem_elem (lit ''AllusionKey''),
                pd_image_annotations = annotations_of_type poem_elem (lit ''Image''),
                pd_sentence_indices = sentence_indices \<rparr>)"

subsection \<open>\<open>extract_all_dufu_poems\<close>\<close>

text \<open>The counters in \<open>self.stats\<close> and the list \<open>self.dufu_poems\<close>.\<close>

record extractor =
  total_poems_scanned :: nat
  dufu_poems_found :: nat
  dufu_author_id :: "pystr option"
  dufu_poems :: "poem_data list"

definition new_extractor :: extractor where
  "new_extractor = \<lparr> total_poems_scanned = 0, dufu_poems_found = 0,
                      dufu_author_id = None, dufu_poems = [] \<rparr>"

text \<open>
  The body of the loop for an \<open>end\<close> event whose element has the tag \<open>Poem\<close>, up to the
  call of \<open>clear\<close>. The author id is stored while the stored one is \<open>None\<close> or empty.
  When the extraction raises, the poem has been counted and nothing has been appended;
  the error comes with the extractor as it stands then. (The progress report every
  100000 poems only prints.)
\<close>

definition inspect_poem ::
  "(pystr \<Rightarrow> bool) \<Rightarrow> (pystr \<Rightarrow> int option) \<Rightarrow> extractor \<Rightarrow> xml \<Rightarrow>
   extractor_error \<times> extractor + extractor" where
  "inspect_poem py_isdigit py_int st elem =
     (let st1 = st\<lparr> total_poems_scanned := total_poems_scanned st + 1 \<rparr>
      in if attr_get elem (lit ''AU'') [] = du_fu_name
         then (case extract_poem_data py_isdigit py_int elem of
                 Inl e \<Rightarrow> Inl (e, st1)
               | Inr poem_data \<Rightarrow>
                   (let st2 = st1\<lparr> dufu_poems := dufu_poems st1 @ [poem_data],
                                   dufu_poems_found := dufu_poems_found st1 + 1 \<rparr>
                    in if dufu_author_id st2 = None \<or> dufu_author_id st2 = Some []
                       then Inr (st2\<lparr> dufu_author_id := Some (attr_get elem (lit ''AId'') []) \<rparr>)
                       else Inr st2))
         else Inr st1)"

text \<open>
  What the loop does to the elements it is given, as a trace: \<open>Tested i m\<close> when it has
  read the author of the element of event \<open>i\<close> and found that it matches (\<open>m\<close> true) or
  not, and \<open>Cleared i\<close> when it has called \<open>clear\<close> on that element. The events are
  numbered from 0 in the order in which the loop receives them. The state of a scan is
  the extractor, the trace so far and the number of events received.
\<close>

datatype action = Tested nat bool | Cleared nat

record scanner =
  sc_extractor :: extractor
  sc_trace :: "action list"
  sc_events :: nat

definition new_scanner :: scanner where
  "new_scanner = \<lparr> sc_extractor = new_extractor, sc_trace = [], sc_events = 0 \<rparr>"

text \<open>
  One pass of the body of \<open>for event, elem in context\<close>: the result is the state after
  the pass and the element as the pass leaves it, or the error that ends the scan, with
  the state at that moment. An element whose tag is not \<open>Poem\<close> is not touched.
\<close>

definition end_event ::
  "(pystr \<Rightarrow> bool) \<Rightarrow> (pystr \<Rightarrow> int option) \<Rightarrow> scanner \<Rightarrow> xml \<Rightarrow>
   extractor_error \<times> scanner + scanner \<times> xml" where
  "end_event py_isdigit py_int sc elem =
     (if xml_tag elem = lit ''Poem''
      then (case inspect_poem py_isdigit py_int (sc_extractor sc) elem of
              Inl (e, st) \<Rightarrow>
                Inl (e, sc\<lparr> sc_extractor := st,
                            sc_trace := sc_trace sc
                              @ [Tested (sc_events sc) (attr_get elem (lit ''AU'') [] = du_fu_name)] \<rparr>)
            | Inr st \<Rightarrow>
                Inr (sc\<lparr> sc_extractor := st,
                         sc_trace := sc_trace sc
                           @ [Tested (sc_events sc) (attr_get elem (lit ''AU'') [] = du_fu_name),
                              Cleared (sc_events sc)],
                         sc_events := sc_events sc + 1 \<rparr>,
                     clear_element elem))
      else Inr (sc\<lparr> sc_events := sc_events sc + 1 \<rparr>, elem))"

text \<open>
  The loop over \<open>ET.iterparse(path, events=("end",))\<close>. The parser builds the tree of
  the document, appending every element to the children of its parent, and hands the
  elements to the loop in the order of their end tags: an element comes after all
  elements below it and before its parent. The loop works on the elements of that tree,
  so an element that it has cleared is empty when its parent is handed over. The scan of
  an element therefore first scans its children in order and then makes the pass for the
  element itself. Its result is the state of the scan and the element as the loop has
  left it once it has handled the events of the subtree.

  The model gives the order of the passes and their effect on the tree, the tails of the
  elements aside. It says nothing about the moment at which the parser builds an
  element: the parser reads the file in blocks and may have built many later elements,
  still populated, when the loop is handed an earlier one.
\<close>

fun scan_element ::
    "(pystr \<Rightarrow> bool) \<Rightarrow> (pystr \<Rightarrow> int option) \<Rightarrow> scanner \<Rightarrow> xml \<Rightarrow>
     extractor_error \<times> scanner + scanner \<times> xml"
  and scan_children ::
    "(pystr \<Rightarrow> bool) \<Rightarrow> (pystr \<Rightarrow> int option) \<Rightarrow> scanner \<Rightarrow> xml list \<Rightarrow>
     extractor_error \<times> scanner + scanner \<times> xml list" where
  "scan_element py_isdigit py_int sc (Element t a x cs) =
     (case scan_children py_isdigit py_int sc cs of
        Inl failure \<Rightarrow> Inl failure
      | Inr (sc1, cs1) \<Rightarrow> end_event py_isdigit py_int sc1 (Element t a x cs1))"
| "scan_children py_isdigit py_int sc [] = Inr (sc, [])"
| "scan_children py_isdigit py_int sc (c # cs) =
     (case scan_element py_isdigit py_int sc c of
        Inl failure \<Rightarrow> Inl failure
      | Inr (sc1, c1) \<Rightarrow>
          (case scan_children py_isdigit py_int sc1 cs of
             Inl failure \<Rightarrow> Inl failure
           | Inr (sc2, cs1) \<Rightarrow> Inr (sc2, c1 # cs1)))"

text \<open>
  \<open>extract_all_dufu_poems\<close> on a fresh extractor: \<open>None\<close> stands for a path at which
  there is no file; otherwise the argument is the root element of the document. The
  result is the state of the scan together with the tree that the loop leaves, or the
  exception raised.
\<close>

definition extract_all_dufu_poems ::
  "(pystr \<Rightarrow> bool) \<Rightarrow> (pystr \<Rightarrow> int option) \<Rightarrow> xml option \<Rightarrow>
   extractor_error \<times> scanner + scanner \<times> xml" where
  "extract_all_dufu_poems py_isdigit py_int source =
     (case source of
        None \<Rightarrow> Inl (FileNotFoundError, new_scanner)
      | Some root \<Rightarrow> scan_element py_isdigit py_int new_scanner root)"

subsection \<open>Auxiliary notions for the proofs about the extractor\<close>






text \<open>
  \<open>str.isdigit\<close> and \<open>int\<close> on strings of code points below 256. There the digits are
  \<open>0\<close> to \<open>9\<close> and the superscripts \<open>U+00B2\<close>, \<open>U+00B3\<close> and \<open>U+00B9\<close>; \<open>int\<close> reads the
  strings of \<open>0\<close> to \<open>9\<close> and raises \<open>ValueError\<close> on a superscript. (Among the strings
  that \<open>isdigit\<close> accepts; a limit of the interpreter on the number of digits is left
  aside.)
\<close>

definition latin1_isdigit :: "pystr \<Rightarrow> bool" where
  "latin1_isdigit s \<longleftrightarrow>
     s \<noteq> [] \<and> list_all (\<lambda>c. (48 \<le> c \<and> c \<le> 57) \<or> c = 178 \<or> c = 179 \<or> c = 185) s"

definition latin1_int :: "pystr \<Rightarrow> int option" where
  "latin1_int s =
     (if s \<noteq> [] \<and> list_all (\<lambda>c. 48 \<le> c \<and> c \<le> 57) s then Some (int (digits_value s)) else None)"

text \<open>
  An example document with three poems, the second one by Du Fu; and a document whose
  second poem, by Du Fu, has the sentence index \<open>U+00B2\<close>.
\<close>

definition example_poem_element :: "string \<Rightarrow> pystr \<Rightarrow> xml list \<Rightarrow> xml" where
  "example_poem_element ident author sis =
     Element (lit ''Poem'')
       [(lit ''Id'', lit ident), (lit ''AU'', author), (lit ''AId'', lit ''474'')] None
       ([Element (lit ''Title'') [(lit ''C'', [26149, 26395])] None [],
         Element (lit ''Jus'') [] None
           [Element (lit ''Ju'') [(lit ''C'', [22283, 30772, 23665, 27827, 22312])] None
              [Element (lit ''Ns'') [] None
                 [Element (lit ''N'') [(lit ''T'', lit ''Text''), (lit ''I'', lit ''0'')]
                    (Some (lit ''note'')) []]]]] @ sis)"

definition sentence_index_element :: "pystr \<Rightarrow> xml" where
  "sentence_index_element s =
     Element (lit ''SIs'') [] None
       [Element (lit ''SI'') [] None [Element (lit ''int'') [] (Some s) []]]"

definition example_writings :: xml where
  "example_writings =
     Element (lit ''Writings'') [] None
       [example_poem_element ''1'' [26446, 30333] [],
        example_poem_element ''2'' du_fu_name [sentence_index_element (lit ''12'')],
        example_poem_element ''3'' [29579, 32500] []]"

definition superscript_writings :: xml where
  "superscript_writings =
     Element (lit ''Writings'') [] None
       [example_poem_element ''1'' [26446, 30333] [],
        example_poem_element ''2'' du_fu_name [sentence_index_element [178]],
        example_poem_element ''3'' [29579, 32500] []]"

section \<open>Properties of the fixed-window segmenter\<close>

subsection \<open>Splitting and joining\<close>

lemma split_ws_nonspace:
  "\<forall>c\<in>set w. \<not> is_space c \<Longrightarrow> split_ws cur (w @ rest) = split_ws (cur @ w) rest"
  by (induction w arbitrary: cur) auto

lemma is_space_32: "is_space 32" by (simp add: is_space_def)

lemma lit_space: "lit '' '' = [32]" by (simp add: lit_def)

lemma split_ws_join:
  "\<forall>w\<in>set ws. valid_word w \<Longrightarrow> split_ws [] (py_join [32] ws) = ws"
proof (induction "[32::nat]" ws rule: py_join.induct)
  case 1 show ?case by simp
next
  case (2 x)
  then have "\<forall>c\<in>set x. \<not> is_space c" "x \<noteq> []" by (auto simp: valid_word_def)
  then show ?case using split_ws_nonspace[of x "[]" "[]"] by simp
next
  case (3 x y ys)
  then have x: "\<forall>c\<in>set x. \<not> is_space c" "x \<noteq> []" by (auto simp: valid_word_def)
  have "split_ws [] (x @ [32] @ py_join [32] (y # ys)) = split_ws x ([32] @ py_join [32] (y # ys))"
    using split_ws_nonspace[OF x(1), of "[]"] by simp
  also have "\<dots> = x # split_ws [] (py_join [32] (y # ys))"
    using x(2) by (simp add: is_space_32)
  finally show ?case using 3 by simp
qed

lemma split_ws_valid:
  "\<forall>c\<in>set cur. \<not> is_space c \<Longrightarrow> w \<in> set (split_ws cur s) \<Longrightarrow> valid_word w"
proof (induction s arbitrary: cur)
  case Nil
  then show ?case by (auto simp: valid_word_def split: if_splits)
next
  case (Cons c cs)
  show ?case
  proof (cases "is_space c")
    case True
    with Cons.prems have "w = cur \<and> cur \<noteq> [] \<or> w \<in> set (split_ws [] cs)"
      by (auto split: if_splits)
    then show ?thesis
    proof
      assume "w = cur \<and> cur \<noteq> []"
      with Cons.prems(1) show ?thesis by (simp add: valid_word_def)
    next
      assume "w \<in> set (split_ws [] cs)"
      then show ?thesis using Cons.IH[of "[]"] by simp
    qed
  next
    case False
    with Cons.prems have "w \<in> set (split_ws (cur @ [c]) cs)" by simp
    moreover have "\<forall>x\<in>set (cur @ [c]). \<not> is_space x" using False Cons.prems(1) by simp
    ultimately show ?thesis using Cons.IH by blast
  qed
qed

lemma py_split_valid: "\<forall>w\<in>set (py_split s). valid_word w"
  unfolding py_split_def using split_ws_valid[of "[]"] by simp

lemma py_split_join: "\<forall>w\<in>set ws. valid_word w \<Longrightarrow> py_split (py_join (lit '' '') ws) = ws"
  by (simp add: py_split_def lit_space split_ws_join)

subsection \<open>The loop in closed form\<close>

lemma concat_windows:
  "concat (map (\<lambda>j. take m (drop (j * m) ws)) [0..<k]) = take (k * m) ws"
proof (induction k)
  case 0 show ?case by simp
next
  case (Suc k)
  have "take (k * m) ws @ take m (drop (k * m) ws) = take (k * m + m) ws"
    by (simp add: take_add)
  with Suc show ?case by (simp add: add.commute)
qed

lemma py_slice_nat:
  "py_slice xs (int a) (int b) = take (min b (length xs) - min a (length xs)) (drop (min a (length xs)) xs)"
  by (simp add: py_slice_def slice_index_def Let_def min_def)


lemma iters_last: "0 < s \<Longrightarrow> start < n \<Longrightarrow> n \<le> start + s \<Longrightarrow> iters n start s = 1"
proof -
  assume a: "0 < s" "start < n" "n \<le> start + s"
  have "(n - start + s - 1) div s = ((n - start - 1) + s) div s" by (simp add: algebra_simps)
  also have "\<dots> = (n - start - 1) div s + 1" using a(1) by (simp add: div_add_self2)
  also have "(n - start - 1) div s = 0" using a by (intro div_pos_pos_trivial) auto
  finally show ?thesis using a by (simp add: iters_def)
qed

lemma iters_step: "0 < s \<Longrightarrow> start < n \<Longrightarrow> \<not> n \<le> start + s \<Longrightarrow> iters n start s = Suc (iters n (start + s) s)"
proof -
  assume a: "0 < s" "start < n" "\<not> n \<le> start + s"
  have "(n - start + s - 1) div s = ((n - (start + s) + s - 1) + s) div s" by (simp add: algebra_simps)
  also have "\<dots> = (n - (start + s) + s - 1) div s + 1" using a(1) by (simp add: div_add_self2)
  finally have e: "(n - start + s - 1) div s = (n - (start + s) + s - 1) div s + 1" .
  have "0 \<le> (n - (start + s) + s - 1) div s" using a by (intro pos_imp_zdiv_nonneg_iff[THEN iffD2]) auto
  then show ?thesis using a e by (simp add: iters_def nat_add_distrib)
qed

lemma chunk_loop_closed:
  assumes s: "0 < cs - ov"
  shows "chunk_loop d cs ov words chunks start cid =
     Some (chunks @ map (\<lambda>j. make_chunk d cs words (start + int j * (cs - ov)) (cid + j))
        [0..<iters (int (length words)) start (cs - ov)])"
proof (induction "nat (int (length words) - start)" arbitrary: chunks start cid rule: less_induct)
  case less
  let ?n = "int (length words)" and ?s = "cs - ov"
  show ?case
  proof (cases "start < ?n")
    case False
    then show ?thesis by (subst chunk_loop.simps) (simp add: iters_def)
  next
    case lt: True
    show ?thesis
    proof (cases "?n \<le> start + ?s")
      case True
      then show ?thesis using lt iters_last[OF s lt True]
        by (subst chunk_loop.simps) simp
    next
      case False
      have m: "nat (?n - (start + ?s)) < nat (?n - start)" using s lt by simp
      have map_shift: "map (\<lambda>j. make_chunk d cs words (start + int j * ?s) (cid + j)) [0..<Suc k]
         = make_chunk d cs words start cid #
           map (\<lambda>j. make_chunk d cs words (start + ?s + int j * ?s) (cid + 1 + j)) [0..<k]" for k
        by (simp only: upt_conv_Cons[of 0 "Suc k"] map_Suc_upt[symmetric] list.map map_map o_def)
           (simp add: algebra_simps)
      show ?thesis
        using lt False less(1)[OF m] iters_step[OF s lt False]
        by (subst chunk_loop.simps) (simp only: map_shift, simp)
    qed
  qed
qed

lemma chunk_loop_diverges_aux:
  assumes "chunk_loop d cs ov words chunks start cid = Some r"
  shows "\<not> (cs - ov \<le> 0 \<and> start < int (length words))"
  using assms
proof (rule chunk_loop.raw_induct
        [where P = "\<lambda>d cs ov words chunks start cid r. \<not> (cs - ov \<le> 0 \<and> start < int (length words))", rotated])
  fix f d cs ov and words :: "pystr list" and chunks start cid r
  assume IH: "\<And>d cs ov words chunks start cid r.
      f d cs ov words chunks start cid = Some r \<Longrightarrow> \<not> (cs - ov \<le> 0 \<and> start < int (length words))"
    and body: "(if start < int (length words)
      then if int (length words) \<le> start + (cs - ov)
           then Some (chunks @ [make_chunk d cs words start cid])
           else f d cs ov words (chunks @ [make_chunk d cs words start cid])
                 (start + (cs - ov)) (cid + 1)
      else Some chunks) = Some r"
  show "\<not> (cs - ov \<le> 0 \<and> start < int (length words))"
  proof
    assume a: "cs - ov \<le> 0 \<and> start < int (length words)"
    then have "\<not> int (length words) \<le> start + (cs - ov)" by simp
    with a body have "f d cs ov words (chunks @ [make_chunk d cs words start cid])
                 (start + (cs - ov)) (cid + 1) = Some r" by simp
    from IH[OF this] a show False by simp
  qed
qed

lemma chunk_loop_None:
  "cs - ov \<le> 0 \<Longrightarrow> start < int (length words) \<Longrightarrow> chunk_loop d cs ov words chunks start cid = None"
  using chunk_loop_diverges_aux[of d cs ov words chunks start cid] by (cases "chunk_loop d cs ov words chunks start cid") auto

lemma iters_0: "iters (int n) 0 400 = (n + 399) div 400"
proof -
  have "(int n + 399) div 400 = int ((n + 399) div 400)" by (simp add: zdiv_int)
  then have "nat ((int n - 0 + 400 - 1) div 400) = (n + 399) div 400" by simp
  then show ?thesis by (auto simp: iters_def)
qed

subsection \<open>Window size 500 and overlap 100\<close>

lemma chunk_document_windows: "chunk_document d 500 100 = Some (windows d)"
proof -
  have "(0::int) < 500 - 100" by simp
  from chunk_loop_closed[OF this, of d "doc_words d" "[]" 0 0]
  show ?thesis by (simp add: chunk_document_def windows_def iters_0 mult.commute)
qed

lemma chunk_articles_windows:
  "chunk_articles articles chunks = Some (chunks @ concat (map windows articles))"
  by (induction articles arbitrary: chunks) (simp_all add: chunk_document_windows)

lemma create_chunks_windows:
  "create_chunks biography articles = Some (concat (map windows (biography # articles)))"
  by (simp add: create_chunks_def chunk_document_windows chunk_articles_windows)

lemma slice_window:
  "py_slice ws (int a) (min (int a + 500) (int (length ws))) = take 500 (drop a ws)"
proof -
  have m: "min (int a + 500) (int (length ws)) = int (min (a + 500) (length ws))" by simp
  show ?thesis
  proof (cases "a \<le> length ws")
    case True
    then have "min (a + 500) (length ws) - a = min 500 (length ws - a)" by simp
    moreover have "take (min 500 (length ws - a)) (drop a ws) = take 500 (drop a ws)"
      by (cases "500 \<le> length ws - a") (simp_all add: min_def)
    ultimately show ?thesis using True unfolding m py_slice_nat by (simp add: min_absorb1)
  next
    case False
    then show ?thesis unfolding m py_slice_nat by simp
  qed
qed

lemma valid_sub: "\<forall>w\<in>set ws. valid_word w \<Longrightarrow> \<forall>w\<in>set (take a (drop b ws)). valid_word w"
  by (meson in_set_dropD in_set_takeD)

lemma make_chunk_words:
  "py_split (chunk_content (make_chunk d 500 (doc_words d) (int a) j)) = take 500 (drop a (doc_words d))"
  using py_split_join[OF valid_sub[OF py_split_valid, of 500 a "full_text (doc_content d)"]]
  by (simp add: make_chunk_def Let_def slice_window)

lemma make_chunk_words':
  "py_split (chunk_content (make_chunk d 500 (doc_words d) (int j * 400) i)) = take 500 (drop (j * 400) (doc_words d))"
  using make_chunk_words[of d "j * 400" i] by simp

lemma make_chunk_index: "chunk_index (make_chunk d cs ws start j) = j"
  by (simp add: make_chunk_def Let_def)

lemma make_chunk_word_count:
  "chunk_word_count (make_chunk d cs ws start j) = length (py_split (chunk_content (make_chunk d cs ws start j)))"
  by (simp add: make_chunk_def Let_def)

lemma length_windows: "length (windows d) = (length (doc_words d) + 399) div 400"
  by (simp add: windows_def)

lemma windows_nth:
  "i < length (windows d) \<Longrightarrow> windows d ! i = make_chunk d 500 (doc_words d) (int (i * 400)) i"
  by (simp add: windows_def)

lemma windows_words:
  "map (\<lambda>c. py_split (chunk_content c)) (windows d)
     = map (\<lambda>j. take 500 (drop (j * 400) (doc_words d))) [0..<(length (doc_words d) + 399) div 400]"
  by (simp add: windows_def o_def make_chunk_words')

lemma windows_index: "map chunk_index (windows d) = [0..<length (windows d)]"
  by (simp add: windows_def o_def make_chunk_index map_idI)

lemma ceil400_ge: "(n::nat) \<le> (n + 399) div 400 * 400"
proof -
  have "(n + 399) div 400 * 400 + (n + 399) mod 400 = n + 399" by (rule div_mult_mod_eq)
  moreover have "(n + 399) mod 400 < 400" by simp
  ultimately show ?thesis by linarith
qed
lemma ceil400_pos: "0 < (n::nat) \<Longrightarrow> 0 < (n + 399) div 400"
  by (simp add: div_greater_zero_iff)
lemma ceil400_pred: "0 < (n::nat) \<Longrightarrow> ((n + 399) div 400 - 1) * 400 < n"
proof -
  assume "0 < n"
  have "(n + 399) div 400 * 400 + (n + 399) mod 400 = n + 399" by (rule div_mult_mod_eq)
  then have "(n + 399) div 400 * 400 \<le> n + 399" by linarith
  moreover have "((n + 399) div 400 - 1) * 400 = (n + 399) div 400 * 400 - 400" by (simp add: diff_mult_distrib)
  ultimately show ?thesis using \<open>0 < n\<close> by linarith
qed

lemma windows_cover:
  "concat (map (\<lambda>c. take 400 (py_split (chunk_content c))) (windows d)) = doc_words d"
proof -
  let ?ws = "doc_words d" and ?k = "(length (doc_words d) + 399) div 400"
  have "concat (map (\<lambda>c. take 400 (py_split (chunk_content c))) (windows d))
        = concat (map (\<lambda>j. take 400 (drop (j * 400) ?ws)) [0..<?k])"
    by (simp add: windows_def o_def make_chunk_words')
  also have "\<dots> = take (?k * 400) ?ws" by (rule concat_windows)
  also have "\<dots> = ?ws"
  proof -
    have "length ?ws \<le> ?k * 400" by (rule ceil400_ge)
    then show ?thesis by simp
  qed
  finally show ?thesis .
qed

lemma windows_last:
  assumes "doc_words d \<noteq> []"
  shows "windows d \<noteq> [] \<and> 0 < length (py_split (chunk_content (last (windows d))))
         \<and> length (py_split (chunk_content (last (windows d)))) \<le> 500"
proof -
  let ?n = "length (doc_words d)" and ?k = "(length (doc_words d) + 399) div 400"
  from assms have n: "0 < ?n" by simp
  then have k: "0 < ?k" by (rule ceil400_pos)
  then have ne: "windows d \<noteq> []" using length_windows[of d] by auto
  have "last (windows d) = windows d ! (?k - 1)"
    using ne by (simp add: last_conv_nth length_windows)
  also have "\<dots> = make_chunk d 500 (doc_words d) (int ((?k - 1) * 400)) (?k - 1)"
    using k by (intro windows_nth) (simp add: length_windows)
  finally have l: "py_split (chunk_content (last (windows d))) = take 500 (drop ((?k - 1) * 400) (doc_words d))"
    by (simp only: make_chunk_words)
  have "(?k - 1) * 400 < ?n" using n by (rule ceil400_pred)
  then show ?thesis using ne l by simp
qed

lemma windows_1200:
  assumes "length (doc_words d) = 1200"
  shows "map (\<lambda>c. py_split (chunk_content c)) (windows d)
     = [take 500 (doc_words d), take 500 (drop 400 (doc_words d)), drop 800 (doc_words d)]"
proof -
  have u: "[0..<3] = [0, 1, 2::nat]" by (simp add: eval_nat_numeral)
  show ?thesis unfolding windows_words using assms by (simp add: u)
qed

lemma doc_words_repeated:
  "doc_words (prose_document t (repeated_words n)) = replicate n (lit ''w'')"
proof -
  have "\<not> is_space 119" by (simp add: is_space_def)
  then have "\<forall>w\<in>set (replicate n (lit ''w'')). valid_word w"
    by (simp add: valid_word_def lit_def)
  from py_split_join[OF this] show ?thesis
    by (simp add: prose_document_def repeated_words_def)
qed

lemma windows_cover_tail:
  "(case windows d of [] \<Rightarrow> []
    | c # rest \<Rightarrow> py_split (chunk_content c)
                  @ concat (map (\<lambda>c. drop 100 (py_split (chunk_content c))) rest))
   = doc_words d"
proof -
  let ?ws = "doc_words d" and ?k = "(length (doc_words d) + 399) div 400"
  let ?words = "map (\<lambda>c. py_split (chunk_content c)) (windows d)"
  have shape: "(case windows d of [] \<Rightarrow> []
    | c # rest \<Rightarrow> py_split (chunk_content c)
                  @ concat (map (\<lambda>c. drop 100 (py_split (chunk_content c))) rest))
    = (case ?words of [] \<Rightarrow> [] | w # rest \<Rightarrow> w @ concat (map (drop 100) rest))"
    by (cases "windows d") (simp_all add: o_def)
  show ?thesis
  proof (cases ?k)
    case 0
    then have "length ?ws = 0" using ceil400_ge[of "length ?ws"] by simp
    with 0 show ?thesis unfolding shape windows_words by simp
  next
    case (Suc m)
    have upt: "[0..<Suc m] = 0 # map Suc [0..<m]"
      by (simp add: upt_conv_Cons map_Suc_upt del: upt_Suc)
    have tail: "drop 100 (take 500 (drop (Suc j * 400) ?ws)) = take 400 (drop (j * 400) (drop 500 ?ws))" for j
      by (simp add: drop_take add.commute)
    have "(case ?words of [] \<Rightarrow> [] | w # rest \<Rightarrow> w @ concat (map (drop 100) rest))
        = take 500 ?ws @ concat (map (\<lambda>j. take 400 (drop (j * 400) (drop 500 ?ws))) [0..<m])"
      unfolding windows_words Suc upt by (simp add: o_def tail del: upt_Suc mult_Suc)
    also have "\<dots> = take 500 ?ws @ take (m * 400) (drop 500 ?ws)"
      by (simp only: concat_windows)
    also have "\<dots> = take (500 + m * 400) ?ws" by (simp add: take_add)
    also have "\<dots> = ?ws"
    proof -
      have "length ?ws \<le> ?k * 400" by (rule ceil400_ge)
      with Suc show ?thesis by simp
    qed
    finally show ?thesis unfolding shape .
  qed
qed

text \<open>
  Claim C1. \<open>_create_chunks\<close> returns the concatenation, in document order, of the
  chunk lists of the biography and the articles, each produced by \<open>_chunk_document\<close>
  with window size 500 and overlap 100. For every such document: the chunks carry the
  indices 0, 1, 2, ... in order; the first 400 words (the stride) of each chunk,
  concatenated in that order, are exactly the words of the document's full text, and so
  are the first chunk followed by the other chunks without their first 100 words (the
  overlap); when the document has at least one word, the last chunk has between 1 and
  500 words; and a
  document of 1200 words yields exactly three chunks, holding the words 0-499, 400-899
  and 800-1199.
\<close>

theorem windowing_coverage:
  "\<exists>css. create_chunks biography articles = Some (concat css) \<and>
     list_all2 (\<lambda>d cs.
        let ws = py_split (full_text (doc_content d)) in
        chunk_document d 500 100 = Some cs \<and>
        map chunk_index cs = [0..<length cs] \<and>
        concat (map (\<lambda>c. take 400 (py_split (chunk_content c))) cs) = ws \<and>
        (case cs of [] \<Rightarrow> []
         | c # rest \<Rightarrow> py_split (chunk_content c)
                       @ concat (map (\<lambda>c. drop 100 (py_split (chunk_content c))) rest)) = ws \<and>
        (ws \<noteq> [] \<longrightarrow> cs \<noteq> [] \<and> 0 < length (py_split (chunk_content (last cs)))
                       \<and> length (py_split (chunk_content (last cs))) \<le> 500) \<and>
        (length ws = 1200 \<longrightarrow>
           map (\<lambda>c. py_split (chunk_content c)) cs
             = [take 500 ws, take 500 (drop 400 ws), drop 800 ws]))
      (biography # articles) css"
proof (intro exI conjI)
  show "create_chunks biography articles = Some (concat (map windows (biography # articles)))"
    by (rule create_chunks_windows)
  have "list_all2 (\<lambda>d cs.
        let ws = py_split (full_text (doc_content d)) in
        chunk_document d 500 100 = Some cs \<and>
        map chunk_index cs = [0..<length cs] \<and>
        concat (map (\<lambda>c. take 400 (py_split (chunk_content c))) cs) = ws \<and>
        (case cs of [] \<Rightarrow> []
         | c # rest \<Rightarrow> py_split (chunk_content c)
                       @ concat (map (\<lambda>c. drop 100 (py_split (chunk_content c))) rest)) = ws \<and>
        (ws \<noteq> [] \<longrightarrow> cs \<noteq> [] \<and> 0 < length (py_split (chunk_content (last cs)))
                       \<and> length (py_split (chunk_content (last cs))) \<le> 500) \<and>
        (length ws = 1200 \<longrightarrow>
           map (\<lambda>c. py_split (chunk_content c)) cs
             = [take 500 ws, take 500 (drop 400 ws), drop 800 ws])) ds (map windows ds)" for ds
    unfolding list_all2_map2 Let_def
    by (rule list_all2_refl)
       (intro conjI impI chunk_document_windows windows_index windows_cover windows_cover_tail
          windows_1200
          windows_last[THEN conjunct1] windows_last[THEN conjunct2, THEN conjunct1]
          windows_last[THEN conjunct2, THEN conjunct2]; assumption)
  then show "list_all2 (\<lambda>d cs.
        let ws = py_split (full_text (doc_content d)) in
        chunk_document d 500 100 = Some cs \<and>
        map chunk_index cs = [0..<length cs] \<and>
        concat (map (\<lambda>c. take 400 (py_split (chunk_content c))) cs) = ws \<and>
        (case cs of [] \<Rightarrow> []
         | c # rest \<Rightarrow> py_split (chunk_content c)
                       @ concat (map (\<lambda>c. drop 100 (py_split (chunk_content c))) rest)) = ws \<and>
        (ws \<noteq> [] \<longrightarrow> cs \<noteq> [] \<and> 0 < length (py_split (chunk_content (last cs)))
                       \<and> length (py_split (chunk_content (last cs))) \<le> 500) \<and>
        (length ws = 1200 \<longrightarrow>
           map (\<lambda>c. py_split (chunk_content c)) cs
             = [take 500 ws, take 500 (drop 400 ws), drop 800 ws]))
      (biography # articles) (map windows (biography # articles))" .
qed

text \<open>
  Witness for C1: a biography of 1200 words and no articles gives three chunks with
  indices 0, 1, 2 and 500, 500 and 400 words.
\<close>

theorem windowing_coverage_witness:
  "\<exists>cs. create_chunks (prose_document (lit ''Elizabeth II'') (repeated_words 1200)) [] = Some cs \<and>
     map chunk_index cs = [0, 1, 2] \<and>
     map (\<lambda>c. length (py_split (chunk_content c))) cs = [500, 500, 400] \<and>
     concat (map (\<lambda>c. take 400 (py_split (chunk_content c))) cs) = replicate 1200 (lit ''w'')"
proof -
  let ?d = "prose_document (lit ''Elizabeth II'') (repeated_words 1200)"
  have w: "py_split (full_text (doc_content ?d)) = replicate 1200 (lit ''w'')"
    by (rule doc_words_repeated)
  from windowing_coverage[of ?d "[]"] obtain css where
    c: "create_chunks ?d [] = Some (concat css)" and
    l: "list_all2 (\<lambda>d cs.
        let ws = py_split (full_text (doc_content d)) in
        chunk_document d 500 100 = Some cs \<and>
        map chunk_index cs = [0..<length cs] \<and>
        concat (map (\<lambda>c. take 400 (py_split (chunk_content c))) cs) = ws \<and>
        (case cs of [] \<Rightarrow> []
         | c # rest \<Rightarrow> py_split (chunk_content c)
                       @ concat (map (\<lambda>c. drop 100 (py_split (chunk_content c))) rest)) = ws \<and>
        (ws \<noteq> [] \<longrightarrow> cs \<noteq> [] \<and> 0 < length (py_split (chunk_content (last cs)))
                       \<and> length (py_split (chunk_content (last cs))) \<le> 500) \<and>
        (length ws = 1200 \<longrightarrow>
           map (\<lambda>c. py_split (chunk_content c)) cs
             = [take 500 ws, take 500 (drop 400 ws), drop 800 ws])) [?d] css"
    by blast
  from l obtain cs where css: "css = [cs]" and
    p: "let ws = py_split (full_text (doc_content ?d)) in
        chunk_document ?d 500 100 = Some cs \<and>
        map chunk_index cs = [0..<length cs] \<and>
        concat (map (\<lambda>c. take 400 (py_split (chunk_content c))) cs) = ws \<and>
        (case cs of [] \<Rightarrow> []
         | c # rest \<Rightarrow> py_split (chunk_content c)
                       @ concat (map (\<lambda>c. drop 100 (py_split (chunk_content c))) rest)) = ws \<and>
        (ws \<noteq> [] \<longrightarrow> cs \<noteq> [] \<and> 0 < length (py_split (chunk_content (last cs)))
                       \<and> length (py_split (chunk_content (last cs))) \<le> 500) \<and>
        (length ws = 1200 \<longrightarrow>
           map (\<lambda>c. py_split (chunk_content c)) cs
             = [take 500 ws, take 500 (drop 400 ws), drop 800 ws])"
    by (auto simp only: list_all2_Cons1 list_all2_Nil)
  from p have i: "map chunk_index cs = [0..<length cs]"
    and cov: "concat (map (\<lambda>c. take 400 (py_split (chunk_content c))) cs) = replicate 1200 (lit ''w'')"
    and m': "length (replicate 1200 (lit ''w'')) = 1200 \<longrightarrow> map (\<lambda>c. py_split (chunk_content c)) cs
             = [take 500 (replicate 1200 (lit ''w'')), take 500 (drop 400 (replicate 1200 (lit ''w''))),
                drop 800 (replicate 1200 (lit ''w''))]"
    unfolding Let_def w by blast+
  from m' have m: "map (\<lambda>c. py_split (chunk_content c)) cs
             = [take 500 (replicate 1200 (lit ''w'')), take 500 (drop 400 (replicate 1200 (lit ''w''))),
                drop 800 (replicate 1200 (lit ''w''))]" by simp
  from m have len: "length cs = 3" by (metis length_map length_Cons list.size(3) numeral_3_eq_3)
  have "map (\<lambda>c. length (py_split (chunk_content c))) cs = map length (map (\<lambda>c. py_split (chunk_content c)) cs)"
    by (simp add: o_def)
  also have "\<dots> = [500, 500, 400]" unfolding m by simp
  finally have sizes: "map (\<lambda>c. length (py_split (chunk_content c))) cs = [500, 500, 400]" .
  have "[0..<3] = [0, 1, 2::nat]" by (simp add: eval_nat_numeral)
  with i len have "map chunk_index cs = [0, 1, 2]" by simp
  with c css sizes cov show ?thesis by simp
qed

text \<open>
  Claim C10. A document whose full text splits into \<open>n \<ge> 1\<close> words gives, with
  window size 500 and overlap 100, exactly \<open>\<lceil>n / 400\<rceil>\<close> chunks (the least \<open>k\<close> with
  \<open>n \<le> 400 k\<close>); the chunk at position \<open>i\<close> has \<open>chunk_index = i\<close> and exactly
  \<open>min 500 (n - 400 i)\<close> words, which is between 1 and 500, and its \<open>word_count\<close> field
  is the number of whitespace-separated words of its content.
\<close>

theorem window_sizes:
  assumes "1 \<le> length (py_split (full_text (doc_content d)))"
  shows "let n = length (py_split (full_text (doc_content d))) in
     \<exists>cs. chunk_document d 500 100 = Some cs \<and>
       length cs = (n + 399) div 400 \<and> 400 * (length cs - 1) < n \<and> n \<le> 400 * length cs \<and>
       (\<forall>i<length cs.
          chunk_index (cs ! i) = i \<and>
          length (py_split (chunk_content (cs ! i))) = min 500 (n - 400 * i) \<and>
          1 \<le> length (py_split (chunk_content (cs ! i))) \<and>
          length (py_split (chunk_content (cs ! i))) \<le> 500 \<and>
          chunk_word_count (cs ! i) = length (py_split (chunk_content (cs ! i))))"
proof -
  let ?n = "length (doc_words d)"
  from assms have n: "0 < ?n" by linarith
  have len: "length (windows d) = (?n + 399) div 400" by (rule length_windows)
  have lo: "400 * (length (windows d) - 1) < ?n"
    using ceil400_pred[OF n] by (simp add: len mult.commute)
  have hi: "?n \<le> 400 * length (windows d)"
    using ceil400_ge[of ?n] by (simp add: len mult.commute)
  have each: "chunk_index (windows d ! i) = i \<and>
          length (py_split (chunk_content (windows d ! i))) = min 500 (?n - 400 * i) \<and>
          1 \<le> length (py_split (chunk_content (windows d ! i))) \<and>
          length (py_split (chunk_content (windows d ! i))) \<le> 500 \<and>
          chunk_word_count (windows d ! i) = length (py_split (chunk_content (windows d ! i)))"
    if i: "i < length (windows d)" for i
  proof -
    have w: "windows d ! i = make_chunk d 500 (doc_words d) (int (i * 400)) i"
      using i by (rule windows_nth)
    have c: "py_split (chunk_content (windows d ! i)) = take 500 (drop (i * 400) (doc_words d))"
      unfolding w by (rule make_chunk_words)
    have "400 * i \<le> 400 * (length (windows d) - 1)" using i by simp
    with lo have "400 * i < ?n" by linarith
    then have sz: "length (py_split (chunk_content (windows d ! i))) = min 500 (?n - 400 * i)"
      "1 \<le> length (py_split (chunk_content (windows d ! i)))"
      "length (py_split (chunk_content (windows d ! i))) \<le> 500"
      unfolding c by (simp_all add: mult.commute min.commute)
    have "chunk_index (windows d ! i) = i"
      "chunk_word_count (windows d ! i) = length (py_split (chunk_content (windows d ! i)))"
      unfolding w by (rule make_chunk_index, rule make_chunk_word_count)
    with sz show ?thesis by blast
  qed
  show ?thesis unfolding Let_def
    using chunk_document_windows[of d] len lo hi each by blast
qed

text \<open>
  Witness for C10: 850 words give three chunks of 500, 450 and 50 words, so the middle
  chunk, which is not the last, is shorter than 500.
\<close>

theorem window_sizes_witness:
  "\<exists>cs. chunk_document (prose_document (lit ''Elizabeth II'') (repeated_words 850)) 500 100 = Some cs \<and>
     length cs = 3 \<and>
     length (py_split (chunk_content (cs ! 0))) = 500 \<and> chunk_word_count (cs ! 0) = 500 \<and>
     length (py_split (chunk_content (cs ! 1))) = 450 \<and> chunk_word_count (cs ! 1) = 450 \<and>
     length (py_split (chunk_content (cs ! 2))) = 50 \<and> chunk_word_count (cs ! 2) = 50"
proof -
  let ?d = "prose_document (lit ''Elizabeth II'') (repeated_words 850)"
  have w: "py_split (full_text (doc_content ?d)) = replicate 850 (lit ''w'')"
    by (rule doc_words_repeated)
  then have h: "1 \<le> length (py_split (full_text (doc_content ?d)))" by simp
  from window_sizes[OF h] have "\<exists>cs. chunk_document ?d 500 100 = Some cs \<and>
       length cs = 3 \<and> 400 * (length cs - 1) < 850 \<and> 850 \<le> 400 * length cs \<and>
       (\<forall>i<length cs.
          chunk_index (cs ! i) = i \<and>
          length (py_split (chunk_content (cs ! i))) = min 500 (850 - 400 * i) \<and>
          1 \<le> length (py_split (chunk_content (cs ! i))) \<and>
          length (py_split (chunk_content (cs ! i))) \<le> 500 \<and>
          chunk_word_count (cs ! i) = length (py_split (chunk_content (cs ! i))))"
    unfolding Let_def w by simp
  then obtain cs where
    c: "chunk_document ?d 500 100 = Some cs" and l: "length cs = 3" and
    e: "\<forall>i<length cs.
          chunk_index (cs ! i) = i \<and>
          length (py_split (chunk_content (cs ! i))) = min 500 (850 - 400 * i) \<and>
          1 \<le> length (py_split (chunk_content (cs ! i))) \<and>
          length (py_split (chunk_content (cs ! i))) \<le> 500 \<and>
          chunk_word_count (cs ! i) = length (py_split (chunk_content (cs ! i)))"
    by blast
  from e l have "length (py_split (chunk_content (cs ! 0))) = min 500 (850 - 400 * 0)"
    "chunk_word_count (cs ! 0) = length (py_split (chunk_content (cs ! 0)))"
    "length (py_split (chunk_content (cs ! 1))) = min 500 (850 - 400 * 1)"
    "chunk_word_count (cs ! 1) = length (py_split (chunk_content (cs ! 1)))"
    "length (py_split (chunk_content (cs ! 2))) = min 500 (850 - 400 * 2)"
    "chunk_word_count (cs ! 2) = length (py_split (chunk_content (cs ! 2)))"
    by simp_all
  with c l show ?thesis by simp
qed

text \<open>
  Claim C3, as amended. \<open>_chunk_document\<close> returns exactly when the overlap is smaller
  than the window size or the document has no words. The source has no test of whether
  \<open>start\<close> advances: with \<open>overlap \<ge> chunk_size\<close> and at least one word, \<open>start\<close> never
  reaches \<open>len(words)\<close> and the loop does not end.
\<close>

theorem chunk_document_returns_iff:
  "(\<exists>cs. chunk_document d chunk_size overlap = Some cs)
     \<longleftrightarrow> (overlap < chunk_size \<or> py_split (full_text (doc_content d)) = [])"
proof (cases "overlap < chunk_size")
  case True
  then have "0 < chunk_size - overlap" by simp
  from chunk_loop_closed[OF this] True show ?thesis by (simp add: chunk_document_def)
next
  case False
  show ?thesis
  proof (cases "py_split (full_text (doc_content d)) = []")
    case True
    then show ?thesis by (simp add: chunk_document_def chunk_loop.simps)
  next
    case ne: False
    have "chunk_document d chunk_size overlap = None"
      unfolding chunk_document_def using False ne by (intro chunk_loop_None) simp_all
    with False ne show ?thesis by simp
  qed
qed

text \<open>
  Witness for C3: the call returns for window 500 and overlap 100 on a one-word
  document, and for window 500 and overlap 500 on a document without words.
\<close>

theorem chunk_document_returns_iff_witness:
  "(\<exists>cs. chunk_document (prose_document (lit ''Elizabeth II'') (lit ''Elizabeth'')) 500 100 = Some cs)
   \<and> (\<exists>cs. chunk_document (prose_document (lit ''Elizabeth II'') []) 500 500 = Some cs)"
  using chunk_document_returns_iff[of "prose_document (lit ''Elizabeth II'') (lit ''Elizabeth'')" 500 100]
        chunk_document_returns_iff[of "prose_document (lit ''Elizabeth II'') []" 500 500]
  by (simp add: prose_document_def py_split_def)

text \<open>
  Counterexample to C3 as stated: with overlap equal to the window size (500 and 500), a
  one-word document makes the loop run forever.
\<close>

theorem chunk_document_equal_overlap_diverges:
  "chunk_document (prose_document (lit ''Elizabeth II'') (lit ''Elizabeth'')) 500 500 = None"
proof -
  have "py_split (lit ''Elizabeth'') = [lit ''Elizabeth'']"
    by (simp add: py_split_def lit_def is_space_def)
  then show ?thesis
    unfolding chunk_document_def by (intro chunk_loop_None) (simp_all add: prose_document_def)
qed
section \<open>Properties of the poem pipeline\<close>

subsection \<open>The mapper\<close>

lemma create_documents_from_eq:
  "create_documents_from e clock i ps docs
     = docs @ map (\<lambda>(j, p). create_document e (clock j) p) (enumerate i ps)"
  by (induction ps arbitrary: i docs) simp_all

lemma create_structured_documents_eq:
  "create_structured_documents e clock ps
     = map (\<lambda>(j, p). create_document e (clock j) p) (enumerate 0 ps)"
  by (simp add: create_structured_documents_def create_documents_from_eq)

lemma unstamp_create: "unstamp (create_document e now p) = create_document e [] p"
  by (simp add: unstamp_def create_document_def)

text \<open>
  Claim C4, as amended. Two runs of the mapper on the same poem, at clock readings
  \<open>now1\<close> and \<open>now2\<close>, give documents with the same id, type, title, content and
  metadata; the sources agree except for the field \<open>processed\<close>, which holds the clock
  reading of the run. Hence the document lists of two runs over the same poems are equal
  once that field is blanked. The field is part of the structured document, so the
  documents of two runs at different times are not identical as a whole.
\<close>

theorem mapper_deterministic_up_to_processed:
  "df_id (create_document e now1 p) = df_id (create_document e now2 p) \<and>
   df_type (create_document e now1 p) = df_type (create_document e now2 p) \<and>
   df_title (create_document e now1 p) = df_title (create_document e now2 p) \<and>
   df_content (create_document e now1 p) = df_content (create_document e now2 p) \<and>
   df_metadata (create_document e now1 p) = df_metadata (create_document e now2 p) \<and>
   df_source (create_document e now1 p) = (df_source (create_document e now2 p))\<lparr> src_processed := now1 \<rparr> \<and>
   map unstamp (create_structured_documents e clock1 poems)
     = map unstamp (create_structured_documents e clock2 poems)"
proof -
  have "map unstamp (create_structured_documents e c poems)
          = map (\<lambda>(j, p). create_document e [] p) (enumerate 0 poems)" for c
    by (simp add: create_structured_documents_eq o_def split_def unstamp_create)
  then show ?thesis by (simp add: create_document_def)
qed

text \<open>
  Counterexample to C4 as stated: the same poem mapped at two clock readings one second
  apart gives two different structured documents.
\<close>

theorem mapper_rerun_differs:
  "create_document (lit ''2025-10-04T09:00:00'') (lit ''2025-10-04T10:00:00'') chun_wang
     \<noteq> create_document (lit ''2025-10-04T09:00:00'') (lit ''2025-10-04T10:00:01'') chun_wang"
  by (simp add: create_document_def lit_def)

subsection \<open>The chunks of a run, document by document\<close>

lemma step_chunks_eq:
  "step_chunks poems doc cid =
     [poem_content_chunk doc cid] @
     (case find (\<lambda>p. poem_id p = src_poem_id (df_source doc)) poems of
        None \<Rightarrow> []
      | Some p \<Rightarrow>
          (if allusions p \<noteq> [] then [allusions_chunk doc p (cid + 1)] else []) @
          (if text_annotations p \<noteq> []
           then [annotations_chunk doc p (cid + 1 + (if allusions p \<noteq> [] then 1 else 0))] else []))"
  by (simp add: step_chunks_def Let_def split: option.split)

lemma chunk_step_eq:
  "chunk_step poems doc (cid, chunks)
     = (cid + length (step_chunks poems doc cid), chunks @ step_chunks poems doc cid)"
  by (simp add: step_chunks_def Let_def split: option.split)

lemma foldl_chunk_step:
  "foldl (\<lambda>st doc. chunk_step poems doc st) (cid, chunks) docs
     = (cid + length (all_chunks poems docs cid), chunks @ all_chunks poems docs cid)"
proof (induction docs arbitrary: cid chunks)
  case Nil
  show ?case by simp
next
  case (Cons d ds)
  show ?case by (simp only: foldl_Cons chunk_step_eq Cons.IH all_chunks.simps) simp
qed

lemma generate_training_chunks_eq:
  "generate_training_chunks poems docs = all_chunks poems docs 1"
  by (simp add: generate_training_chunks_def foldl_chunk_step)

lemma step_chunks_source:
  "c \<in> set (step_chunks poems doc cid) \<Longrightarrow> tc_source_document_id c = df_id doc"
  by (auto simp: step_chunks_eq poem_content_chunk_def allusions_chunk_def annotations_chunk_def
      Let_def split: option.splits if_splits)

lemma filter_step_chunks:
  "filter (\<lambda>c. tc_source_document_id c = x) (step_chunks poems doc cid)
     = (if df_id doc = x then step_chunks poems doc cid else [])"
  using step_chunks_source[of _ poems doc cid] by (auto simp: filter_empty_conv filter_id_conv)

lemma find_distinct:
  "distinct (map f xs) \<Longrightarrow> x \<in> set xs \<Longrightarrow> find (\<lambda>y. f y = f x) xs = Some x"
proof (induction xs)
  case Nil
  then show ?case by simp
next
  case (Cons a xs)
  show ?case
  proof (cases "f a = f x")
    case True
    with Cons.prems have "a = x" by (metis distinct.simps(2) image_eqI list.set_map list.simps(9) set_ConsD)
    with True show ?thesis by simp
  next
    case False
    with Cons show ?thesis by auto
  qed
qed

lemma filter_all_chunks_other:
  "\<forall>d\<in>set docs. df_id d \<noteq> x \<Longrightarrow>
     filter (\<lambda>c. tc_source_document_id c = x) (all_chunks poems docs cid) = []"
  by (induction docs arbitrary: cid) (simp_all add: filter_step_chunks)

lemma filter_all_chunks_one:
  "distinct (map df_id docs) \<Longrightarrow> d \<in> set docs \<Longrightarrow>
     \<exists>cid. filter (\<lambda>c. tc_source_document_id c = df_id d) (all_chunks poems docs cid0)
             = step_chunks poems d cid"
proof (induction docs arbitrary: cid0)
  case Nil
  then show ?case by simp
next
  case (Cons a ds)
  show ?case
  proof (cases "a = d")
    case True
    from Cons.prems(1) True have "df_id d \<notin> set (map df_id ds)" by simp
    then have "\<forall>d'\<in>set ds. df_id d' \<noteq> df_id d"
      by (metis image_eqI list.set_map)
    from filter_all_chunks_other[OF this] True show ?thesis
      by (auto simp: filter_step_chunks)
  next
    case False
    with Cons.prems have d: "d \<in> set ds" and ne: "df_id a \<noteq> df_id d" by auto
    from Cons.IH[OF _ d] Cons.prems(1) obtain cid where
      "filter (\<lambda>c. tc_source_document_id c = df_id d)
         (all_chunks poems ds (cid0 + length (step_chunks poems a cid0))) = step_chunks poems d cid"
      by auto
    with ne show ?thesis by (auto simp: filter_step_chunks)
  qed
qed

lemma documents_of_poems:
  "d \<in> set (create_structured_documents e clock poems) \<Longrightarrow>
     \<exists>p now. p \<in> set poems \<and> d = create_document e now p"
proof -
  assume "d \<in> set (create_structured_documents e clock poems)"
  then obtain j p where "(j, p) \<in> set (enumerate 0 poems)" and d: "d = create_document e (clock j) p"
    by (auto simp: create_structured_documents_eq)
  then have "p \<in> set poems" by (auto simp: in_set_enumerate_eq)
  with d show ?thesis by blast
qed

lemma document_ids:
  "map df_id (create_structured_documents e clock poems) = map (\<lambda>p. lit ''dufu_'' @ poem_id p) poems"
proof -
  have "map df_id (create_structured_documents e clock poems)
      = map ((\<lambda>p. lit ''dufu_'' @ poem_id p) \<circ> snd) (enumerate 0 poems)"
    by (simp add: create_structured_documents_eq create_document_def split_def o_def)
  then show ?thesis by (simp only: map_map[symmetric] map_snd_enumerate)
qed

lemma document_ids_distinct:
  "distinct (map poem_id poems) \<Longrightarrow> distinct (map df_id (create_structured_documents e clock poems))"
  unfolding document_ids
  by (simp add: distinct_map inj_on_def)

subsection \<open>Chunk counts and the annotation chunk\<close>

lemma append_annotations_eq:
  "append_annotations indent parts anns
     = parts @ map (\<lambda>a. indent @ ann_content a) (filter (\<lambda>a. ann_content a \<noteq> []) anns)"
  unfolding append_annotations_def
  by (induction anns arbitrary: parts) simp_all

lemma append_allusions_eq:
  "append_allusions indent parts als
     = parts @ map (\<lambda>a. indent @ allusion_text a) (filter (\<lambda>a. allusion_text a \<noteq> []) als)"
  unfolding append_allusions_def
  by (induction als arbitrary: parts) simp_all

lemma chunk_type_names:
  "lit ''poem_content'' \<noteq> lit ''annotations_context''"
  "lit ''allusions_context'' \<noteq> lit ''annotations_context''"
  by (simp_all add: lit_def)

lemma step_chunks_of_poem:
  assumes "distinct (map poem_id poems)" and "p \<in> set poems"
  shows "step_chunks poems (create_document e now p) cid =
     [poem_content_chunk (create_document e now p) cid] @
     (if allusions p \<noteq> [] then [allusions_chunk (create_document e now p) p (cid + 1)] else []) @
     (if text_annotations p \<noteq> []
      then [annotations_chunk (create_document e now p) p (cid + 1 + (if allusions p \<noteq> [] then 1 else 0))]
      else [])"
proof -
  have "src_poem_id (df_source (create_document e now p)) = poem_id p"
    by (simp add: create_document_def)
  with find_distinct[OF assms] show ?thesis
    by (simp add: step_chunks_eq)
qed

lemma chunks_of_poem:
  assumes "distinct (map poem_id poems)" and "process_all e clock poems = (docs, chunks)"
    and "p \<in> set poems"
  shows "\<exists>now cid. create_document e now p \<in> set docs \<and>
     filter (\<lambda>c. tc_source_document_id c = lit ''dufu_'' @ poem_id p) chunks
       = step_chunks poems (create_document e now p) cid"
proof -
  from assms(2) have docs: "docs = create_structured_documents e clock poems"
    and chunks: "chunks = all_chunks poems docs 1"
    by (auto simp: process_all_def Let_def generate_training_chunks_eq)
  from assms(3) obtain j where j: "j < length poems" "poems ! j = p" by (auto simp: in_set_conv_nth)
  then have "(j, p) \<in> set (enumerate 0 poems)" by (auto simp: in_set_enumerate_eq)
  then have d: "create_document e (clock j) p \<in> set docs"
    unfolding docs create_structured_documents_eq by force
  have "distinct (map df_id docs)" unfolding docs using assms(1) by (rule document_ids_distinct)
  from filter_all_chunks_one[OF this d, of poems 1] obtain cid where
    "filter (\<lambda>c. tc_source_document_id c = df_id (create_document e (clock j) p)) chunks
       = step_chunks poems (create_document e (clock j) p) cid"
    unfolding chunks by blast
  moreover have "df_id (create_document e (clock j) p) = lit ''dufu_'' @ poem_id p"
    by (simp add: create_document_def)
  ultimately show ?thesis using d by auto
qed

text \<open>
  The count on runs with distinct record ids. Where the poems of a run have pairwise
  distinct \<open>poem_id\<close> (the identifier of the source record), the number of chunks whose
  \<open>source_document_id\<close> is the id of a document \<open>d\<close> of the run is 1, plus 1 if the
  \<open>has_allusions\<close> flag of \<open>d\<close> is set, plus 1 if its \<open>has_annotations\<close> flag is set;
  it is between 1 and 3. On such runs the poem that the segmenter looks up by \<open>poem_id\<close>
  is the poem of the document.
\<close>

theorem chunk_count_structure_aware:
  assumes "distinct (map poem_id poems)"
    and "process_all e clock poems = (docs, chunks)"
    and "d \<in> set docs"
  shows "let n = length (filter (\<lambda>c. tc_source_document_id c = df_id d) chunks) in
     n = 1 + (if md_has_allusions (df_metadata d) then 1 else 0)
           + (if md_has_annotations (df_metadata d) then 1 else 0)
     \<and> 1 \<le> n \<and> n \<le> 3"
proof -
  from assms(2) have docs: "docs = create_structured_documents e clock poems"
    and chunks: "chunks = all_chunks poems docs 1"
    by (auto simp: process_all_def Let_def generate_training_chunks_eq)
  from assms(3) docs obtain p now where p: "p \<in> set poems" and d: "d = create_document e now p"
    using documents_of_poems by blast
  have "distinct (map df_id docs)" unfolding docs using assms(1) by (rule document_ids_distinct)
  from filter_all_chunks_one[OF this assms(3), of poems 1] obtain cid where
    f: "filter (\<lambda>c. tc_source_document_id c = df_id d) chunks = step_chunks poems d cid"
    unfolding chunks by blast
  have flags: "md_has_allusions (df_metadata d) = (allusions p \<noteq> [])"
    "md_has_annotations (df_metadata d) = (text_annotations p \<noteq> [])"
    unfolding d by (simp_all add: create_document_def)
  show ?thesis unfolding Let_def f flags unfolding d step_chunks_of_poem[OF assms(1) p]
    by simp
qed

text \<open>
  Claim C8, as amended. In a run over poems with pairwise distinct \<open>poem_id\<close>, a poem
  without text annotations has no chunk of type \<open>annotations_context\<close>, and a poem with
  at least one has exactly one. Its content is the lines \<open>Poem: <title>\<close>, an empty line
  and \<open>Scholarly Annotations:\<close>, followed by the non-empty texts among the first 10
  annotations, each indented by two spaces, followed, exactly when the poem has more than
  10 annotations, by the line \<open>... and N more annotations\<close> (after an empty line), where
  \<open>N\<close> is the number of annotations beyond the tenth. The limit of this chunk is 10; the
  limit 5 belongs to the \<open>Annotations:\<close> block of the document's full text.
\<close>

theorem annotation_chunk_content:
  assumes "distinct (map poem_id poems)"
    and "process_all e clock poems = (docs, chunks)"
    and "p \<in> set poems"
  shows "let anns = text_annotations p;
             acs = filter (\<lambda>c. tc_chunk_type c = lit ''annotations_context'')
                     (filter (\<lambda>c. tc_source_document_id c = lit ''dufu_'' @ poem_id p) chunks)
         in (anns = [] \<longrightarrow> acs = []) \<and>
            (anns \<noteq> [] \<longrightarrow>
               (\<exists>c. acs = [c] \<and>
                  tc_content c = py_join nl
                    ([lit ''Poem: '' @ or_else (title p) (lit ''Untitled''), [],
                      lit ''Scholarly Annotations:'']
                     @ map (\<lambda>a. lit ''  '' @ ann_content a)
                         (filter (\<lambda>a. ann_content a \<noteq> []) (take 10 anns))
                     @ (if length anns > 10
                        then [nl @ lit ''... and '' @ str_nat (length anns - 10) @ lit '' more annotations'']
                        else []))))"
proof -
  from chunks_of_poem[OF assms] obtain now cid where
    f: "filter (\<lambda>c. tc_source_document_id c = lit ''dufu_'' @ poem_id p) chunks
       = step_chunks poems (create_document e now p) cid" by blast
  have t: "df_title (create_document e now p) = or_else (title p) (lit ''Untitled'')"
    by (simp add: create_document_def)
  have types: "tc_chunk_type (poem_content_chunk d i) = lit ''poem_content''"
    "tc_chunk_type (allusions_chunk d q i) = lit ''allusions_context''"
    "tc_chunk_type (annotations_chunk d q i) = lit ''annotations_context''" for d q i
    by (simp_all add: poem_content_chunk_def allusions_chunk_def annotations_chunk_def Let_def)
  have content: "tc_content (annotations_chunk d p i) = py_join nl
                    ([lit ''Poem: '' @ df_title d, [], lit ''Scholarly Annotations:'']
                     @ map (\<lambda>a. lit ''  '' @ ann_content a)
                         (filter (\<lambda>a. ann_content a \<noteq> []) (take 10 (text_annotations p)))
                     @ (if length (text_annotations p) > 10
                        then [nl @ lit ''... and '' @ str_nat (length (text_annotations p) - 10) @ lit '' more annotations'']
                        else []))" for d i
    by (simp add: annotations_chunk_def annotation_parts_def Let_def append_annotations_eq)
  show ?thesis
    unfolding Let_def f step_chunks_of_poem[OF assms(1,3)]
    by (simp add: types chunk_type_names content t)
qed

lemma example_ids_distinct: "distinct (map poem_id [chun_wang, jue_ju, long_poem])"
  by (simp add: chun_wang_def jue_ju_def long_poem_def lit_def)

text \<open>
  Claim C2 fails in the code when two poems share a \<open>poem_id\<close>. Two poems whose
  elements had no \<open>Id\<close> attribute both have the empty \<open>poem_id\<close>. The first has an
  allusion, the second has none, so the flags of the two documents ask for 2 chunks and
  1 chunk. The lookup \<open>next(p for p in self.poems if p['poem_id'] == ...)\<close> returns the
  first poem for both documents, and the run emits an allusion chunk for the second
  document as well, built from the allusions of the first poem: 4 chunks instead of 3,
  and 2 for a document whose flags are both false. The comments of the function
  (\<open>If poem has allusions, create a separate context chunk\<close>, \<open>Find allusions in original
  poem data\<close>) say that the chunk belongs to the poem of the document.
\<close>

theorem shared_poem_id_extra_chunk:
  "map (\<lambda>d. (md_has_allusions (df_metadata d), md_has_annotations (df_metadata d)))
     (fst (process_all run_date run_clock
        [unnumbered_poem [\<lparr> allusion_id = lit ''a1'', sentence_index = lit ''0'',
                            allusion_text = lit ''guo po'' \<rparr>],
         unnumbered_poem []]))
     = [(True, False), (False, False)]
   \<and> map tc_chunk_type
     (snd (process_all run_date run_clock
        [unnumbered_poem [\<lparr> allusion_id = lit ''a1'', sentence_index = lit ''0'',
                            allusion_text = lit ''guo po'' \<rparr>],
         unnumbered_poem []]))
     = [lit ''poem_content'', lit ''allusions_context'',
        lit ''poem_content'', lit ''allusions_context'']"
  by (simp add: process_all_def create_structured_documents_def generate_training_chunks_def
      Let_def unnumbered_poem_def create_document_def poem_content_chunk_def
      allusions_chunk_def annotations_chunk_def)

text \<open>
  An instance of \<open>chunk_count_structure_aware\<close>: in a run over three example poems with
  distinct ids, the poem with allusions and annotations has three chunks and the poem
  with neither has one.
\<close>

theorem chunk_count_structure_aware_witness:
  "distinct (map poem_id [chun_wang, jue_ju, long_poem]) \<and>
   length (filter (\<lambda>c. tc_source_document_id c = lit ''dufu_10001'')
             (snd (process_all run_date run_clock [chun_wang, jue_ju, long_poem]))) = 3 \<and>
   length (filter (\<lambda>c. tc_source_document_id c = lit ''dufu_10002'')
             (snd (process_all run_date run_clock [chun_wang, jue_ju, long_poem]))) = 1"
proof -
  let ?ps = "[chun_wang, jue_ju, long_poem]"
  let ?docs = "fst (process_all run_date run_clock ?ps)"
  let ?chunks = "snd (process_all run_date run_clock ?ps)"
  let ?d1 = "create_document run_date (run_clock 0) chun_wang"
  let ?d2 = "create_document run_date (run_clock 1) jue_ju"
  have pa: "process_all run_date run_clock ?ps = (?docs, ?chunks)" by simp
  have docs: "?docs = [?d1, ?d2, create_document run_date (run_clock 2) long_poem]"
    by (simp add: process_all_def create_structured_documents_def Let_def eval_nat_numeral)
  have m1: "?d1 \<in> set ?docs" and m2: "?d2 \<in> set ?docs" unfolding docs by simp_all
  have i1: "df_id ?d1 = lit ''dufu_10001''" and i2: "df_id ?d2 = lit ''dufu_10002''"
    by (simp_all add: create_document_def chun_wang_def jue_ju_def lit_def)
  have f1: "md_has_allusions (df_metadata ?d1)" "md_has_annotations (df_metadata ?d1)"
    "\<not> md_has_allusions (df_metadata ?d2)" "\<not> md_has_annotations (df_metadata ?d2)"
    by (simp_all add: create_document_def chun_wang_def jue_ju_def)
  from chunk_count_structure_aware[OF example_ids_distinct pa m1]
       chunk_count_structure_aware[OF example_ids_distinct pa m2]
  show ?thesis unfolding Let_def i1 i2 using f1 example_ids_distinct by simp
qed

text \<open>
  Witness for C8: the poem with eleven annotations has one annotation chunk with the
  first ten texts and the line \<open>... and 1 more annotations\<close>; the poem without
  annotations has none.
\<close>

theorem annotation_chunk_content_witness:
  "distinct (map poem_id [chun_wang, jue_ju, long_poem]) \<and>
   map tc_content (filter (\<lambda>c. tc_chunk_type c = lit ''annotations_context'')
      (filter (\<lambda>c. tc_source_document_id c = lit ''dufu_10003'')
         (snd (process_all run_date run_clock [chun_wang, jue_ju, long_poem]))))
   = [py_join nl [lit ''Poem: '' @ [26149, 26395], [], lit ''Scholarly Annotations:'',
        lit ''  n1'', lit ''  n2'', lit ''  n3'', lit ''  n4'', lit ''  n5'', lit ''  n6'',
        lit ''  n7'', lit ''  n8'', lit ''  n9'', lit ''  n10'',
        nl @ lit ''... and 1 more annotations'']] \<and>
   filter (\<lambda>c. tc_chunk_type c = lit ''annotations_context'')
      (filter (\<lambda>c. tc_source_document_id c = lit ''dufu_10002'')
         (snd (process_all run_date run_clock [chun_wang, jue_ju, long_poem]))) = []"
proof -
  let ?ps = "[chun_wang, jue_ju, long_poem]"
  let ?docs = "fst (process_all run_date run_clock ?ps)"
  let ?chunks = "snd (process_all run_date run_clock ?ps)"
  let ?acs = "\<lambda>p. filter (\<lambda>c. tc_chunk_type c = lit ''annotations_context'')
                     (filter (\<lambda>c. tc_source_document_id c = lit ''dufu_'' @ poem_id p) ?chunks)"
  have pa: "process_all run_date run_clock ?ps = (?docs, ?chunks)" by simp
  have i: "lit ''dufu_'' @ poem_id long_poem = lit ''dufu_10003''"
    "lit ''dufu_'' @ poem_id jue_ju = lit ''dufu_10002''"
    by (simp_all add: long_poem_def jue_ju_def lit_def)
  have one: "str_nat (Suc 0) = lit ''1''" by (simp add: str_nat.simps lit_def)
  have m: "long_poem \<in> set ?ps" "jue_ju \<in> set ?ps" by simp_all
  have ne: "text_annotations long_poem \<noteq> []" and e: "text_annotations jue_ju = []"
    by (simp_all add: long_poem_def jue_ju_def)
  from annotation_chunk_content[OF example_ids_distinct pa m(1)] ne
  obtain c where c: "?acs long_poem = [c]" and
    cc: "tc_content c = py_join nl
                    ([lit ''Poem: '' @ or_else (title long_poem) (lit ''Untitled''), [],
                      lit ''Scholarly Annotations:'']
                     @ map (\<lambda>a. lit ''  '' @ ann_content a)
                         (filter (\<lambda>a. ann_content a \<noteq> []) (take 10 (text_annotations long_poem)))
                     @ (if length (text_annotations long_poem) > 10
                        then [nl @ lit ''... and '' @ str_nat (length (text_annotations long_poem) - 10) @ lit '' more annotations'']
                        else []))"
    unfolding Let_def by blast
  have "tc_content c = py_join nl [lit ''Poem: '' @ [26149, 26395], [], lit ''Scholarly Annotations:'',
        lit ''  n1'', lit ''  n2'', lit ''  n3'', lit ''  n4'', lit ''  n5'', lit ''  n6'',
        lit ''  n7'', lit ''  n8'', lit ''  n9'', lit ''  n10'',
        nl @ lit ''... and 1 more annotations'']"
    unfolding cc by (simp add: long_poem_def chun_wang_def or_else_def one lit_def)
  with c have l: "map tc_content (?acs long_poem) = [py_join nl [lit ''Poem: '' @ [26149, 26395], [], lit ''Scholarly Annotations:'',
        lit ''  n1'', lit ''  n2'', lit ''  n3'', lit ''  n4'', lit ''  n5'', lit ''  n6'',
        lit ''  n7'', lit ''  n8'', lit ''  n9'', lit ''  n10'',
        nl @ lit ''... and 1 more annotations'']]" by simp
  from annotation_chunk_content[OF example_ids_distinct pa m(2)] e
  have j: "?acs jue_ju = []" unfolding Let_def by blast
  from l j example_ids_distinct show ?thesis unfolding i by blast
qed

text \<open>
  Counterexample to C8 as stated: for the poem with six annotations the annotation chunk
  holds all six texts and no trailing note.
\<close>

theorem six_annotations_no_trailer:
  "map tc_content (filter (\<lambda>c. tc_chunk_type c = lit ''annotations_context'')
      (snd (process_all run_date run_clock [chun_wang])))
   = [py_join nl [lit ''Poem: '' @ [26149, 26395], [], lit ''Scholarly Annotations:'',
        lit ''  n1'', lit ''  n2'', lit ''  n3'', lit ''  n4'', lit ''  n5'', lit ''  n6'']]"
  by (simp add: process_all_def create_structured_documents_def generate_training_chunks_def
      Let_def chun_wang_def create_document_def or_else_def poem_content_chunk_def
      allusions_chunk_def annotations_chunk_def annotation_parts_def append_annotations_def
      lit_def)
section \<open>Identifiers of documents and chunks\<close>

lemma digits_value_snoc: "digits_value (s @ [c]) = 10 * digits_value s + (c - 48)"
  by (simp add: digits_value_def)

lemma str_nat_value: "digits_value (str_nat n) = n"
proof (induction n rule: str_nat.induct)
  case (1 n)
  show ?case
  proof (cases "n < 10")
    case True
    then show ?thesis by (subst str_nat.simps) (simp add: digits_value_def)
  next
    case False
    with 1 have "digits_value (str_nat (n div 10)) = n div 10" by simp
    with False show ?thesis
      by (subst str_nat.simps) (simp add: digits_value_snoc)
  qed
qed

lemma digits_value_zeros: "digits_value (replicate k 48 @ s) = digits_value s"
  by (induction k) (simp_all add: digits_value_def)

lemma fmt_04d_value: "digits_value (fmt_04d n) = n"
  by (simp add: fmt_04d_def digits_value_zeros str_nat_value)

lemma fmt_04d_inj: "fmt_04d a = fmt_04d b \<Longrightarrow> a = b"
  by (metis fmt_04d_value)

lemma step_chunk_ids:
  "map tc_chunk_id (step_chunks poems d cid)
     = map (\<lambda>i. lit ''dufu_chunk_'' @ fmt_04d i) [cid..<cid + length (step_chunks poems d cid)]"
proof -
  have u: "[cid..<Suc cid] = [cid]" "[cid..<Suc (Suc cid)] = [cid, Suc cid]"
    "[cid..<Suc (Suc (Suc cid))] = [cid, Suc cid, Suc (Suc cid)]"
    by (simp_all add: upt_rec[of cid] upt_rec[of "Suc cid"] upt_rec[of "Suc (Suc cid)"])
  show ?thesis
    by (auto simp: step_chunks_eq poem_content_chunk_def allusions_chunk_def annotations_chunk_def
        Let_def u split: option.splits)
qed

lemma all_chunk_ids:
  "map tc_chunk_id (all_chunks poems docs cid)
     = map (\<lambda>i. lit ''dufu_chunk_'' @ fmt_04d i) [cid..<cid + length (all_chunks poems docs cid)]"
proof (induction docs arbitrary: cid)
  case Nil
  show ?case by simp
next
  case (Cons d ds)
  let ?k = "length (step_chunks poems d cid)"
  let ?m = "length (all_chunks poems ds (cid + ?k))"
  have "[cid..<cid + (?k + ?m)] = [cid..<cid + ?k] @ [cid + ?k..<cid + ?k + ?m]"
    by (metis add.assoc le_add1 upt_add_eq_append)
  then show ?case
    by (simp add: step_chunk_ids[of poems d cid] Cons.IH[of "cid + ?k"])
qed

lemma poem_chunk_ids_distinct:
  "distinct (map tc_chunk_id (generate_training_chunks poems docs))"
  unfolding generate_training_chunks_eq all_chunk_ids
  by (auto simp: distinct_map inj_on_def dest: fmt_04d_inj)

lemma str_nat_inj: "str_nat a = str_nat b \<Longrightarrow> a = b"
  by (metis str_nat_value)

lemma window_chunk_ids_distinct: "distinct (map chunk_id (windows d))"
  by (auto simp: windows_def distinct_map inj_on_def make_chunk_def Let_def dest: str_nat_inj)

lemma same_title_same_id:
  "raw_title a = raw_title b \<Longrightarrow> generate_doc_id lower word_char a = generate_doc_id lower word_char b"
  by (simp add: generate_doc_id_def)

lemma case_variants_same_id:
  "generate_doc_id ascii_lower ascii_word_char (wikipedia_article ''Royal family'' [])
     = generate_doc_id ascii_lower ascii_word_char (wikipedia_article ''Royal Family!'' [])"
  by (simp add: generate_doc_id_def wikipedia_article_def get_or_def Let_def
      ascii_lower_def ascii_word_char_def is_space_def lit_def)

lemma windows_short:
  assumes "length (doc_words d) \<le> 400" and "doc_words d \<noteq> []"
  shows "windows d = [make_chunk d 500 (doc_words d) 0 0]"
proof -
  from assms have "(length (doc_words d) + 399) div 400 = 1"
    by (cases "doc_words d") (simp_all add: div_eq_dividend_iff Suc_le_eq div_nat_eqI)
  then show ?thesis by (simp add: windows_def)
qed

text \<open>
  Claim C5 fails on the prose pipeline. \<open>_generate_doc_id\<close> derives the id from the
  title alone, and \<open>_chunk_document\<close> derives the chunk id from the document id and the
  position of the chunk in its document. With two collected articles of the same title,
  two documents have the id \<open>qe2_winston_churchill\<close> and two chunks have the id
  \<open>qe2_winston_churchill_chunk_0\<close>. Titles that differ in case or punctuation only
  collide as well (\<open>case_variants_same_id\<close>). The ids are the same at every reading
  of the clock. (The poem pipeline numbers its chunks with one
  counter for the whole run, so its chunk ids are pairwise distinct:
  \<open>poem_chunk_ids_distinct\<close>.)
\<close>

theorem duplicate_title_duplicate_ids:
  "map doc_id (fst (structure_and_chunk ascii_lower ascii_word_char clock
       royal_biography [churchill_article, churchill_again]))
     = [lit ''qe2_elizabeth_ii'', lit ''qe2_winston_churchill'', lit ''qe2_winston_churchill'']
   \<and> map_option (map chunk_id)
        (snd (structure_and_chunk ascii_lower ascii_word_char clock
           royal_biography [churchill_article, churchill_again]))
     = Some [lit ''qe2_elizabeth_ii_chunk_0'', lit ''qe2_winston_churchill_chunk_0'',
             lit ''qe2_winston_churchill_chunk_0'']"
proof -
  let ?s = "\<lambda>now d t. structure_document ascii_lower ascii_word_char now d (lit t)"
  have ids: "doc_id (?s now royal_biography t) = lit ''qe2_elizabeth_ii''"
    "doc_id (?s now churchill_article t) = lit ''qe2_winston_churchill''"
    "doc_id (?s now churchill_again t) = lit ''qe2_winston_churchill''" for t now
    by (simp_all add: structure_document_def generate_doc_id_def royal_biography_def
        churchill_article_def churchill_again_def wikipedia_article_def get_or_def Let_def
        ascii_lower_def ascii_word_char_def is_space_def lit_def)
  have words: "length (doc_words (?s now royal_biography t)) = 8"
    "length (doc_words (?s now churchill_article t)) = 7"
    "length (doc_words (?s now churchill_again t)) = 5" for t now
    by (simp_all add: structure_document_def royal_biography_def
        churchill_article_def churchill_again_def wikipedia_article_def get_or_def
        py_split_def is_space_def lit_def)
  have w: "windows (?s now royal_biography t) = [make_chunk (?s now royal_biography t) 500 (doc_words (?s now royal_biography t)) 0 0]"
    "windows (?s now churchill_article t) = [make_chunk (?s now churchill_article t) 500 (doc_words (?s now churchill_article t)) 0 0]"
    "windows (?s now churchill_again t) = [make_chunk (?s now churchill_again t) 500 (doc_words (?s now churchill_again t)) 0 0]" for t now
    using words[of now t] by (intro windows_short; force)+
  have zero: "str_nat 0 = lit ''0''" by (simp add: str_nat.simps lit_def)
  have cid: "chunk_id (make_chunk d 500 ws 0 0) = doc_id d @ lit ''_chunk_0''" for d ws
    by (simp add: make_chunk_def Let_def zero lit_def)
  show ?thesis
    by (simp add: structure_and_chunk_def Let_def create_chunks_windows w cid ids)
       (simp add: lit_def)
qed
section \<open>Properties of the validator\<close>

subsection \<open>The verdict and the files\<close>

lemma check_files_loop_eq:
  "check_files_loop dir fl (b, v) =
     (b \<and> list_all (\<lambda>f. dir f \<noteq> None) fl,
      v\<lparr> issues := issues v @ map RequiredFileMissing (filter (\<lambda>f. dir f = None) fl) \<rparr>)"
  by (induction fl arbitrary: b v) (auto simp: add_issue_def)

lemma check_required_files_eq:
  "check_required_files dir v =
     (list_all (\<lambda>f. dir f \<noteq> None) required_files,
      v\<lparr> issues := issues v @ map RequiredFileMissing (filter (\<lambda>f. dir f = None) required_files) \<rparr>)"
  by (simp add: check_required_files_def check_files_loop_eq)

lemma check_required_files_verdict:
  "\<not> fst (check_required_files dir v) \<Longrightarrow> issues (snd (check_required_files dir v)) \<noteq> []"
  by (auto simp: check_required_files_eq list_all_iff filter_empty_conv)

lemma validate_documents_verdict:
  "validate_documents dir v = Inr (ok, v') \<Longrightarrow> ok \<longleftrightarrow> issues v' = []"
  by (auto simp: validate_documents_def Let_def add_issue_def
      split: option.splits stored_file.splits json.splits if_splits sum.splits)

lemma validate_chunks_verdict:
  "validate_chunks dir v = Inr (ok, v') \<Longrightarrow> ok \<longleftrightarrow> issues v' = []"
  by (auto simp: validate_chunks_def Let_def add_issue_def
      split: option.splits stored_file.splits json.splits if_splits sum.splits)

lemma save_report_files:
  "save_report w n d fs v = Inr fs' \<Longrightarrow> (d', f) \<noteq> (d, report_name) \<Longrightarrow> fs' d' f = fs d' f"
  by (auto simp: save_report_def split: if_splits)

lemma validate_verdict:
  assumes "validate st w n d fs v = Inr (ok, v', fs')"
  shows "ok \<longleftrightarrow> issues v' = []"
proof -
  obtain b1 v1 where r1: "check_required_files (fs d) v = (b1, v1)" by (cases "check_required_files (fs d) v")
  show ?thesis
  proof (cases b1)
    case False
    with r1 assms check_required_files_verdict[of "fs d" v] show ?thesis
      by (simp add: validate_def Let_def)
  next
    case b1: True
    show ?thesis
    proof (cases "validate_documents (fs d) v1")
      case (Inl e)
      with r1 b1 assms show ?thesis by (simp add: validate_def Let_def)
    next
      case (Inr r2)
      obtain b2 v2 where r2: "r2 = (b2, v2)" by (cases r2)
      show ?thesis
      proof (cases b2)
        case False
        with r1 b1 Inr r2 assms validate_documents_verdict[of "fs d" v1 b2 v2] show ?thesis
          by (simp add: validate_def Let_def)
      next
        case b2: True
        show ?thesis
        proof (cases "validate_chunks (fs d) v2")
          case (Inl e)
          with r1 b1 Inr r2 b2 assms show ?thesis by (simp add: validate_def Let_def)
        next
          case r3': (Inr r3)
          obtain b3 v3 where r3: "r3 = (b3, v3)" by (cases r3)
          show ?thesis
          proof (cases b3)
            case False
            with r1 b1 Inr r2 b2 r3' r3 assms validate_chunks_verdict[of "fs d" v2 b3 v3] show ?thesis
              by (simp add: validate_def Let_def)
          next
            case True
            with r1 b1 Inr r2 b2 r3' r3 assms show ?thesis
              by (auto simp: validate_def Let_def split: sum.splits option.splits)
          qed
        qed
      qed
    qed
  qed
qed

lemma validate_files:
  assumes "validate st w n d fs v = Inr (ok, v', fs')" and "(d', f) \<noteq> (d, report_name)"
  shows "fs' d' f = fs d' f"
  using assms save_report_files[of w n d fs _ _ d' f]
  by (auto simp: validate_def Let_def split: sum.splits option.splits if_splits prod.splits)

subsection \<open>Warnings do not influence the verdict\<close>

lemma sbw_refl: "same_but_warnings v v"
  by (simp add: same_but_warnings_def)

lemma sbw_set_warnings: "same_but_warnings (v\<lparr> warnings := ws \<rparr>) v"
  by (simp add: same_but_warnings_def)

lemma sbw_add_issue:
  "same_but_warnings v v' \<Longrightarrow> same_but_warnings (add_issue x v) (add_issue x v')"
  by (simp add: same_but_warnings_def add_issue_def)

lemma sbw_add_warning:
  "same_but_warnings v v' \<Longrightarrow> same_but_warnings (add_warning x v) (add_warning y v')"
  "same_but_warnings v v' \<Longrightarrow> same_but_warnings (add_warning x v) v'"
  "same_but_warnings v v' \<Longrightarrow> same_but_warnings v (add_warning y v')"
  by (simp_all add: same_but_warnings_def add_warning_def)

lemma sbw_issues: "same_but_warnings v v' \<Longrightarrow> issues v = issues v'"
  by (simp add: same_but_warnings_def)

lemma sbw_foldl:
  "same_but_warnings v v' \<Longrightarrow>
     same_but_warnings (foldl (\<lambda>v x. if P x then add_issue (F x) v else v) v xs)
                       (foldl (\<lambda>v x. if P x then add_issue (F x) v else v) v' xs)"
  by (induction xs arbitrary: v v') (simp_all add: sbw_add_issue)

lemma check_document_rel:
  assumes "same_but_warnings v v'"
  shows "loop_rel (check_document i doc (ids, v)) (check_document i doc (ids, v'))"
proof (cases doc)
  case (JObj kvs)
  let ?f = "foldl (\<lambda>v field. if map_of kvs field = None
                                       then add_issue (DocumentMissingField i field) v else v)"
  have f: "same_but_warnings (?f v required_fields) (?f v' required_fields)"
    using assms by (rule sbw_foldl)
  show ?thesis unfolding JObj check_document_def
    by (simp add: Let_def f sbw_add_issue sbw_add_warning)
qed (simp_all add: check_document_def)

lemma check_chunk_rel:
  assumes "same_but_warnings v v'"
  shows "loop_rel (check_chunk i c (ids, v)) (check_chunk i c (ids, v'))"
  using assms
  by (cases c) (simp_all add: check_chunk_def Let_def sbw_add_issue sbw_add_warning)

lemma documents_loop_rel:
  "same_but_warnings v v' \<Longrightarrow>
     loop_rel (documents_loop i ds (ids, v)) (documents_loop i ds (ids, v'))"
proof (induction ds arbitrary: i ids v v')
  case Nil
  then show ?case by simp
next
  case (Cons d ds)
  from check_document_rel[OF Cons.prems, of i d ids] show ?case
    by (cases "check_document i d (ids, v)"; cases "check_document i d (ids, v')")
       (auto intro: Cons.IH)
qed

lemma chunks_loop_rel:
  "same_but_warnings v v' \<Longrightarrow>
     loop_rel (chunks_loop i cs (ids, v)) (chunks_loop i cs (ids, v'))"
proof (induction cs arbitrary: i ids v v')
  case Nil
  then show ?case by simp
next
  case (Cons c cs)
  from check_chunk_rel[OF Cons.prems, of i c ids] show ?case
    by (cases "check_chunk i c (ids, v)"; cases "check_chunk i c (ids, v')")
       (auto intro: Cons.IH)
qed

lemma sbw_set_documents:
  "same_but_warnings v v' \<Longrightarrow> same_but_warnings (v\<lparr> self_documents := x \<rparr>) (v'\<lparr> self_documents := x \<rparr>)"
  "same_but_warnings v v' \<Longrightarrow> same_but_warnings (v\<lparr> self_chunks := x \<rparr>) (v'\<lparr> self_chunks := x \<rparr>)"
  by (simp_all add: same_but_warnings_def)

lemma validate_documents_rel:
  assumes "same_but_warnings v v'"
  shows "stage_rel (validate_documents dir v) (validate_documents dir v')"
proof -
  have loop: "stage_rel
      (case documents_loop 0 ds ([], v\<lparr> self_documents := Some j \<rparr>) of
         Inl e \<Rightarrow> Inl e | Inr st \<Rightarrow> Inr (issues (snd st) = [], snd st))
      (case documents_loop 0 ds ([], v'\<lparr> self_documents := Some j \<rparr>) of
         Inl e \<Rightarrow> Inl e | Inr st \<Rightarrow> Inr (issues (snd st) = [], snd st))" for ds j
    using documents_loop_rel[OF sbw_set_documents(1)[OF assms], of 0 ds "[]" "Some j"]
    by (auto split: sum.splits simp: same_but_warnings_def)
  show ?thesis
    unfolding validate_documents_def Let_def
    by (auto split: option.splits stored_file.splits json.splits
        simp: assms sbw_add_issue sbw_set_documents loop)
qed

lemma validate_chunks_rel:
  assumes "same_but_warnings v v'"
  shows "stage_rel (validate_chunks dir v) (validate_chunks dir v')"
proof -
  have loop: "stage_rel
      (case chunks_loop 0 cs ([], v\<lparr> self_chunks := Some j \<rparr>) of
         Inl e \<Rightarrow> Inl e | Inr st \<Rightarrow> Inr (issues (snd st) = [], snd st))
      (case chunks_loop 0 cs ([], v'\<lparr> self_chunks := Some j \<rparr>) of
         Inl e \<Rightarrow> Inl e | Inr st \<Rightarrow> Inr (issues (snd st) = [], snd st))" for cs j
    using chunks_loop_rel[OF sbw_set_documents(2)[OF assms], of 0 cs "[]" "Some j"]
    by (auto split: sum.splits simp: same_but_warnings_def)
  show ?thesis
    unfolding validate_chunks_def Let_def
    by (auto split: option.splits stored_file.splits json.splits
        simp: assms sbw_add_issue sbw_set_documents loop)
qed

lemma cross_validate_rel:
  assumes "same_but_warnings v v'"
  shows "rel_sum (=) same_but_warnings (cross_validate v) (cross_validate v')"
proof -
  from assms have e: "self_documents v = self_documents v'" "self_chunks v = self_chunks v'"
    by (simp_all add: same_but_warnings_def)
  show ?thesis unfolding cross_validate_def e
    by (auto split: sum.splits simp: assms sbw_add_warning)
qed

lemma check_required_files_rel:
  assumes "same_but_warnings v v'"
  shows "fst (check_required_files dir v) = fst (check_required_files dir v')"
    and "same_but_warnings (snd (check_required_files dir v)) (snd (check_required_files dir v'))"
  using assms by (simp_all add: check_required_files_eq same_but_warnings_def)

lemma validate_warnings_irrelevant:
  assumes "same_but_warnings v v'"
  shows "verdict_of (validate st w n d fs v) = verdict_of (validate st w n d fs v')"
proof -
  note c = check_required_files_rel[OF assms, of "fs d"]
  show ?thesis
  proof (cases "fst (check_required_files (fs d) v)")
    case False
    with c show ?thesis
      by (simp add: validate_def Let_def verdict_of_def same_but_warnings_def)
  next
    case b1: True
    note d = validate_documents_rel[OF c(2), of "fs d"]
    show ?thesis
    proof (cases "validate_documents (fs d) (snd (check_required_files (fs d) v))")
      case (Inl e)
      with d obtain e' where "validate_documents (fs d) (snd (check_required_files (fs d) v')) = Inl e'" "e = e'"
        by (cases "validate_documents (fs d) (snd (check_required_files (fs d) v'))") auto
      with Inl b1 c(1) show ?thesis by (simp add: validate_def Let_def verdict_of_def)
    next
      case (Inr r2)
      with d obtain r2' where r2': "validate_documents (fs d) (snd (check_required_files (fs d) v')) = Inr r2'"
        and f2: "fst r2 = fst r2'" and s2: "same_but_warnings (snd r2) (snd r2')"
        by (cases "validate_documents (fs d) (snd (check_required_files (fs d) v'))") (auto simp: rel_prod_sel)
      show ?thesis
      proof (cases "fst r2")
        case False
        with Inr r2' f2 s2 b1 c(1) show ?thesis
          by (simp add: validate_def Let_def verdict_of_def same_but_warnings_def)
      next
        case b2: True
        note k = validate_chunks_rel[OF s2, of "fs d"]
        show ?thesis
        proof (cases "validate_chunks (fs d) (snd r2)")
          case Inl3: (Inl e)
          with k obtain e' where "validate_chunks (fs d) (snd r2') = Inl e'" "e = e'"
            by (cases "validate_chunks (fs d) (snd r2')") auto
          with Inl3 Inr r2' f2 b2 b1 c(1) show ?thesis by (simp add: validate_def Let_def verdict_of_def)
        next
          case Inr3: (Inr r3)
          with k obtain r3' where r3': "validate_chunks (fs d) (snd r2') = Inr r3'"
            and f3: "fst r3 = fst r3'" and s3: "same_but_warnings (snd r3) (snd r3')"
            by (cases "validate_chunks (fs d) (snd r2')") (auto simp: rel_prod_sel)
          show ?thesis
          proof (cases "fst r3")
            case False
            with Inr3 r3' f3 s3 Inr r2' f2 b2 b1 c(1) show ?thesis
              by (simp add: validate_def Let_def verdict_of_def same_but_warnings_def)
          next
            case b3: True
            note x = cross_validate_rel[OF s3]
            have tail: "verdict_of
                 (case cross_validate (snd r3) of
                          Inl e \<Rightarrow> Inl e
                        | Inr v4 \<Rightarrow>
                           (case elements (self_documents v4) of
                              Inl e \<Rightarrow> Inl e
                            | Inr ds \<Rightarrow>
                               (case elements (self_chunks v4) of
                                  Inl e \<Rightarrow> Inl e
                                | Inr cs \<Rightarrow>
                                   (case st ds cs of
                                      Some e \<Rightarrow> Inl e
                                    | None \<Rightarrow>
                                       (case save_report w n d fs v4 of
                                          Inl e \<Rightarrow> Inl e
                                        | Inr fs' \<Rightarrow>
                                            Inr (length (issues v4) = 0, v4, fs'))))))
               = verdict_of
                 (case cross_validate (snd r3') of
                          Inl e \<Rightarrow> Inl e
                        | Inr v4 \<Rightarrow>
                           (case elements (self_documents v4) of
                              Inl e \<Rightarrow> Inl e
                            | Inr ds \<Rightarrow>
                               (case elements (self_chunks v4) of
                                  Inl e \<Rightarrow> Inl e
                                | Inr cs \<Rightarrow>
                                   (case st ds cs of
                                      Some e \<Rightarrow> Inl e
                                    | None \<Rightarrow>
                                       (case save_report w n d fs v4 of
                                          Inl e \<Rightarrow> Inl e
                                        | Inr fs' \<Rightarrow>
                                            Inr (length (issues v4) = 0, v4, fs'))))))"
            proof (cases "cross_validate (snd r3)")
              case (Inl e)
              with x show ?thesis by (cases "cross_validate (snd r3')") (auto simp: verdict_of_def)
            next
              case (Inr v4)
              with x obtain v4' where v4': "cross_validate (snd r3') = Inr v4'" and s4: "same_but_warnings v4 v4'"
                by (cases "cross_validate (snd r3')") auto
              from s4 have e: "self_documents v4 = self_documents v4'" "self_chunks v4 = self_chunks v4'"
                "issues v4 = issues v4'" by (simp_all add: same_but_warnings_def)
              show ?thesis unfolding Inr v4'
                by (auto simp: e verdict_of_def save_report_def split: sum.splits option.splits)
            qed
            from b3 Inr3 r3' f3 Inr r2' f2 b2 b1 c(1) tail show ?thesis
              by (simp add: validate_def Let_def)
          qed
        qed
      qed
    qed
  qed
qed

subsection \<open>What the stages append\<close>

lemma foldl_fields_keeps:
  "warnings (foldl (\<lambda>v x. if P x then add_issue (F x) v else v) v xs) = warnings v \<and>
   self_documents (foldl (\<lambda>v x. if P x then add_issue (F x) v else v) v xs) = self_documents v \<and>
   self_chunks (foldl (\<lambda>v x. if P x then add_issue (F x) v else v) v xs) = self_chunks v"
  by (induction xs arbitrary: v) (simp_all add: add_issue_def)

lemma check_document_effect:
  assumes "check_document i doc (ids, v) = Inr (ids', v')"
  shows "warnings v' = warnings v @ doc_warnings [doc]"
    and "self_documents v' = self_documents v" and "self_chunks v' = self_chunks v"
proof -
  from assms obtain kvs where doc: "doc = JObj kvs"
    by (cases doc) (simp_all add: check_document_def)
  note k = foldl_fields_keeps[of "\<lambda>field. map_of kvs field = None" "DocumentMissingField i" v required_fields]
  from assms show "warnings v' = warnings v @ doc_warnings [doc]"
    unfolding doc check_document_def
    by (auto simp: Let_def doc_warnings_def obj_get_def add_issue_def add_warning_def k split: if_splits)
  from assms show "self_documents v' = self_documents v"
    unfolding doc check_document_def
    by (auto simp: Let_def add_issue_def add_warning_def k split: if_splits)
  from assms show "self_chunks v' = self_chunks v"
    unfolding doc check_document_def
    by (auto simp: Let_def add_issue_def add_warning_def k split: if_splits)
qed

lemma check_chunk_effect:
  assumes "check_chunk i c (ids, v) = Inr (ids', v')"
  shows "warnings v' = warnings v @ chunk_warnings [c]"
    and "self_documents v' = self_documents v" and "self_chunks v' = self_chunks v"
proof -
  from assms obtain kvs where c: "c = JObj kvs"
    by (cases c) (simp_all add: check_chunk_def)
  from assms show "warnings v' = warnings v @ chunk_warnings [c]"
    unfolding c check_chunk_def
    by (auto simp: Let_def chunk_warnings_def obj_get_def add_issue_def add_warning_def split: if_splits)
  from assms show "self_documents v' = self_documents v"
    unfolding c check_chunk_def
    by (auto simp: Let_def add_issue_def add_warning_def split: if_splits)
  from assms show "self_chunks v' = self_chunks v"
    unfolding c check_chunk_def
    by (auto simp: Let_def add_issue_def add_warning_def split: if_splits)
qed

lemma doc_warnings_Cons: "doc_warnings (d # ds) = doc_warnings [d] @ doc_warnings ds"
  by (simp add: doc_warnings_def)

lemma chunk_warnings_Cons: "chunk_warnings (c # cs) = chunk_warnings [c] @ chunk_warnings cs"
  by (simp add: chunk_warnings_def)

lemma documents_loop_effect:
  "documents_loop i ds (ids, v) = Inr (ids', v') \<Longrightarrow>
     warnings v' = warnings v @ doc_warnings ds \<and>
     self_documents v' = self_documents v \<and> self_chunks v' = self_chunks v"
proof (induction ds arbitrary: i ids v)
  case Nil
  then show ?case by (simp add: doc_warnings_def)
next
  case (Cons d ds)
  from Cons.prems obtain ids1 v1 where s: "check_document i d (ids, v) = Inr (ids1, v1)"
    and r: "documents_loop (Suc i) ds (ids1, v1) = Inr (ids', v')"
    by (auto split: sum.splits)
  from Cons.IH[OF r] check_document_effect[OF s] show ?case
    by (simp add: doc_warnings_Cons[of d ds])
qed

lemma chunks_loop_effect:
  "chunks_loop i cs (ids, v) = Inr (ids', v') \<Longrightarrow>
     warnings v' = warnings v @ chunk_warnings cs \<and>
     self_documents v' = self_documents v \<and> self_chunks v' = self_chunks v"
proof (induction cs arbitrary: i ids v)
  case Nil
  then show ?case by (simp add: chunk_warnings_def)
next
  case (Cons c cs)
  from Cons.prems obtain ids1 v1 where s: "check_chunk i c (ids, v) = Inr (ids1, v1)"
    and r: "chunks_loop (Suc i) cs (ids1, v1) = Inr (ids', v')"
    by (auto split: sum.splits)
  from Cons.IH[OF r] check_chunk_effect[OF s] show ?case
    by (simp add: chunk_warnings_Cons[of c cs])
qed

lemma validate_documents_effect:
  assumes "validate_documents dir v = Inr (ok, v')"
  shows "self_chunks v' = self_chunks v"
    and "self_documents v' = self_documents v \<or>
         (\<exists>j. dir (lit ''structured_documents.json'') = Some (Parsed j) \<and> self_documents v' = Some j)"
    and "dir (lit ''structured_documents.json'') = Some (Parsed (JList ds)) \<Longrightarrow> ds \<noteq> [] \<Longrightarrow>
         warnings v' = warnings v @ doc_warnings ds \<and> self_documents v' = Some (JList ds)"
    and "ok \<Longrightarrow> \<exists>ds. dir (lit ''structured_documents.json'') = Some (Parsed (JList ds)) \<and> ds \<noteq> []"
proof -
  have loop: "documents_loop 0 xs ([], v\<lparr> self_documents := Some j \<rparr>) = Inr st \<Longrightarrow>
      warnings (snd st) = warnings v @ doc_warnings xs \<and>
      self_documents (snd st) = Some j \<and> self_chunks (snd st) = self_chunks v" for xs j st
    using documents_loop_effect[of 0 xs "[]" "v\<lparr> self_documents := Some j \<rparr>" "fst st" "snd st"]
    by simp
  from assms show "self_chunks v' = self_chunks v"
    by (auto simp: validate_documents_def Let_def add_issue_def dest: loop
        split: option.splits stored_file.splits json.splits if_splits sum.splits)
  from assms show "self_documents v' = self_documents v \<or>
         (\<exists>j. dir (lit ''structured_documents.json'') = Some (Parsed j) \<and> self_documents v' = Some j)"
    by (auto simp: validate_documents_def Let_def add_issue_def dest: loop
        split: option.splits stored_file.splits json.splits if_splits sum.splits)
  from assms show "dir (lit ''structured_documents.json'') = Some (Parsed (JList ds)) \<Longrightarrow> ds \<noteq> [] \<Longrightarrow>
         warnings v' = warnings v @ doc_warnings ds \<and> self_documents v' = Some (JList ds)"
    by (auto simp: validate_documents_def Let_def dest: loop split: sum.splits)
  from assms show "ok \<Longrightarrow> \<exists>ds. dir (lit ''structured_documents.json'') = Some (Parsed (JList ds)) \<and> ds \<noteq> []"
    by (auto simp: validate_documents_def Let_def
        split: option.splits stored_file.splits json.splits if_splits sum.splits)
qed

lemma validate_chunks_effect:
  assumes "validate_chunks dir v = Inr (ok, v')"
  shows "self_documents v' = self_documents v"
    and "self_chunks v' = self_chunks v \<or>
         (\<exists>j. dir (lit ''training_chunks.json'') = Some (Parsed j) \<and> self_chunks v' = Some j)"
    and "ok \<Longrightarrow> \<exists>cs. dir (lit ''training_chunks.json'') = Some (Parsed (JList cs)) \<and> cs \<noteq> [] \<and>
         warnings v' = warnings v @ chunk_warnings cs \<and> self_chunks v' = Some (JList cs)"
proof -
  have loop: "chunks_loop 0 xs ([], v\<lparr> self_chunks := Some j \<rparr>) = Inr st \<Longrightarrow>
      warnings (snd st) = warnings v @ chunk_warnings xs \<and>
      self_chunks (snd st) = Some j \<and> self_documents (snd st) = self_documents v" for xs j st
    using chunks_loop_effect[of 0 xs "[]" "v\<lparr> self_chunks := Some j \<rparr>" "fst st" "snd st"]
    by simp
  from assms show "self_documents v' = self_documents v"
    by (auto simp: validate_chunks_def Let_def add_issue_def dest: loop
        split: option.splits stored_file.splits json.splits if_splits sum.splits)
  from assms show "self_chunks v' = self_chunks v \<or>
         (\<exists>j. dir (lit ''training_chunks.json'') = Some (Parsed j) \<and> self_chunks v' = Some j)"
    by (auto simp: validate_chunks_def Let_def add_issue_def dest: loop
        split: option.splits stored_file.splits json.splits if_splits sum.splits)
  from assms show "ok \<Longrightarrow> \<exists>cs. dir (lit ''training_chunks.json'') = Some (Parsed (JList cs)) \<and> cs \<noteq> [] \<and>
         warnings v' = warnings v @ chunk_warnings cs \<and> self_chunks v' = Some (JList cs)"
    by (auto simp: validate_chunks_def Let_def dest: loop
        split: option.splits stored_file.splits json.splits if_splits sum.splits)
qed

lemma cross_validate_effect:
  assumes "cross_validate v = Inr v'"
  shows "issues v' = issues v" "self_documents v' = self_documents v" "self_chunks v' = self_chunks v"
    "warnings v' = warnings v \<or> (\<exists>n>0. warnings v' = warnings v @ [OrphanChunks n])"
  using assms
  by (auto simp: cross_validate_def add_warning_def split: sum.splits if_splits)

lemma check_required_files_effect:
  "warnings (snd (check_required_files dir v)) = warnings v"
  "self_documents (snd (check_required_files dir v)) = self_documents v"
  "self_chunks (snd (check_required_files dir v)) = self_chunks v"
  "fst (check_required_files dir v) \<Longrightarrow> snd (check_required_files dir v) = v"
  by (auto simp: check_required_files_eq list_all_iff filter_empty_conv[THEN iffD2])

subsection \<open>The outcome of a run\<close>

lemma validate_cases:
  assumes "validate st w n d fs v = Inr (ok, v', fs')"
  obtains
    (files) "\<not> fst (check_required_files (fs d) v)" "\<not> ok"
      "v' = snd (check_required_files (fs d) v)" "fs' = fs"
  | (documents) "fst (check_required_files (fs d) v)" "\<not> ok"
      "validate_documents (fs d) v = Inr (False, v')" "fs' = fs"
  | (chunks) v2 where "fst (check_required_files (fs d) v)" "\<not> ok"
      "validate_documents (fs d) v = Inr (True, v2)"
      "validate_chunks (fs d) v2 = Inr (False, v')" "fs' = fs"
  | (complete) v2 v3 where "fst (check_required_files (fs d) v)"
      "validate_documents (fs d) v = Inr (True, v2)"
      "validate_chunks (fs d) v2 = Inr (True, v3)"
      "cross_validate v3 = Inr v'"
      "save_report w n d fs v' = Inr fs'" "ok \<longleftrightarrow> issues v' = []"
proof (cases "fst (check_required_files (fs d) v)")
  case False
  with assms show ?thesis by (intro files) (auto simp: validate_def Let_def)
next
  case True
  note s = check_required_files_effect(4)[OF True]
  from assms True obtain b2 v2 where r2: "validate_documents (fs d) v = Inr (b2, v2)"
    by (auto simp: validate_def Let_def s split: sum.splits)
  show ?thesis
  proof (cases b2)
    case False
    with assms True r2 show ?thesis
      by (intro documents) (auto simp: validate_def Let_def s)
  next
    case b2: True
    from assms True r2 b2 obtain b3 v3 where r3: "validate_chunks (fs d) v2 = Inr (b3, v3)"
      by (auto simp: validate_def Let_def s split: sum.splits)
    show ?thesis
    proof (cases b3)
      case False
      with assms True r2 b2 r3 show ?thesis
        by (intro chunks[of v2]) (auto simp: validate_def Let_def s)
    next
      case b3: True
      from assms True r2 b2 r3 b3 show ?thesis
        by (intro complete[of v2 v3])
           (auto simp: validate_def Let_def s split: sum.splits option.splits)
    qed
  qed
qed

lemma validate_chunks_warnings_grow:
  assumes "validate_chunks dir v = Inr (ok, v')"
  shows "\<exists>ws. warnings v' = warnings v @ ws"
proof -
  have loop: "chunks_loop 0 xs ([], v\<lparr> self_chunks := Some j \<rparr>) = Inr st \<Longrightarrow>
      warnings (snd st) = warnings v @ chunk_warnings xs" for xs j st
    using chunks_loop_effect[of 0 xs "[]" "v\<lparr> self_chunks := Some j \<rparr>" "fst st" "snd st"]
    by simp
  from assms show ?thesis
    by (auto simp: validate_chunks_def Let_def add_issue_def dest: loop
        split: option.splits stored_file.splits json.splits if_splits sum.splits)
qed

lemma data_file_names:
  "lit ''structured_documents.json'' \<noteq> report_name"
  "lit ''training_chunks.json'' \<noteq> report_name"
  "lit ''dataset_metadata.json'' \<noteq> report_name"
  by (simp_all add: report_name_def lit_def)

lemma validate_memory:
  assumes "validate st w n d fs v = Inr (ok, v', fs')"
  shows "self_documents v' = self_documents v \<or>
         (\<exists>j. fs d (lit ''structured_documents.json'') = Some (Parsed j) \<and> self_documents v' = Some j)"
    and "self_chunks v' = self_chunks v \<or>
         (\<exists>j. fs d (lit ''training_chunks.json'') = Some (Parsed j) \<and> self_chunks v' = Some j)"
proof -
  from assms show "self_documents v' = self_documents v \<or>
         (\<exists>j. fs d (lit ''structured_documents.json'') = Some (Parsed j) \<and> self_documents v' = Some j)"
  proof (cases rule: validate_cases)
    case files
    then show ?thesis by (simp add: check_required_files_effect)
  next
    case documents
    from validate_documents_effect(2)[OF documents(3)] show ?thesis .
  next
    case (chunks v2)
    from validate_documents_effect(2)[OF chunks(3)] validate_chunks_effect(1)[OF chunks(4)]
    show ?thesis by simp
  next
    case (complete v2 v3)
    from validate_documents_effect(2)[OF complete(2)] validate_chunks_effect(1)[OF complete(3)]
      cross_validate_effect(2)[OF complete(4)]
    show ?thesis by simp
  qed
  from assms show "self_chunks v' = self_chunks v \<or>
         (\<exists>j. fs d (lit ''training_chunks.json'') = Some (Parsed j) \<and> self_chunks v' = Some j)"
  proof (cases rule: validate_cases)
    case files
    then show ?thesis by (simp add: check_required_files_effect)
  next
    case documents
    from validate_documents_effect(1)[OF documents(3)] show ?thesis by simp
  next
    case (chunks v2)
    from validate_documents_effect(1)[OF chunks(3)] validate_chunks_effect(2)[OF chunks(4)]
    show ?thesis by simp
  next
    case (complete v2 v3)
    from validate_documents_effect(1)[OF complete(2)] validate_chunks_effect(2)[OF complete(3)]
      cross_validate_effect(3)[OF complete(4)]
    show ?thesis by simp
  qed
qed

text \<open>
  Claim C6. Whenever \<open>validate\<close> returns, its result is true exactly when
  \<open>self.issues\<close> is empty; the files after the run are the files before it except for
  \<open>validation_report.json\<close> in the processed directory, and \<open>self.documents\<close> and
  \<open>self.chunks\<close> hold what was loaded from the two data files. The verdict and the issues
  of a run do not depend on the warnings the validator starts with. \<open>main\<close> exits with
  code 0 exactly when it is given a dataset name and a directory and \<open>validate\<close> returns
  true, and with code 1 otherwise; it leaves \<open>structured_documents.json\<close> and
  \<open>training_chunks.json\<close> as they were.
\<close>

theorem validation_outcome:
  "(\<forall>ok v' fs'. validate st w n d fs v = Inr (ok, v', fs') \<longrightarrow>
      (ok \<longleftrightarrow> issues v' = []) \<and>
      (\<forall>d' f. (d', f) \<noteq> (d, report_name) \<longrightarrow> fs' d' f = fs d' f) \<and>
      (self_documents v' = self_documents v \<or>
         (\<exists>j. fs d (lit ''structured_documents.json'') = Some (Parsed j) \<and> self_documents v' = Some j)) \<and>
      (self_chunks v' = self_chunks v \<or>
         (\<exists>j. fs d (lit ''training_chunks.json'') = Some (Parsed j) \<and> self_chunks v' = Some j))) \<and>
   verdict_of (validate st w n d fs (v\<lparr> warnings := ws \<rparr>)) = verdict_of (validate st w n d fs v) \<and>
   fst (main st w argv fs) =
     (if 3 \<le> length argv \<and>
         (\<exists>v' fs'. validate st w (argv ! 1) (argv ! 2) fs new_validator = Inr (True, v', fs'))
      then 0 else 1) \<and>
   (\<forall>d'. snd (main st w argv fs) d' (lit ''structured_documents.json'') = fs d' (lit ''structured_documents.json'') \<and>
         snd (main st w argv fs) d' (lit ''training_chunks.json'') = fs d' (lit ''training_chunks.json''))"
proof (intro conjI allI impI)
  fix ok v' fs'
  assume a: "validate st w n d fs v = Inr (ok, v', fs')"
  show "ok \<longleftrightarrow> issues v' = []" using a by (rule validate_verdict)
  show "self_documents v' = self_documents v \<or>
         (\<exists>j. fs d (lit ''structured_documents.json'') = Some (Parsed j) \<and> self_documents v' = Some j)"
    using a by (rule validate_memory(1))
  show "self_chunks v' = self_chunks v \<or>
         (\<exists>j. fs d (lit ''training_chunks.json'') = Some (Parsed j) \<and> self_chunks v' = Some j)"
    using a by (rule validate_memory(2))
  fix d' f
  assume "(d', f) \<noteq> (d, report_name)"
  with a show "fs' d' f = fs d' f" by (rule validate_files)
next
  show "verdict_of (validate st w n d fs (v\<lparr> warnings := ws \<rparr>)) = verdict_of (validate st w n d fs v)"
    by (rule validate_warnings_irrelevant) (rule sbw_set_warnings)
next
  show "fst (main st w argv fs) =
     (if 3 \<le> length argv \<and>
         (\<exists>v' fs'. validate st w (argv ! 1) (argv ! 2) fs new_validator = Inr (True, v', fs'))
      then 0 else 1)"
    by (auto simp: main_def split: sum.splits)
next
  fix d'
  have "snd (main st w argv fs) d' f = fs d' f" if "f \<noteq> report_name" for f
  proof (cases "validate st w (argv ! 1) (argv ! 2) fs new_validator")
    case (Inl e)
    then show ?thesis by (simp add: main_def)
  next
    case (Inr r)
    obtain ok v' fs' where r: "r = (ok, v', fs')" by (cases r)
    from validate_files[OF Inr[unfolded r], of d' f] that have "fs' d' f = fs d' f" by simp
    with Inr r show ?thesis by (simp add: main_def)
  qed
  from this[OF data_file_names(1)]
  show "snd (main st w argv fs) d' (lit ''structured_documents.json'') = fs d' (lit ''structured_documents.json'')" .
  from \<open>\<And>f. f \<noteq> report_name \<Longrightarrow> snd (main st w argv fs) d' f = fs d' f\<close>[OF data_file_names(2)]
  show "snd (main st w argv fs) d' (lit ''training_chunks.json'') = fs d' (lit ''training_chunks.json'')" .
qed

lemma validate_documents_warnings:
  assumes "validate_documents dir v = Inr (ok, v')"
    and "dir (lit ''structured_documents.json'') = Some (Parsed (JList ds))"
  shows "warnings v' = warnings v @ doc_warnings ds"
proof (cases "ds = []")
  case True
  with assms show ?thesis
    by (auto simp: validate_documents_def Let_def add_issue_def doc_warnings_def)
next
  case False
  from validate_documents_effect(3)[OF assms False] show ?thesis by simp
qed

lemma validate_chunks_warnings:
  assumes "validate_chunks dir v = Inr (ok, v')"
    and "dir (lit ''training_chunks.json'') = Some (Parsed (JList cs))"
  shows "warnings v' = warnings v @ chunk_warnings cs"
proof -
  have loop: "chunks_loop 0 xs ([], v\<lparr> self_chunks := Some j \<rparr>) = Inr st \<Longrightarrow>
      warnings (snd st) = warnings v @ chunk_warnings xs" for xs j st
    using chunks_loop_effect[of 0 xs "[]" "v\<lparr> self_chunks := Some j \<rparr>" "fst st" "snd st"]
    by simp
  from assms show ?thesis
    by (auto simp: validate_chunks_def Let_def add_issue_def chunk_warnings_def[of "[]"]
        dest: loop split: if_splits sum.splits)
qed

lemma no_chunk_warning_in_doc_warnings: "ChunkEmptyContent j \<notin> set (doc_warnings ds)"
  by (auto simp: doc_warnings_def)

text \<open>
  Claim C7, as amended. Take a run of a fresh validator that returns, on a directory
  with the required files and a list of documents. Pass or fail is decided by the issues
  alone. Every document whose content is missing or empty (false in Python's sense)
  has its entry among the warnings, in document order and whatever the outcome of the
  run: the warnings of the documents are a subsequence of the warnings of the run. When
  the documents stage finds an issue, the run fails, the chunks are never loaded and no
  chunk is flagged. When it finds none, every chunk of the chunk list whose content is
  missing or empty has its entry as well, after the entries of the documents and in
  chunk order, also in a run that fails at the chunks stage. The statement is silent
  about content that is not empty and consists of whitespace.
\<close>

theorem empty_content_warnings:
  assumes "validate st w n d fs new_validator = Inr (ok, v', fs')"
    and "list_all (\<lambda>f. fs d f \<noteq> None) required_files"
    and "fs d (lit ''structured_documents.json'') = Some (Parsed (JList ds))"
  shows "(ok \<longleftrightarrow> issues v' = []) \<and>
     subseq (doc_warnings ds) (warnings v') \<and>
     (\<forall>v2. validate_documents (fs d) new_validator = Inr (False, v2) \<longrightarrow>
        \<not> ok \<and> self_chunks v' = None \<and> (\<forall>j. ChunkEmptyContent j \<notin> set (warnings v'))) \<and>
     (\<forall>v2 cs. validate_documents (fs d) new_validator = Inr (True, v2) \<longrightarrow>
        fs d (lit ''training_chunks.json'') = Some (Parsed (JList cs)) \<longrightarrow>
        subseq (doc_warnings ds @ chunk_warnings cs) (warnings v'))"
proof -
  have v: "ok \<longleftrightarrow> issues v' = []" using assms(1) by (rule validate_verdict)
  have fresh: "warnings new_validator = []" "self_chunks new_validator = None"
    by (simp_all add: new_validator_def)
  from assms(1) have "subseq (doc_warnings ds) (warnings v') \<and>
     (\<forall>v2. validate_documents (fs d) new_validator = Inr (False, v2) \<longrightarrow>
        \<not> ok \<and> self_chunks v' = None \<and> (\<forall>j. ChunkEmptyContent j \<notin> set (warnings v'))) \<and>
     (\<forall>v2 cs. validate_documents (fs d) new_validator = Inr (True, v2) \<longrightarrow>
        fs d (lit ''training_chunks.json'') = Some (Parsed (JList cs)) \<longrightarrow>
        subseq (doc_warnings ds @ chunk_warnings cs) (warnings v'))"
  proof (cases rule: validate_cases)
    case files
    with assms(2) show ?thesis by (simp add: check_required_files_eq)
  next
    case documents
    from validate_documents_warnings[OF documents(3) assms(3)]
    have w: "warnings v' = doc_warnings ds" by (simp add: fresh)
    from validate_documents_effect(1)[OF documents(3)]
    have c: "self_chunks v' = None" by (simp add: fresh)
    from w c documents(2,3) show ?thesis
      by (simp add: no_chunk_warning_in_doc_warnings)
  next
    case (chunks v2)
    from validate_documents_warnings[OF chunks(3) assms(3)]
    have w2: "warnings v2 = doc_warnings ds" by (simp add: fresh)
    from validate_chunks_warnings_grow[OF chunks(4)] w2
    obtain ws where ws: "warnings v' = doc_warnings ds @ ws" by auto
    have "warnings v' = doc_warnings ds @ chunk_warnings cs"
      if "fs d (lit ''training_chunks.json'') = Some (Parsed (JList cs))" for cs
      using validate_chunks_warnings[OF chunks(4) that] w2 by simp
    with ws chunks(3) show ?thesis by auto
  next
    case (complete v2 v3)
    from validate_documents_warnings[OF complete(2) assms(3)]
    have w2: "warnings v2 = doc_warnings ds" by (simp add: fresh)
    from cross_validate_effect(4)[OF complete(4)]
    obtain tl where tl: "warnings v' = warnings v3 @ tl" by auto
    from validate_chunks_warnings_grow[OF complete(3)] w2
    obtain ws where ws: "warnings v3 = doc_warnings ds @ ws" by auto
    have "warnings v3 = doc_warnings ds @ chunk_warnings cs"
      if "fs d (lit ''training_chunks.json'') = Some (Parsed (JList cs))" for cs
      using validate_chunks_warnings[OF complete(3) that] w2 by simp
    with ws tl complete(2) show ?thesis by auto
  qed
  with v show ?thesis by blast
qed

text \<open>
  Counterexample to C7 as stated: a document with empty content and a chunk with
  whitespace-only content give no issue. The run passes and \<open>main\<close> exits with code 0;
  the only entry is a warning for the document.
\<close>

theorem blank_content_passes:
  "outcome_of (validate no_statistics_error True (lit ''Du Fu'') dataset_dir
      (dataset_fs [example_document ''dufu_1'' []]
                  [example_chunk ''dufu_chunk_0001'' ''dufu_1'' ''   ''])
      new_validator)
   = Inr (True, [], [DocumentEmptyContent (JStr (lit ''dufu_1''))])
   \<and> fst (main no_statistics_error True validator_argv
      (dataset_fs [example_document ''dufu_1'' []]
                  [example_chunk ''dufu_chunk_0001'' ''dufu_1'' ''   ''])) = 0"
  by code_simp

lemma orphan_dataset_outcome:
  "outcome_of (validate no_statistics_error True (lit ''Du Fu'') dataset_dir
      (dataset_fs [example_document ''dufu_1'' ''text'']
                  [example_chunk ''dufu_chunk_0001'' ''dufu_1'' [],
                   example_chunk ''dufu_chunk_0002'' ''dufu_2'' ''text''])
      new_validator)
   = Inr (True, [], [ChunkEmptyContent (JStr (lit ''dufu_chunk_0001'')), OrphanChunks 1])"
  by code_simp

lemma duplicate_dataset_outcome:
  "outcome_of (validate no_statistics_error True (lit ''Du Fu'') dataset_dir
      (dataset_fs [example_document ''dufu_1'' ''text'']
                  [example_chunk ''dufu_chunk_0001'' ''dufu_1'' ''text'',
                   example_chunk ''dufu_chunk_0001'' ''dufu_1'' ''text''])
      new_validator)
   = Inr (False, [DuplicateChunkId (JStr (lit ''dufu_chunk_0001''))], [])"
  by code_simp

lemma outcome_ofE:
  assumes "outcome_of r = Inr (ok, is, ws)"
  obtains v fs where "r = Inr (ok, v, fs)" "issues v = is" "warnings v = ws"
  using assms by (cases r) (auto simp: outcome_of_def)

text \<open>
  Witness for C6: a dataset with an empty chunk and an orphaned chunk passes with two
  warnings and exit code 0, its chunk file unchanged; a dataset with a duplicate chunk id
  fails with exit code 1.
\<close>

theorem validation_outcome_witness:
  "outcome_of (validate no_statistics_error True (lit ''Du Fu'') dataset_dir
      (dataset_fs [example_document ''dufu_1'' ''text'']
                  [example_chunk ''dufu_chunk_0001'' ''dufu_1'' [],
                   example_chunk ''dufu_chunk_0002'' ''dufu_2'' ''text''])
      new_validator)
     = Inr (True, [], [ChunkEmptyContent (JStr (lit ''dufu_chunk_0001'')), OrphanChunks 1]) \<and>
   fst (main no_statistics_error True validator_argv
      (dataset_fs [example_document ''dufu_1'' ''text'']
                  [example_chunk ''dufu_chunk_0001'' ''dufu_1'' [],
                   example_chunk ''dufu_chunk_0002'' ''dufu_2'' ''text''])) = 0 \<and>
   fst (main no_statistics_error True validator_argv
      (dataset_fs [example_document ''dufu_1'' ''text'']
                  [example_chunk ''dufu_chunk_0001'' ''dufu_1'' ''text'',
                   example_chunk ''dufu_chunk_0001'' ''dufu_1'' ''text''])) = 1 \<and>
   snd (main no_statistics_error True validator_argv
      (dataset_fs [example_document ''dufu_1'' ''text'']
                  [example_chunk ''dufu_chunk_0001'' ''dufu_1'' [],
                   example_chunk ''dufu_chunk_0002'' ''dufu_2'' ''text'']))
      dataset_dir (lit ''training_chunks.json'')
     = Some (Parsed (JList [example_chunk ''dufu_chunk_0001'' ''dufu_1'' [],
                            example_chunk ''dufu_chunk_0002'' ''dufu_2'' ''text'']))"
proof -
  let ?good = "dataset_fs [example_document ''dufu_1'' ''text'']
                  [example_chunk ''dufu_chunk_0001'' ''dufu_1'' [],
                   example_chunk ''dufu_chunk_0002'' ''dufu_2'' ''text'']"
  let ?bad = "dataset_fs [example_document ''dufu_1'' ''text'']
                  [example_chunk ''dufu_chunk_0001'' ''dufu_1'' ''text'',
                   example_chunk ''dufu_chunk_0001'' ''dufu_1'' ''text'']"
  have argv: "length validator_argv = 3" "validator_argv ! 1 = lit ''Du Fu''"
    "validator_argv ! 2 = dataset_dir" by (simp_all add: validator_argv_def)
  from orphan_dataset_outcome obtain v fs' where
    g: "validate no_statistics_error True (lit ''Du Fu'') dataset_dir ?good new_validator = Inr (True, v, fs')"
    by (rule outcome_ofE)
  from duplicate_dataset_outcome obtain v2 fs2 where
    b: "validate no_statistics_error True (lit ''Du Fu'') dataset_dir ?bad new_validator = Inr (False, v2, fs2)"
    by (rule outcome_ofE)
  note t1 = validation_outcome[of no_statistics_error True "lit ''Du Fu''" dataset_dir ?good new_validator "[]" validator_argv]
  note t2 = validation_outcome[of no_statistics_error True "lit ''Du Fu''" dataset_dir ?bad new_validator "[]" validator_argv]
  have p: "3 \<le> length validator_argv \<and>
         (\<exists>v' fs'. validate no_statistics_error True (validator_argv ! 1) (validator_argv ! 2) ?good new_validator
            = Inr (True, v', fs'))"
    unfolding argv using g by blast
  have np: "\<not> (3 \<le> length validator_argv \<and>
         (\<exists>v' fs'. validate no_statistics_error True (validator_argv ! 1) (validator_argv ! 2) ?bad new_validator
            = Inr (True, v', fs')))"
    unfolding argv using b by simp
  from t1[THEN conjunct2, THEN conjunct2, THEN conjunct1] p
  have c0: "fst (main no_statistics_error True validator_argv ?good) = 0"
    by (simp only: if_P)
  from t2[THEN conjunct2, THEN conjunct2, THEN conjunct1] np
  have c1: "fst (main no_statistics_error True validator_argv ?bad) = 1"
    by (simp only: if_not_P if_False)
  from t1[THEN conjunct2, THEN conjunct2, THEN conjunct2]
  have "snd (main no_statistics_error True validator_argv ?good) dataset_dir (lit ''training_chunks.json'')
      = ?good dataset_dir (lit ''training_chunks.json'')" by blast
  also have "\<dots> = Some (Parsed (JList [example_chunk ''dufu_chunk_0001'' ''dufu_1'' [],
                            example_chunk ''dufu_chunk_0002'' ''dufu_2'' ''text'']))"
    by (simp add: dataset_fs_def lit_def)
  finally show ?thesis using orphan_dataset_outcome c0 c1 by simp
qed

text \<open>
  Witness for C7. In the first run the documents give no issue and the chunks stage
  fails on a duplicate chunk id: the document and the chunk with empty content both have
  their warning. In the second run the documents stage fails on a duplicate document id:
  the document with empty content has its warning, and the chunk with empty content,
  which is never examined, has none.
\<close>

theorem empty_content_warnings_witness:
  "outcome_of (validate no_statistics_error True (lit ''Du Fu'') dataset_dir
      (dataset_fs [example_document ''dufu_1'' [], example_document ''dufu_2'' ''text'']
                  [example_chunk ''dufu_chunk_0001'' ''dufu_1'' [],
                   example_chunk ''dufu_chunk_0001'' ''dufu_2'' ''text''])
      new_validator)
     = Inr (False, [DuplicateChunkId (JStr (lit ''dufu_chunk_0001''))],
            [DocumentEmptyContent (JStr (lit ''dufu_1'')),
             ChunkEmptyContent (JStr (lit ''dufu_chunk_0001''))])
   \<and> outcome_of (validate no_statistics_error True (lit ''Du Fu'') dataset_dir
      (dataset_fs [example_document ''dufu_1'' [], example_document ''dufu_1'' ''text'']
                  [example_chunk ''dufu_chunk_0001'' ''dufu_1'' []])
      new_validator)
     = Inr (False, [DuplicateDocumentId (JStr (lit ''dufu_1''))],
            [DocumentEmptyContent (JStr (lit ''dufu_1''))])"
proof
  let ?ds = "[example_document ''dufu_1'' [], example_document ''dufu_2'' ''text'']"
  let ?cs = "[example_chunk ''dufu_chunk_0001'' ''dufu_1'' [],
              example_chunk ''dufu_chunk_0001'' ''dufu_2'' ''text'']"
  let ?fs = "dataset_fs ?ds ?cs"
  let ?r = "validate no_statistics_error True (lit ''Du Fu'') dataset_dir ?fs new_validator"
  have "outcome_of ?r = Inr (False, [DuplicateChunkId (JStr (lit ''dufu_chunk_0001''))],
          warnings (fst (snd (projr ?r))))"
    by code_simp
  then obtain v fs' where r: "?r = Inr (False, v, fs')"
    and i: "issues v = [DuplicateChunkId (JStr (lit ''dufu_chunk_0001''))]"
    by (rule outcome_ofE)
  have files: "list_all (\<lambda>f. ?fs dataset_dir f \<noteq> None) required_files"
    by (simp add: dataset_fs_def required_files_def lit_def)
  have docs: "?fs dataset_dir (lit ''structured_documents.json'') = Some (Parsed (JList ?ds))"
    by (simp add: dataset_fs_def lit_def)
  have chunks: "?fs dataset_dir (lit ''training_chunks.json'') = Some (Parsed (JList ?cs))"
    by (simp add: dataset_fs_def lit_def)
  have "map_sum id fst (validate_documents (?fs dataset_dir) new_validator) = Inr True"
    by code_simp
  then obtain v2 where pass: "validate_documents (?fs dataset_dir) new_validator = Inr (True, v2)"
    by (cases "validate_documents (?fs dataset_dir) new_validator") auto
  have dw: "doc_warnings ?ds = [DocumentEmptyContent (JStr (lit ''dufu_1''))]"
    by code_simp
  have cw: "chunk_warnings ?cs = [ChunkEmptyContent (JStr (lit ''dufu_chunk_0001''))]"
    by code_simp
  from empty_content_warnings[OF r files docs] pass chunks
  have "subseq (doc_warnings ?ds @ chunk_warnings ?cs) (warnings v)" by blast
  moreover have "length (warnings v) = 2"
  proof -
    have "length (warnings (fst (snd (projr ?r)))) = 2" by code_simp
    with r show ?thesis by simp
  qed
  ultimately have "warnings v = doc_warnings ?ds @ chunk_warnings ?cs"
    by (intro subseq_same_length[symmetric]) (simp_all add: dw cw)
  then have "warnings v = [DocumentEmptyContent (JStr (lit ''dufu_1'')),
                       ChunkEmptyContent (JStr (lit ''dufu_chunk_0001''))]"
    by (simp only: dw cw append.simps)
  with r i show "outcome_of ?r = Inr (False, [DuplicateChunkId (JStr (lit ''dufu_chunk_0001''))],
            [DocumentEmptyContent (JStr (lit ''dufu_1'')),
             ChunkEmptyContent (JStr (lit ''dufu_chunk_0001''))])"
    by (simp add: outcome_of_def)
next
  let ?ds = "[example_document ''dufu_1'' [], example_document ''dufu_1'' ''text'']"
  let ?cs = "[example_chunk ''dufu_chunk_0001'' ''dufu_1'' []]"
  let ?fs = "dataset_fs ?ds ?cs"
  let ?r = "validate no_statistics_error True (lit ''Du Fu'') dataset_dir ?fs new_validator"
  have "outcome_of ?r = Inr (False, [DuplicateDocumentId (JStr (lit ''dufu_1''))],
          warnings (fst (snd (projr ?r))))"
    by code_simp
  then obtain v fs' where r: "?r = Inr (False, v, fs')"
    and i: "issues v = [DuplicateDocumentId (JStr (lit ''dufu_1''))]"
    by (rule outcome_ofE)
  have files: "list_all (\<lambda>f. ?fs dataset_dir f \<noteq> None) required_files"
    by (simp add: dataset_fs_def required_files_def lit_def)
  have docs: "?fs dataset_dir (lit ''structured_documents.json'') = Some (Parsed (JList ?ds))"
    by (simp add: dataset_fs_def lit_def)
  have dw: "doc_warnings ?ds = [DocumentEmptyContent (JStr (lit ''dufu_1''))]"
    by code_simp
  from empty_content_warnings[OF r files docs]
  have "subseq (doc_warnings ?ds) (warnings v)" by blast
  moreover have "length (warnings v) = 1"
  proof -
    have "length (warnings (fst (snd (projr ?r)))) = 1" by code_simp
    with r show ?thesis by simp
  qed
  ultimately have "warnings v = doc_warnings ?ds"
    by (intro subseq_same_length[symmetric]) (simp_all add: dw)
  with r i show "outcome_of ?r = Inr (False, [DuplicateDocumentId (JStr (lit ''dufu_1''))],
            [DocumentEmptyContent (JStr (lit ''dufu_1''))])"
    by (simp add: outcome_of_def dw)
qed
section \<open>Properties of the streaming extractor\<close>

subsection \<open>One pass of the loop\<close>







lemma attr_get_Element: "attr_get (Element t a x cs) k v = attr_get (Element t a x cs') k v"
  by (simp add: attr_get_def)








subsection \<open>A whole scan\<close>




subsection \<open>The example documents\<close>

lemmas example_documents = example_writings_def superscript_writings_def
  example_poem_element_def sentence_index_element_def

lemmas scan_definitions = extract_all_dufu_poems_def new_scanner_def new_extractor_def
  end_event_def inspect_poem_def extract_poem_data_def sentence_indices_of_def si_indices_def
  find_child_def findall_def text_or_empty_def attr_get_def clear_element_def
  latin1_isdigit_def latin1_int_def du_fu_name_def Let_def






text \<open>
  The data extracted from the example document: one poem, with its identifier, its line
  and its sentence index.
\<close>

lemma example_poems_extracted:
  "map_sum fst
     (\<lambda>(sc, kept). map (\<lambda>p. (poem_id p, lines p, pd_sentence_indices p))
                      (dufu_poems (sc_extractor sc)))
     (extract_all_dufu_poems latin1_isdigit latin1_int (Some example_writings))
   = Inr [(lit ''2'', [[22283, 30772, 23665, 27827, 22312]], [[12]])]"
  by (simp add: scan_definitions example_documents digits_value_def lit_def)

text \<open>
  A scan that is cut short. The second poem of the document is by Du Fu and has the
  sentence index \<open>U+00B2\<close>, which \<open>isdigit\<close> accepts and \<open>int\<close> rejects. The scan ends
  with \<open>ValueError\<close> when two poems have been counted; the first has been tested and
  cleared, the second has been tested and not cleared, the third is never handled.
\<close>

lemma superscript_index_aborts:
  "map_sum (\<lambda>(err, sc). (err, sc_trace sc, total_poems_scanned (sc_extractor sc)))
     (\<lambda>(sc, kept). sc_trace sc)
     (extract_all_dufu_poems latin1_isdigit latin1_int (Some superscript_writings))
   = Inl (ValueError, [Tested 5 False, Cleared 5, Tested 14 True], 2)"
  by (simp add: scan_definitions example_documents lit_def)

text \<open>
  A \<open>Poem\<close> element inside a \<open>Poem\<close> element: both are tested and cleared, the inner one
  first, and the tree keeps the outer one only.
\<close>

lemma nested_poems_scanned:
  "map_sum fst (\<lambda>(sc, kept). (sc_trace sc, total_poems_scanned (sc_extractor sc), kept))
     (extract_all_dufu_poems latin1_isdigit latin1_int
        (Some (Element (lit ''Writings'') [] None
                 [Element (lit ''Poem'') [(lit ''Id'', lit ''1'')] None
                    [Element (lit ''Poem'') [(lit ''Id'', lit ''2'')] None []]])))
   = Inr ([Tested 0 False, Cleared 0, Tested 1 False, Cleared 1], 2,
          Element (lit ''Writings'') [] None [Element (lit ''Poem'') [] None []])"
  by (simp add: scan_definitions lit_def)

subsection \<open>Release of the scanned elements\<close>




end
